(* ===== verification/Wrap_Prelude.thy ===== *)
theory Wrap_Prelude
  imports Main "HOL-Library.Word" "HOL-Library.Char_ord" "HOL-Library.List_Lexorder"
begin

text \<open>
  The shared base of the development: Go's error values, Go's byte strings and the
  functions of the packages \<open>strings\<close> and \<open>strconv\<close> that the sources call, a bounded
  search for an unused name, and the reachability and invariant machinery that the
  state machines of the later theories instantiate.

  A Go \<open>string\<close> is a sequence of bytes and so is HOL's \<^typ>\<open>string\<close> (a list of 8-bit
  characters); a Go \<open>[]byte\<close> is a list of \<open>8 word\<close>. An \<open>error\<close> result is a
  \<open>gerror option\<close> (\<open>None\<close> is \<open>nil\<close>), a \<open>(T, error)\<close> result is \<open>gerror + T\<close>.
\<close>

section \<open>Types and lemma collections\<close>

type_synonym byte = "8 word"
type_synonym bytes = "8 word list"

named_theorems go_strings \<open>facts about the string functions of the Go library\<close>
named_theorems go_errors \<open>facts about error values\<close>

section \<open>Error values\<close>

text \<open>
  Go's error trees: \<open>errors.New\<close> (\<open>Msg\<close>), \<open>fmt.Errorf\<close> without a wrapped error
  (\<open>Msgf\<close>: the format and its arguments), an error handed in from outside with its text
  (\<open>Ext\<close>), the package-level sentinels, \<open>fmt.Errorf\<close> with \<open>%w\<close> (\<open>Wrapf\<close>: the text
  before the wrapped error, \<open>Wrapv\<close>: the text after it) and \<open>errors.Join\<close>.
\<close>

datatype sentinel =
    ErrNotFound | ErrAmbiguous | ErrLeaseHeld
  | ErrNoServer | ErrMissingTarget | ErrServerGenerationChanged | ErrSessionIdentityChanged
  | ErrCipherPoisoned | ErrCounterExhausted | ErrClientQueueFull
  | ErrNotReady | ErrCanceled | ErrDeadlineExceeded | ErrNotExist | ErrExist | ErrViewerClientNotAttached

datatype gerror =
    Msg string
  | Msgf string "string list"
  | Ext string
  | Sentinel sentinel
  | Wrapf string gerror
  | Wrapv gerror string
  | Join "gerror list"

text \<open>\<open>errors.Is\<close>: the sentinel occurs somewhere in the tree.\<close>

fun errors_is :: "gerror \<Rightarrow> sentinel \<Rightarrow> bool" where
  "errors_is (Sentinel s) t = (s = t)"
| "errors_is (Wrapf _ e) t = errors_is e t"
| "errors_is (Wrapv e _) t = errors_is e t"
| "errors_is (Join es) t = list_ex (\<lambda>e. errors_is e t) es"
| "errors_is _ t = False"

definition err_is :: "gerror option \<Rightarrow> sentinel \<Rightarrow> bool" where
  "err_is e t = (case e of None \<Rightarrow> False | Some e \<Rightarrow> errors_is e t)"

text \<open>\<open>errors.Join\<close> drops the nil errors and is nil when nothing is left.\<close>

definition errors_join :: "gerror option list \<Rightarrow> gerror option" where
  "errors_join es =
     (case List.map_filter id es of [] \<Rightarrow> None | xs \<Rightarrow> Some (Join xs))"

text \<open>Joining with an error that is there, so that the result is an error.\<close>

definition joined :: "gerror \<Rightarrow> gerror option list \<Rightarrow> gerror" where
  "joined e es = (case errors_join (Some e # es) of None \<Rightarrow> e | Some j \<Rightarrow> j)"

definition wrap_error :: "string \<Rightarrow> gerror option \<Rightarrow> gerror option" where
  "wrap_error s e = map_option (Wrapf s) e"

text \<open>
  The text of an error, for the code that searches it. A verb of a format is replaced
  by its argument as it is (the escapes \<open>%q\<close> adds are left out).
\<close>

primrec sentinel_text :: "sentinel \<Rightarrow> string" where
  "sentinel_text ErrNotFound = ''wrap instance not found''"
| "sentinel_text ErrAmbiguous = ''wrap instance selector is ambiguous''"
| "sentinel_text ErrLeaseHeld = ''wrap instance lease is held''"
| "sentinel_text ErrNoServer = ''tmux server not running''"
| "sentinel_text ErrMissingTarget = ''tmux target not found''"
| "sentinel_text ErrServerGenerationChanged = ''tmux server generation changed''"
| "sentinel_text ErrSessionIdentityChanged = ''tmux session identity changed''"
| "sentinel_text ErrCipherPoisoned = ''mirror cipher is poisoned''"
| "sentinel_text ErrCounterExhausted = ''mirror cipher counter exhausted''"
| "sentinel_text ErrClientQueueFull = ''mirror client outbound queue is full''"
| "sentinel_text ErrNotReady = ''wrap is not ready''"
| "sentinel_text ErrCanceled = ''context canceled''"
| "sentinel_text ErrDeadlineExceeded = ''context deadline exceeded''"
| "sentinel_text ErrNotExist = ''file does not exist''"
| "sentinel_text ErrExist = ''file already exists''"
| "sentinel_text ErrViewerClientNotAttached = ''tmux viewer client is not attached''"

fun format_text :: "string \<Rightarrow> string list \<Rightarrow> string" where
  "format_text (c # v # f) (a # as) =
     (if c = CHR ''%'' then a @ format_text f as else c # format_text (v # f) (a # as))"
| "format_text f as = f"

fun error_text :: "gerror \<Rightarrow> string" where
  "error_text (Msg s) = s"
| "error_text (Msgf f as) = format_text f as"
| "error_text (Ext s) = s"
| "error_text (Sentinel s) = sentinel_text s"
| "error_text (Wrapf s e) = s @ error_text e"
| "error_text (Wrapv e s) = error_text e @ s"
| "error_text (Join es) = concat (map (\<lambda>e. error_text e @ [CHR 0x0A]) es)"

lemma errors_join_None [simp, go_errors]:
  "errors_join es = None \<longleftrightarrow> (\<forall>e \<in> set es. e = None)"
  by (induction es) (auto simp: errors_join_def map_filter_def split: list.splits option.splits)

lemma wrap_error_None [simp, go_errors]: "wrap_error s e = None \<longleftrightarrow> e = None"
  by (simp add: wrap_error_def)

lemma err_is_join [go_errors]:
  "err_is (errors_join es) t \<longleftrightarrow> (\<exists>e \<in> set es. err_is e t)"
proof -
  have *: "list_ex (\<lambda>e. errors_is e t) (List.map_filter id es) \<longleftrightarrow> (\<exists>e \<in> set es. err_is e t)"
    by (induction es) (auto simp: map_filter_def err_is_def split: option.splits)
  show ?thesis
    by (cases "List.map_filter id es")
       (use * in \<open>auto simp: errors_join_def err_is_def\<close>)
qed

text \<open>What a second \<open>Decode\<close> of a JSON decoder finds after the first value.\<close>

datatype trailing = AtEOF | TrailingValue | TrailingError gerror

section \<open>Effects that may fail\<close>

text \<open>
  Code that changes a state of type \<open>'w\<close> and returns \<open>(T, error)\<close>. \<open>bindE\<close> is Go's
  \<open>if err != nil { return err }\<close>: an error ends the sequence, with the state as it is.
\<close>

type_synonym ('w, 'a) io = "'w \<Rightarrow> (gerror + 'a) \<times> 'w"

definition returnE :: "'a \<Rightarrow> ('w, 'a) io" where
  "returnE x w = (Inr x, w)"

definition failE :: "gerror \<Rightarrow> ('w, 'a) io" where
  "failE e w = (Inl e, w)"

definition liftE :: "gerror + 'a \<Rightarrow> ('w, 'a) io" where
  "liftE r w = (r, w)"

definition bindE :: "('w, 'a) io \<Rightarrow> ('a \<Rightarrow> ('w, 'b) io) \<Rightarrow> ('w, 'b) io" where
  "bindE m f w = (case m w of (Inl e, w') \<Rightarrow> (Inl e, w') | (Inr x, w') \<Rightarrow> f x w')"

text \<open>Looking at the result, error or value.\<close>

definition tryE :: "('w, 'a) io \<Rightarrow> (gerror + 'a \<Rightarrow> ('w, 'b) io) \<Rightarrow> ('w, 'b) io" where
  "tryE m f w = (case m w of (r, w') \<Rightarrow> f r w')"

definition guardE :: "bool \<Rightarrow> gerror \<Rightarrow> ('w, unit) io" where
  "guardE b e = (if b then returnE () else failE e)"

named_theorems io_simps \<open>unfolding of the effect combinators\<close>

lemma returnE_apply [io_simps]: "returnE x w = (Inr x, w)"
  by (simp add: returnE_def)

lemma failE_apply [io_simps]: "failE e w = (Inl e, w)"
  by (simp add: failE_def)

lemma liftE_apply [io_simps]: "liftE r w = (r, w)"
  by (simp add: liftE_def)

lemma bindE_apply [io_simps]:
  "bindE m f w = (case m w of (Inl e, w') \<Rightarrow> (Inl e, w') | (Inr x, w') \<Rightarrow> f x w')"
  by (simp add: bindE_def)

lemma tryE_apply [io_simps]: "tryE m f w = (case m w of (r, w') \<Rightarrow> f r w')"
  by (simp add: tryE_def)

lemma guardE_apply [io_simps]: "guardE b e w = (if b then (Inr (), w) else (Inl e, w))"
  by (simp add: guardE_def returnE_def failE_def)

text \<open>An error with a text in front, \<open>fmt.Errorf("...: %w", err)\<close>.\<close>

definition wrapErr :: "string \<Rightarrow> ('w, 'a) io \<Rightarrow> ('w, 'a) io" where
  "wrapErr s m = tryE m (\<lambda>r. case r of Inl e \<Rightarrow> failE (Wrapf s e) | Inr x \<Rightarrow> returnE x)"

lemma bindE_Inr: "bindE m f w = (Inr y, w') \<longleftrightarrow> (\<exists>x w1. m w = (Inr x, w1) \<and> f x w1 = (Inr y, w'))"
  by (auto simp: bindE_apply split: prod.splits sum.splits)

lemma guardE_Inr: "guardE b e w = (Inr x, w') \<longleftrightarrow> b \<and> w' = w"
  by (auto simp: guardE_apply)

lemma liftE_Inr: "liftE r w = (Inr x, w') \<longleftrightarrow> r = Inr x \<and> w' = w"
  by (auto simp: liftE_apply)

lemma wrapErr_Inr: "wrapErr s m w = (Inr x, w') \<longleftrightarrow> m w = (Inr x, w')"
  by (auto simp: wrapErr_def io_simps split: prod.splits sum.splits)

lemmas success_simps = bindE_Inr guardE_Inr liftE_Inr wrapErr_Inr

text \<open>The bytes of a string.\<close>

definition bytes_of :: "string \<Rightarrow> bytes" where
  "bytes_of s = map of_char s"

lemma bytes_of_length [simp]: "length (bytes_of s) = length s"
  by (simp add: bytes_of_def)

section \<open>Byte strings\<close>

abbreviation code :: "char \<Rightarrow> nat" where
  "code c \<equiv> of_char c"

definition HasPrefix :: "'a list \<Rightarrow> 'a list \<Rightarrow> bool" where
  "HasPrefix s p \<longleftrightarrow> take (length p) s = p"

definition HasSuffix :: "'a list \<Rightarrow> 'a list \<Rightarrow> bool" where
  "HasSuffix s p \<longleftrightarrow> length p \<le> length s \<and> drop (length s - length p) s = p"

definition TrimPrefix :: "'a list \<Rightarrow> 'a list \<Rightarrow> 'a list" where
  "TrimPrefix s p = (if HasPrefix s p then drop (length p) s else s)"

definition TrimSuffix :: "'a list \<Rightarrow> 'a list \<Rightarrow> 'a list" where
  "TrimSuffix s p = (if HasSuffix s p then take (length s - length p) s else s)"

fun Contains :: "'a list \<Rightarrow> 'a list \<Rightarrow> bool" where
  "Contains [] p = (p = [])"
| "Contains (c # s) p = (HasPrefix (c # s) p \<or> Contains s p)"

text \<open>\<open>strings.IndexByte\<close> and \<open>strings.LastIndexByte\<close>, \<open>None\<close> for -1.\<close>

fun IndexByte :: "'a list \<Rightarrow> 'a \<Rightarrow> nat option" where
  "IndexByte [] c = None"
| "IndexByte (x # xs) c = (if x = c then Some 0 else map_option Suc (IndexByte xs c))"

definition LastIndexByte :: "'a list \<Rightarrow> 'a \<Rightarrow> nat option" where
  "LastIndexByte s c = map_option (\<lambda>i. length s - 1 - i) (IndexByte (rev s) c)"

text \<open>\<open>strings.Split\<close> with a one-byte separator; \<open>strings.Join\<close>.\<close>

fun Split :: "'a list \<Rightarrow> 'a \<Rightarrow> 'a list list" where
  "Split [] c = [[]]"
| "Split (x # xs) c =
     (if x = c then [] # Split xs c
      else (case Split xs c of [] \<Rightarrow> [[x]] | y # ys \<Rightarrow> (x # y) # ys))"

fun JoinStr :: "'a list list \<Rightarrow> 'a list \<Rightarrow> 'a list" where
  "JoinStr [] sep = []"
| "JoinStr [x] sep = x"
| "JoinStr (x # y # ys) sep = x @ sep @ JoinStr (y # ys) sep"

text \<open>\<open>strings.ReplaceAll\<close> of one byte by a string.\<close>

definition ReplaceByte :: "'a list \<Rightarrow> 'a \<Rightarrow> 'a list \<Rightarrow> 'a list" where
  "ReplaceByte s c r = concat (map (\<lambda>x. if x = c then r else [x]) s)"

text \<open>\<open>strings.ToLower\<close> on the ASCII letters; other bytes are left as they are.\<close>

definition lower_char :: "char \<Rightarrow> char" where
  "lower_char c = (if 65 \<le> code c \<and> code c \<le> 90 then char_of (code c + 32) else c)"

definition ToLower :: "string \<Rightarrow> string" where
  "ToLower s = map lower_char s"

lemma HasPrefix_append [simp, go_strings]: "HasPrefix (p @ s) p"
  by (simp add: HasPrefix_def)

lemma HasPrefix_iff [go_strings]: "HasPrefix s p \<longleftrightarrow> (\<exists>t. s = p @ t)"
  unfolding HasPrefix_def by (metis append_take_drop_id append_eq_conv_conj)

lemma HasSuffix_append [simp, go_strings]: "HasSuffix (s @ p) p"
  by (simp add: HasSuffix_def)

lemma HasSuffix_iff [go_strings]: "HasSuffix s p \<longleftrightarrow> (\<exists>t. s = t @ p)"
proof
  assume "HasSuffix s p"
  then have "s = take (length s - length p) s @ p"
    by (metis HasSuffix_def append_take_drop_id)
  then show "\<exists>t. s = t @ p" by blast
qed auto

lemma TrimSuffix_append [simp, go_strings]: "TrimSuffix (s @ p) p = s"
  by (simp add: TrimSuffix_def)

lemma TrimPrefix_append [simp, go_strings]: "TrimPrefix (p @ s) p = s"
  by (simp add: TrimPrefix_def)

lemma IndexByte_Some [go_strings]:
  "IndexByte s c = Some i \<longleftrightarrow> i < length s \<and> s ! i = c \<and> c \<notin> set (take i s)"
proof (induction s arbitrary: i)
  case (Cons x s)
  show ?case by (cases i) (auto simp: Cons.IH)
qed simp

lemma IndexByte_append [go_strings]:
  "c \<notin> set s \<Longrightarrow> IndexByte (s @ c # t) c = Some (length s)"
  by (induction s) auto

lemma Split_nonempty [simp, go_strings]: "Split s c \<noteq> []"
  by (induction s) (auto split: list.splits)

lemma Split_no_sep [go_strings]: "c \<notin> set s \<Longrightarrow> Split s c = [s]"
  by (induction s) auto

lemma Split_append [go_strings]: "c \<notin> set s \<Longrightarrow> Split (s @ c # t) c = s # Split t c"
  by (induction s) auto

text \<open>Splitting what was joined gives the pieces back when no piece holds the separator.\<close>

lemma Split_Join [go_strings]:
  "xs \<noteq> [] \<Longrightarrow> (\<forall>x \<in> set xs. c \<notin> set x) \<Longrightarrow> Split (JoinStr xs [c]) c = xs"
  by (induction xs "[c]" rule: JoinStr.induct) (auto simp: Split_no_sep Split_append)

lemma Join_Split [go_strings]: "JoinStr (Split s c) [c] = s"
proof (induction s)
  case (Cons x s)
  obtain y ys where "Split s c = y # ys" by (cases "Split s c") auto
  with Cons.IH show ?case by (cases ys) auto
qed simp

lemma ReplaceByte_Nil [simp]: "ReplaceByte [] c r = []"
  by (simp add: ReplaceByte_def)

lemma ReplaceByte_Cons [simp]:
  "ReplaceByte (x # s) c r = (if x = c then r else [x]) @ ReplaceByte s c r"
  by (simp add: ReplaceByte_def)

section \<open>Decimal numbers\<close>

definition digit_char :: "nat \<Rightarrow> char" where
  "digit_char d = char_of (48 + d)"

definition is_digit :: "char \<Rightarrow> bool" where
  "is_digit c \<longleftrightarrow> 48 \<le> code c \<and> code c \<le> 57"

text \<open>\<open>strconv.Itoa\<close> of a non-negative number.\<close>

fun itoa :: "nat \<Rightarrow> string" where
  "itoa n = (if n < 10 then [digit_char n] else itoa (n div 10) @ [digit_char (n mod 10)])"

declare itoa.simps [simp del]

definition digits_value :: "string \<Rightarrow> nat" where
  "digits_value s = foldl (\<lambda>v c. 10 * v + (code c - 48)) 0 s"

text \<open>
  \<open>strconv.ParseUint(s, 10, bits)\<close> and \<open>strconv.Atoi\<close> (a 64-bit \<open>int\<close>): no underscore
  and no sign for the first, an optional sign for the second, at least one digit,
  nothing out of range.
\<close>

definition ParseUint :: "nat \<Rightarrow> string \<Rightarrow> nat option" where
  "ParseUint bits s =
     (if s \<noteq> [] \<and> list_all is_digit s \<and> digits_value s < 2 ^ bits
      then Some (digits_value s) else None)"

definition Atoi :: "string \<Rightarrow> int option" where
  "Atoi s =
     (let neg = HasPrefix s ''-'';
          ds = (if neg \<or> HasPrefix s ''+'' then drop 1 s else s)
      in if ds = [] \<or> \<not> list_all is_digit ds then None
         else let v = (if neg then - int (digits_value ds) else int (digits_value ds))
              in if - (2 ^ 63) \<le> v \<and> v < 2 ^ 63 then Some v else None)"

lemma code_digit_char [simp]: "d < 10 \<Longrightarrow> code (digit_char d) = 48 + d"
  by (simp add: digit_char_def)

lemma is_digit_digit_char [simp]: "d < 10 \<Longrightarrow> is_digit (digit_char d)"
  by (simp add: is_digit_def)

lemma itoa_nonempty [simp]: "itoa n \<noteq> []"
  by (subst itoa.simps) simp

lemma itoa_digits [simp]: "list_all is_digit (itoa n)"
proof (induction n rule: itoa.induct)
  case (1 n)
  then show ?case by (subst itoa.simps) auto
qed

lemma digits_value_snoc [simp]: "digits_value (s @ [c]) = 10 * digits_value s + (code c - 48)"
  by (simp add: digits_value_def)

lemma digits_value_itoa [simp]: "digits_value (itoa n) = n"
proof (induction n rule: itoa.induct)
  case (1 n)
  show ?case
  proof (cases "n < 10")
    case True
    then show ?thesis by (subst itoa.simps) (simp add: digits_value_def)
  next
    case False
    with 1 have "digits_value (itoa (n div 10)) = n div 10" by simp
    with False show ?thesis by (subst itoa.simps) simp
  qed
qed

lemma inj_itoa: "inj itoa"
  by (metis digits_value_itoa injI)

lemma itoa_length_bound: "n < 10 ^ Suc k \<Longrightarrow> length (itoa n) \<le> Suc k"
proof (induction k arbitrary: n)
  case 0
  then show ?case by (subst itoa.simps) simp
next
  case (Suc k)
  then have "length (itoa (n div 10)) \<le> Suc k" by auto
  then show ?case by (subst itoa.simps) auto
qed

lemma itoa_not_sign: "c \<in> set (itoa n) \<Longrightarrow> 48 \<le> code c \<and> code c \<le> 57"
  using itoa_digits [of n] by (auto simp: list_all_iff is_digit_def)

lemma Atoi_itoa: "n < 2 ^ 63 \<Longrightarrow> Atoi (itoa n) = Some (int n)"
proof -
  assume n: "n < 2 ^ 63"
  obtain c cs where c: "itoa n = c # cs" by (cases "itoa n") auto
  then have "c \<noteq> CHR ''-''" "c \<noteq> CHR ''+''"
    using itoa_not_sign [of c n] by auto
  then have "\<not> HasPrefix (itoa n) ''-''" "\<not> HasPrefix (itoa n) ''+''"
    by (simp_all add: HasPrefix_def c)
  moreover have "int n < 2 ^ 63"
    using n by (metis of_nat_less_iff of_nat_numeral of_nat_power)
  ultimately show ?thesis by (simp add: Atoi_def)
qed

section \<open>The first unused name\<close>

text \<open>
  Loops of the sources that count upwards until a name is free: at most \<open>k\<close> candidates
  are tried from \<open>n\<close> on.
\<close>

fun first_unused :: "nat \<Rightarrow> (nat \<Rightarrow> 'a) \<Rightarrow> 'a list \<Rightarrow> nat \<Rightarrow> nat option" where
  "first_unused 0 f used n = None"
| "first_unused (Suc k) f used n =
     (if f n \<in> set used then first_unused k f used (Suc n) else Some n)"

lemma first_unused_Some:
  "first_unused k f used n = Some m \<Longrightarrow>
     f m \<notin> set used \<and> n \<le> m \<and> m < n + k \<and> (\<forall>j. n \<le> j \<and> j < m \<longrightarrow> f j \<in> set used)"
proof (induction k arbitrary: n)
  case (Suc k)
  show ?case
  proof (cases "f n \<in> set used")
    case True
    with Suc.prems have "first_unused k f used (Suc n) = Some m" by simp
    then have m: "f m \<notin> set used \<and> Suc n \<le> m \<and> m < Suc n + k \<and>
        (\<forall>j. Suc n \<le> j \<and> j < m \<longrightarrow> f j \<in> set used)" by (rule Suc.IH)
    have "\<forall>j. n \<le> j \<and> j < m \<longrightarrow> f j \<in> set used"
      using True m by (metis Suc_leI le_neq_implies_less)
    with m show ?thesis by simp
  next
    case False
    with Suc.prems show ?thesis by auto
  qed
qed simp

lemma first_unused_None:
  "first_unused k f used n = None \<Longrightarrow> f ` {n..<n + k} \<subseteq> set used"
proof (induction k arbitrary: n)
  case (Suc k)
  then have "f n \<in> set used" and rest: "first_unused k f used (Suc n) = None"
    by (auto split: if_splits)
  moreover have "f ` {Suc n..<Suc n + k} \<subseteq> set used"
    using rest by (rule Suc.IH)
  moreover have "{n..<n + Suc k} = insert n {Suc n..<Suc n + k}" by auto
  ultimately show ?case by simp
qed simp

text \<open>With distinct candidates, one try more than there are used names is enough.\<close>

lemma first_unused_enough:
  assumes "inj f" and "length used < k"
  shows "\<exists>m. first_unused k f used n = Some m"
proof (rule ccontr)
  assume "\<not> ?thesis"
  then have "f ` {n..<n + k} \<subseteq> set used"
    by (intro first_unused_None) auto
  then have "card (f ` {n..<n + k}) \<le> card (set used)"
    by (intro card_mono) auto
  moreover have "card (f ` {n..<n + k}) = k"
    using assms(1) by (simp add: card_image inj_on_subset)
  moreover have "card (set used) \<le> length used"
    by (rule card_length)
  ultimately show False using assms(2) by simp
qed

section \<open>Reachable states and invariants\<close>

inductive reachable :: "('s \<Rightarrow> bool) \<Rightarrow> ('s \<Rightarrow> 's \<Rightarrow> bool) \<Rightarrow> 's \<Rightarrow> bool"
  for init :: "'s \<Rightarrow> bool" and step :: "'s \<Rightarrow> 's \<Rightarrow> bool" where
  reach_init: "init s \<Longrightarrow> reachable init step s"
| reach_step: "reachable init step s \<Longrightarrow> step s t \<Longrightarrow> reachable init step t"

text \<open>
  The contract of a component whose state changes in atomic steps (its critical
  sections): the initial states satisfy the invariant and every step keeps it.
\<close>

locale invariant_system =
  fixes init :: "'s \<Rightarrow> bool"
    and step :: "'s \<Rightarrow> 's \<Rightarrow> bool"
    and inv :: "'s \<Rightarrow> bool"
  assumes init_inv: "init s \<Longrightarrow> inv s"
    and step_inv: "inv s \<Longrightarrow> step s t \<Longrightarrow> inv t"
begin

lemma reachable_inv: "reachable init step s \<Longrightarrow> inv s"
  by (induction rule: reachable.induct) (auto intro: init_inv step_inv)

lemma steps_inv: "step\<^sup>*\<^sup>* s t \<Longrightarrow> inv s \<Longrightarrow> inv t"
  by (induction rule: rtranclp_induct) (auto intro: step_inv)

end

end
