(* ===== verification/Go_Unicode.thy ===== *)
theory Go_Unicode
  imports Wrap_Prelude
begin

text \<open>
  The parts of Go's \<open>unicode/utf8\<close>, \<open>unicode\<close> and \<open>strings\<close> packages that depend on the
  UTF-8 encoding: decoding and encoding a rune, the runes a \<open>range\<close> loop over a string
  yields, \<open>utf8.ValidString\<close>, \<open>utf8.RuneCountInString\<close>, \<open>strings.TrimSpace\<close> and
  \<open>strings.Fields\<close>. A rune is a natural number. Go's table of printable runes beyond
  ASCII is a parameter (\<open>up\<close>) of \<open>IsPrint\<close>.
\<close>

type_synonym rune = nat

definition RuneError :: rune where "RuneError = 0xFFFD"

section \<open>Decoding and encoding\<close>

definition in_range :: "nat \<Rightarrow> nat \<Rightarrow> char \<Rightarrow> bool" where
  "in_range lo hi c \<longleftrightarrow> lo \<le> code c \<and> code c \<le> hi"

abbreviation locb :: "char \<Rightarrow> bool" where
  "locb \<equiv> in_range 0x80 0xBF"

text \<open>
  \<open>utf8.DecodeRuneInString\<close>: the rune and its width; \<open>(RuneError, 1)\<close> for a byte that
  starts no valid encoding. The ranges of the second byte are those of Go's table.
\<close>

definition second_byte :: "nat \<Rightarrow> char \<Rightarrow> bool" where
  "second_byte b0 =
     (if b0 = 0xE0 then in_range 0xA0 0xBF
      else if b0 = 0xED then in_range 0x80 0x9F
      else if b0 = 0xF0 then in_range 0x90 0xBF
      else if b0 = 0xF4 then in_range 0x80 0x8F
      else locb)"

definition DecodeRune :: "string \<Rightarrow> rune \<times> nat" where
  "DecodeRune s =
     (case s of
        [] \<Rightarrow> (RuneError, 0)
      | c0 # r0 \<Rightarrow>
          let b0 = code c0 in
          if b0 < 0x80 then (b0, 1)
          else if b0 < 0xC2 \<or> 0xF4 < b0 then (RuneError, 1)
          else case r0 of
            [] \<Rightarrow> (RuneError, 1)
          | c1 # r1 \<Rightarrow>
              if \<not> second_byte b0 c1 then (RuneError, 1)
              else if b0 < 0xE0 then ((b0 - 0xC0) * 64 + (code c1 - 0x80), 2)
              else case r1 of
                [] \<Rightarrow> (RuneError, 1)
              | c2 # r2 \<Rightarrow>
                  if \<not> locb c2 then (RuneError, 1)
                  else if b0 < 0xF0
                  then ((b0 - 0xE0) * 4096 + (code c1 - 0x80) * 64 + (code c2 - 0x80), 3)
                  else case r2 of
                    [] \<Rightarrow> (RuneError, 1)
                  | c3 # _ \<Rightarrow>
                      if \<not> locb c3 then (RuneError, 1)
                      else ((b0 - 0xF0) * 262144 + (code c1 - 0x80) * 4096
                            + (code c2 - 0x80) * 64 + (code c3 - 0x80), 4))"

text \<open>\<open>strings.Builder.WriteRune\<close>: the UTF-8 encoding, \<open>RuneError\<close>'s for no code point.\<close>

definition encode_raw :: "rune \<Rightarrow> string" where
  "encode_raw r =
     (if r < 0x80 then [char_of r]
      else if r < 0x800 then [char_of (0xC0 + r div 64), char_of (0x80 + r mod 64)]
      else if r < 0x10000
      then [char_of (0xE0 + r div 4096), char_of (0x80 + r div 64 mod 64), char_of (0x80 + r mod 64)]
      else [char_of (0xF0 + r div 262144), char_of (0x80 + r div 4096 mod 64),
            char_of (0x80 + r div 64 mod 64), char_of (0x80 + r mod 64)])"

definition valid_rune :: "rune \<Rightarrow> bool" where
  "valid_rune r \<longleftrightarrow> r < 0xD800 \<or> 0xDFFF < r \<and> r \<le> 0x10FFFF"

definition EncodeRune :: "rune \<Rightarrow> string" where
  "EncodeRune r = encode_raw (if valid_rune r then r else RuneError)"

lemma DecodeRune_width: "s \<noteq> [] \<Longrightarrow> 0 < snd (DecodeRune s) \<and> snd (DecodeRune s) \<le> length s"
  by (cases s) (auto simp: DecodeRune_def Let_def split: list.splits)

text \<open>The runes of a \<open>range\<close> loop, each with its width.\<close>

function runes_w :: "string \<Rightarrow> (rune \<times> nat) list" where
  "runes_w s = (if s = [] then [] else DecodeRune s # runes_w (drop (snd (DecodeRune s)) s))"
  by pat_completeness auto
termination
  by (relation "measure length") (auto dest: DecodeRune_width)

declare runes_w.simps [simp del]

definition runes :: "string \<Rightarrow> rune list" where
  "runes s = map fst (runes_w s)"

definition ValidString :: "string \<Rightarrow> bool" where
  "ValidString s \<longleftrightarrow> (RuneError, 1) \<notin> set (runes_w s)"

definition RuneCountInString :: "string \<Rightarrow> nat" where
  "RuneCountInString s = length (runes_w s)"

definition encode_runes :: "rune list \<Rightarrow> string" where
  "encode_runes rs = concat (map EncodeRune rs)"

section \<open>Classes of runes\<close>

text \<open>\<open>unicode.IsPrint\<close>: ASCII exactly, other runes by the table \<open>up\<close>.\<close>

definition IsPrint :: "(rune \<Rightarrow> bool) \<Rightarrow> rune \<Rightarrow> bool" where
  "IsPrint up r \<longleftrightarrow> (if r < 0x80 then 0x20 \<le> r \<and> r \<le> 0x7E else up r)"

text \<open>\<open>unicode.IsSpace\<close>: the runes with property White\_Space.\<close>

definition space_runes :: "rune list" where
  "space_runes =
     [0x09, 0x0A, 0x0B, 0x0C, 0x0D, 0x20, 0x85, 0xA0, 0x1680, 0x2000, 0x2001, 0x2002, 0x2003,
      0x2004, 0x2005, 0x2006, 0x2007, 0x2008, 0x2009, 0x200A, 0x2028, 0x2029, 0x202F, 0x205F, 0x3000]"

definition space_encodings :: "string list" where
  "space_encodings = map EncodeRune space_runes"

text \<open>
  \<open>strings.TrimSpace\<close> strips space runes at both ends. At the right end Go decodes the
  last rune backwards; that rune is a space exactly when the string ends with the
  encoding of one, and likewise on the left.
\<close>

definition leading_space :: "string \<Rightarrow> string option" where
  "leading_space s = find (HasPrefix s) space_encodings"

definition trailing_space :: "string \<Rightarrow> string option" where
  "trailing_space s = find (HasSuffix s) space_encodings"

lemma EncodeRune_nonempty [simp]: "EncodeRune r \<noteq> []" "0 < length (EncodeRune r)"
  by (auto simp: EncodeRune_def encode_raw_def)

lemma leading_space_Some: "leading_space s = Some e \<Longrightarrow> e \<noteq> [] \<and> (\<exists>t. s = e @ t)"
  by (auto simp: leading_space_def find_Some_iff space_encodings_def HasPrefix_iff)

lemma trailing_space_Some: "trailing_space s = Some e \<Longrightarrow> e \<noteq> [] \<and> (\<exists>t. s = t @ e)"
  by (auto simp: trailing_space_def find_Some_iff space_encodings_def HasSuffix_iff)

function TrimLeftSpace :: "string \<Rightarrow> string" where
  "TrimLeftSpace s =
     (case leading_space s of None \<Rightarrow> s | Some e \<Rightarrow> TrimLeftSpace (drop (length e) s))"
  by pat_completeness auto
termination
  by (relation "measure length") (auto dest!: leading_space_Some)

function TrimRightSpace :: "string \<Rightarrow> string" where
  "TrimRightSpace s =
     (case trailing_space s of None \<Rightarrow> s | Some e \<Rightarrow> TrimRightSpace (take (length s - length e) s))"
  by pat_completeness auto
termination
  by (relation "measure length") (auto dest!: trailing_space_Some)

declare TrimLeftSpace.simps [simp del] TrimRightSpace.simps [simp del]

definition TrimSpace :: "string \<Rightarrow> string" where
  "TrimSpace s = TrimRightSpace (TrimLeftSpace s)"

section \<open>Round trips of the encoding\<close>

lemma code_char_of: "n < 256 \<Longrightarrow> code (char_of n) = n"
  by simp

lemma Decode1: "a < 0x80 \<Longrightarrow> DecodeRune (char_of a # s) = (a, 1)"
  by (simp add: DecodeRune_def Let_def)

lemma Decode2:
  assumes "2 \<le> a" "a < 32" "b < 64"
  shows "DecodeRune (char_of (0xC0 + a) # char_of (0x80 + b) # s) = (a * 64 + b, 2)"
  using assms by (simp add: DecodeRune_def Let_def second_byte_def in_range_def)

lemma Decode3:
  assumes "a < 16" "b < 64" "c < 64" "a = 0 \<longrightarrow> 32 \<le> b" "a = 13 \<longrightarrow> b \<le> 31"
  shows "DecodeRune (char_of (0xE0 + a) # char_of (0x80 + b) # char_of (0x80 + c) # s) =
    (a * 4096 + b * 64 + c, 3)"
  using assms by (simp add: DecodeRune_def Let_def second_byte_def in_range_def)

lemma Decode4:
  assumes "a < 5" "b < 64" "c < 64" "d < 64" "a = 0 \<longrightarrow> 16 \<le> b" "a = 4 \<longrightarrow> b \<le> 15"
  shows "DecodeRune (char_of (0xF0 + a) # char_of (0x80 + b) # char_of (0x80 + c) # char_of (0x80 + d) # s) =
    (a * 262144 + b * 4096 + c * 64 + d, 4)"
  using assms by (simp add: DecodeRune_def Let_def second_byte_def in_range_def)

lemma split64: "(r::nat) div 4096 * 4096 + r div 64 mod 64 * 64 + r mod 64 = r"
proof -
  have "r div 4096 = r div 64 div 64" by (simp add: div_mult2_eq [symmetric])
  then show ?thesis using div_mult_mod_eq [of "r div 64" 64] div_mult_mod_eq [of r 64] by linarith
qed

lemma split64':
  "(r::nat) div 262144 * 262144 + r div 4096 mod 64 * 4096 + r div 64 mod 64 * 64 + r mod 64 = r"
proof -
  have "r div 262144 = r div 4096 div 64" by (simp add: div_mult2_eq [symmetric])
  then show ?thesis using div_mult_mod_eq [of "r div 4096" 64] split64 [of r] by linarith
qed

lemma DecodeRune_EncodeRune:
  assumes "valid_rune r"
  shows "DecodeRune (EncodeRune r @ s) = (r, length (EncodeRune r))"
proof -
  have enc: "EncodeRune r = encode_raw r" using assms by (simp add: EncodeRune_def)
  consider "r < 0x80" | "0x80 \<le> r" "r < 0x800" | "0x800 \<le> r" "r < 0x10000" | "0x10000 \<le> r"
    by linarith
  then show ?thesis
  proof cases
    case 1
    then show ?thesis by (simp add: enc encode_raw_def Decode1)
  next
    case 2
    then have "2 \<le> r div 64" "r div 64 < 32" by auto
    from Decode2 [OF this, of "r mod 64" s] 2 show ?thesis by (simp add: enc encode_raw_def)
  next
    case 3
    then have a: "r div 4096 < 16" by auto
    have low: "r mod 64 < 64" by simp
    have b: "r div 4096 = 0 \<longrightarrow> 32 \<le> r div 64 mod 64"
      using 3 split64 [of r] low by linarith
    have c: "r div 4096 = 13 \<longrightarrow> r div 64 mod 64 \<le> 31"
      using assms split64 [of r] low mod_less_divisor [of 64 "r div 64"]
      unfolding valid_rune_def by linarith
    from Decode3 [OF a _ _ b c, of "r mod 64" s] 3 show ?thesis
      by (simp add: enc encode_raw_def split64)
  next
    case 4
    then have a: "r div 262144 < 5" using assms by (auto simp: valid_rune_def)
    have low: "r div 64 mod 64 < 64" "r mod 64 < 64" by simp_all
    have b: "r div 262144 = 0 \<longrightarrow> 16 \<le> r div 4096 mod 64"
      using 4 split64' [of r] low by linarith
    have c: "r div 262144 = 4 \<longrightarrow> r div 4096 mod 64 \<le> 15"
      using assms split64' [of r] unfolding valid_rune_def by linarith
    from Decode4 [OF a _ _ _ b c, of "r div 64 mod 64" "r mod 64" s] 4 show ?thesis
      by (simp add: enc encode_raw_def split64')
  qed
qed

lemma valid_rune_2: "b0 < 0xE0 \<Longrightarrow> c < 256 \<Longrightarrow> valid_rune ((b0 - 0xC0) * 64 + (c - 0x80))"
  unfolding valid_rune_def by linarith

lemma valid_rune_3:
  assumes "\<not> b0 < 0xE0" "b0 < 0xF0" "second_byte b0 c1" "locb c2"
  shows "valid_rune ((b0 - 0xE0) * 4096 + (code c1 - 0x80) * 64 + (code c2 - 0x80))"
proof -
  obtain a b c where abc: "b0 = a + 0xE0" "code c1 = b + 0x80" "code c2 = c + 0x80" "b < 64" "c < 64"
  proof (rule that [of "b0 - 0xE0" "code c1 - 0x80" "code c2 - 0x80"])
    show "code c1 = code c1 - 0x80 + 0x80" "code c1 - 0x80 < 64"
      using assms(3) by (auto simp: second_byte_def in_range_def split: if_splits)
  qed (use assms in \<open>auto simp: in_range_def\<close>)
  consider "a < 13" | "a = 13" "b < 32" | "13 < a"
    using assms abc by (auto simp: second_byte_def in_range_def split: if_splits) linarith
  then show ?thesis using abc assms(2) unfolding valid_rune_def by cases auto
qed

lemma valid_rune_4:
  assumes "\<not> b0 < 0xF0" "\<not> 0xF4 < b0" "second_byte b0 c1" "locb c2" "locb c3"
  shows "valid_rune ((b0 - 0xF0) * 262144 + (code c1 - 0x80) * 4096 + (code c2 - 0x80) * 64 + (code c3 - 0x80))"
proof -
  obtain a b c d where abc: "b0 = a + 0xF0" "code c1 = b + 0x80" "code c2 = c + 0x80" "code c3 = d + 0x80"
    "b < 64" "c < 64" "d < 64"
  proof (rule that [of "b0 - 0xF0" "code c1 - 0x80" "code c2 - 0x80" "code c3 - 0x80"])
    show "code c1 = code c1 - 0x80 + 0x80" "code c1 - 0x80 < 64"
      using assms(3) by (auto simp: second_byte_def in_range_def split: if_splits)
  qed (use assms in \<open>auto simp: in_range_def\<close>)
  have "a = 0 \<Longrightarrow> 16 \<le> b" "a = 4 \<Longrightarrow> b < 16"
    using assms(3) abc by (auto simp: second_byte_def in_range_def)
  moreover have "a \<le> 4" using assms(2) abc(1) by simp
  ultimately show ?thesis using abc unfolding valid_rune_def by (cases "a = 0"; cases "a = 4") auto
qed

lemma valid_rune_small: "r < 0x80 \<Longrightarrow> valid_rune r" "valid_rune RuneError"
  by (simp_all add: valid_rune_def RuneError_def)

lemma EncodeRune_prefix:
  assumes "EncodeRune r @ s = EncodeRune q @ t" and "valid_rune r" and "valid_rune q"
  shows "r = q"
  using DecodeRune_EncodeRune [OF assms(2), of s] DecodeRune_EncodeRune [OF assms(3), of t] assms(1)
  by simp

lemma DecodeRune_valid: "valid_rune (fst (DecodeRune s))"
  unfolding DecodeRune_def Let_def
  by (simp split: list.split add: valid_rune_small valid_rune_2 valid_rune_3 valid_rune_4
      del: not_less)

lemma RuneError_width: "EncodeRune RuneError = encode_raw RuneError" "length (EncodeRune RuneError) = 3"
  by (simp_all add: EncodeRune_def encode_raw_def RuneError_def)

lemma runes_w_Nil [simp]: "runes_w [] = []"
  by (subst runes_w.simps) simp

lemma runes_w_encode:
  "valid_rune r \<Longrightarrow> runes_w (EncodeRune r @ s) = (r, length (EncodeRune r)) # runes_w s"
  by (subst runes_w.simps) (simp add: DecodeRune_EncodeRune)

lemma runes_w_encode_runes:
  "\<forall>r \<in> set rs. valid_rune r \<Longrightarrow>
     runes_w (encode_runes rs @ s) = map (\<lambda>r. (r, length (EncodeRune r))) rs @ runes_w s"
  by (induction rs) (auto simp: encode_runes_def runes_w_encode)

lemma runes_encode_runes [simp]:
  assumes "\<forall>r \<in> set rs. valid_rune r"
  shows "runes (encode_runes rs) = rs" "RuneCountInString (encode_runes rs) = length rs"
    "ValidString (encode_runes rs)"
  using runes_w_encode_runes [OF assms, of "[]"] RuneError_width(2)
  by (auto simp: runes_def RuneCountInString_def ValidString_def comp_def)

lemma runes_valid: "\<forall>r \<in> set (runes s). valid_rune r"
proof (induction s rule: runes_w.induct)
  case (1 s)
  have "runes s = (if s = [] then [] else fst (DecodeRune s) # runes (drop (snd (DecodeRune s)) s))"
    by (simp add: runes_def runes_w.simps [of s])
  with 1 show ?case using DecodeRune_valid by simp
qed

text \<open>The ASCII characters of a string are its runes below 128.\<close>

lemma DecodeRune_bytes:
  assumes "s \<noteq> []" and "DecodeRune s = (r, n)"
  shows "r < 0x80 \<and> n = 1 \<and> code (hd s) = r \<or> 0x80 \<le> r \<and> (\<forall>c \<in> set (take n s). 0x80 \<le> code c)"
proof -
  obtain c0 r0 where s: "s = c0 # r0" using assms(1) by (cases s) auto
  have sb: "0x80 \<le> code c" if "second_byte b c" for b c
    using that by (auto simp: second_byte_def in_range_def split: if_splits)
  have lc: "0x80 \<le> code c" if "locb c" for c using that by (simp add: in_range_def)
  have three: "128 \<le> (b0 - 0xE0) * 4096 + (code c1 - 0x80) * 64 + code c2 - 0x80"
    if "\<not> b0 < 0xE0" "second_byte b0 c1" "locb c2" for b0 c1 c2
    using that by (cases "b0 = 0xE0") (auto simp: second_byte_def in_range_def)
  have four: "128 \<le> (b0 - 0xF0) * 262144 + (code c1 - 0x80) * 4096 + y * 64 + code c3 - 0x80"
    if "\<not> b0 < 0xF0" "second_byte b0 c1" "locb c3" for b0 c1 y c3
    using that by (cases "b0 = 0xF0") (auto simp: second_byte_def in_range_def)
  have two: "128 \<le> (b0 - 0xC0) * 64 + code c1 - 0x80"
    if "\<not> b0 < 0xC2" "second_byte b0 c1" for b0 c1
    using that sb [of b0 c1] by linarith
  have "\<not> code c0 < 0x80 \<Longrightarrow> 0x80 \<le> r \<and> (\<forall>c \<in> set (take n s). 0x80 \<le> code c)"
    using assms(2) s sb lc two three four
    by (auto simp: DecodeRune_def Let_def RuneError_def split: list.splits if_splits)
  moreover have "code c0 < 0x80 \<Longrightarrow> r = code c0 \<and> n = 1"
    using assms(2) s by (simp add: DecodeRune_def)
  ultimately show ?thesis using s by auto
qed

lemma runes_Cons: "s \<noteq> [] \<Longrightarrow> runes s = fst (DecodeRune s) # runes (drop (snd (DecodeRune s)) s)"
  by (simp add: runes_def runes_w.simps [of s])

lemma runes_Nil [simp]: "runes [] = []"
  by (simp add: runes_def)

lemma runes_ascii: "c \<in> set s \<Longrightarrow> code c < 0x80 \<Longrightarrow> code c \<in> set (runes s)"
proof (induction s rule: runes_w.induct)
  case (1 s)
  obtain r n where d: "DecodeRune s = (r, n)" by force
  have s: "s \<noteq> []" using 1 by auto
  have "c \<in> set (take n s) \<or> c \<in> set (drop n s)"
    using 1 by (metis Un_iff append_take_drop_id set_append)
  moreover have "c \<in> set (take n s) \<Longrightarrow> code c = r"
    using DecodeRune_bytes [OF s d] s 1 by (cases s) auto
  ultimately show ?case using 1 s d by (auto simp: runes_Cons [OF s])
qed

lemma runes_first: "s \<noteq> [] \<Longrightarrow> code (hd s) < 0x80 \<Longrightarrow> \<exists>rs. runes s = code (hd s) # rs"
proof -
  assume s: "s \<noteq> []" "code (hd s) < 0x80"
  obtain r n where d: "DecodeRune s = (r, n)" by force
  have "0 < n" using DecodeRune_width [OF s(1)] d by simp
  then have "hd s \<in> set (take n s)" using s(1) by (cases s; cases n) auto
  with DecodeRune_bytes [OF s(1) d] s(2) have "r = code (hd s)" by auto
  then show ?thesis using d by (simp add: runes_Cons [OF s(1)])
qed

lemma runes_all_ascii:
  "list_all (\<lambda>r. r < 0x80) (runes s) \<Longrightarrow> runes s = map code s \<and> (\<forall>c \<in> set s. code c < 0x80)"
proof (induction s rule: runes_w.induct)
  case (1 s)
  show ?case
  proof (cases "s = []")
    case False
    obtain r n where d: "DecodeRune s = (r, n)" by force
    with 1 False have "r < 0x80" and rest: "list_all (\<lambda>r. r < 0x80) (runes (drop n s))"
      by (auto simp: runes_Cons)
    with DecodeRune_bytes [OF False d] have n: "n = 1" "code (hd s) = r" by auto
    have "runes (drop n s) = map code (drop n s) \<and> (\<forall>c \<in> set (drop n s). code c < 0x80)"
      using 1 False rest d by simp
    with n d False \<open>r < 0x80\<close> show ?thesis by (cases s) (auto simp: runes_Cons)
  qed simp
qed

lemma encode_ascii: "\<forall>c \<in> set s. code c < 0x80 \<Longrightarrow> encode_runes (map code s) = s"
  by (induction s) (auto simp: encode_runes_def EncodeRune_def encode_raw_def valid_rune_def)

lemma runes_of_ascii: "\<forall>c \<in> set s. code c < 0x80 \<Longrightarrow> runes s = map code s"
proof -
  assume a: "\<forall>c \<in> set s. code c < 0x80"
  then have "\<forall>r \<in> set (map code s). valid_rune r" by (auto simp: valid_rune_def)
  from runes_encode_runes(1) [OF this] encode_ascii [OF a] show ?thesis by simp
qed

lemma ValidString_ascii: "\<forall>c \<in> set s. code c < 0x80 \<Longrightarrow> ValidString s"
proof -
  assume a: "\<forall>c \<in> set s. code c < 0x80"
  then have "\<forall>r \<in> set (map code s). valid_rune r" by (auto simp: valid_rune_def)
  from runes_encode_runes(3) [OF this] encode_ascii [OF a] show ?thesis by simp
qed

lemma encode_runes_append: "encode_runes (xs @ ys) = encode_runes xs @ encode_runes ys"
  by (simp add: encode_runes_def)

section \<open>Trimming\<close>

lemma TrimLeftSpace_leading: "leading_space (TrimLeftSpace s) = None"
proof (induction s rule: TrimLeftSpace.induct)
  case (1 s)
  then show ?case by (subst TrimLeftSpace.simps) (auto split: option.splits)
qed

lemma TrimRightSpace_trailing: "trailing_space (TrimRightSpace s) = None"
proof (induction s rule: TrimRightSpace.induct)
  case (1 s)
  then show ?case by (subst TrimRightSpace.simps) (auto split: option.splits)
qed

lemma TrimRightSpace_prefix: "\<exists>t. s = TrimRightSpace s @ t"
proof (induction s rule: TrimRightSpace.induct)
  case (1 s)
  show ?case
  proof (cases "trailing_space s")
    case None
    then show ?thesis by (subst TrimRightSpace.simps) simp
  next
    case (Some e)
    with 1 obtain t where "take (length s - length e) s = TrimRightSpace (take (length s - length e) s) @ t"
      by blast
    moreover have "TrimRightSpace s = TrimRightSpace (take (length s - length e) s)"
      using Some by (subst TrimRightSpace.simps) simp
    ultimately show ?thesis by (metis append.assoc append_take_drop_id)
  qed
qed

lemma leading_space_prefix: "leading_space (s @ t) = None \<Longrightarrow> leading_space s = None"
  unfolding leading_space_def find_None_iff HasPrefix_iff by (metis append.assoc)

lemma TrimSpace_ends: "leading_space (TrimSpace s) = None \<and> trailing_space (TrimSpace s) = None"
  unfolding TrimSpace_def
  by (metis TrimLeftSpace_leading TrimRightSpace_prefix TrimRightSpace_trailing leading_space_prefix)

lemma TrimSpace_id: "leading_space s = None \<Longrightarrow> trailing_space s = None \<Longrightarrow> TrimSpace s = s"
  unfolding TrimSpace_def
  by (subst TrimLeftSpace.simps, subst TrimRightSpace.simps) simp

lemma TrimSpace_idem: "TrimSpace (TrimSpace s) = TrimSpace s"
  using TrimSpace_ends by (simp add: TrimSpace_id)

text \<open>Trimming a valid string removes whole runes at its ends.\<close>

lemma EncodeRune_shape:
  obtains c cs where "EncodeRune r = c # cs" and "\<not> locb c" and "\<forall>x \<in> set cs. locb x"
proof -
  define q where "q = (if valid_rune r then r else RuneError)"
  have q: "q \<le> 0x10FFFF" by (auto simp: q_def valid_rune_def RuneError_def)
  have cont: "locb (char_of (0x80 + n mod 64))" for n :: nat
    by (simp add: in_range_def)
  have "EncodeRune r = encode_raw q" by (simp add: EncodeRune_def q_def)
  moreover have "\<exists>c cs. encode_raw q = c # cs \<and> \<not> locb c \<and> (\<forall>x \<in> set cs. locb x)"
    using q cont by (auto simp: encode_raw_def in_range_def)
  ultimately show thesis using that by auto
qed

lemma suffix_unique:
  assumes "xs @ c # cs = ys @ d # ds" "\<not> P c" "\<not> P d" "\<forall>x \<in> set cs. P x" "\<forall>x \<in> set ds. P x"
  shows "xs = ys \<and> c = d \<and> cs = ds"
proof -
  have "takeWhile P (rev (xs @ c # cs)) = rev cs" "takeWhile P (rev (ys @ d # ds)) = rev ds"
    using assms(2-5) takeWhile_append2 [of "rev cs" P "c # rev xs"]
      takeWhile_append2 [of "rev ds" P "d # rev ys"] by auto
  with assms(1) have "cs = ds" by (metis rev_rev_ident)
  with assms(1) show ?thesis by simp
qed

lemma EncodeRune_suffix:
  assumes "xs @ EncodeRune r = ys @ EncodeRune q"
  shows "xs = ys \<and> EncodeRune r = EncodeRune q"
  using assms suffix_unique [where P = locb] by (metis EncodeRune_shape)

lemma space_runes_valid: "\<forall>r \<in> set space_runes. valid_rune r"
  by (simp add: space_runes_def valid_rune_def)

lemma space_encoding_rune:
  "e \<in> set space_encodings \<Longrightarrow> \<exists>r. valid_rune r \<and> e = EncodeRune r"
  using space_runes_valid by (auto simp: space_encodings_def)

lemma leading_space_encode:
  assumes "\<forall>r \<in> set rs. valid_rune r" and "leading_space (encode_runes rs) = Some e"
  shows "\<exists>r rs'. rs = r # rs' \<and> e = EncodeRune r"
proof -
  from assms(2) have e: "e \<in> set space_encodings" and pre: "HasPrefix (encode_runes rs) e"
    by (auto simp: leading_space_def find_Some_iff)
  from e space_encoding_rune obtain q where q: "valid_rune q" "e = EncodeRune q" by blast
  from pre obtain t where t: "encode_runes rs = EncodeRune q @ t"
    using q(2) by (auto simp: HasPrefix_iff)
  then have "rs \<noteq> []" by (auto simp: encode_runes_def)
  then obtain r rs' where rs: "rs = r # rs'" by (cases rs) auto
  then have "encode_runes rs = EncodeRune r @ encode_runes rs'" by (simp add: encode_runes_def)
  with t have "EncodeRune r @ encode_runes rs' = EncodeRune q @ t" by simp
  from EncodeRune_prefix [OF this] assms(1) rs q have "r = q" by simp
  with rs q show ?thesis by simp
qed

lemma trailing_space_encode:
  assumes "trailing_space (encode_runes rs) = Some e"
  shows "\<exists>r rs'. rs = rs' @ [r] \<and> e = EncodeRune r"
proof -
  from assms have e: "e \<in> set space_encodings" and suf: "HasSuffix (encode_runes rs) e"
    by (auto simp: trailing_space_def find_Some_iff)
  from e space_encoding_rune obtain q where q: "e = EncodeRune q" by blast
  from suf obtain t where t: "encode_runes rs = t @ EncodeRune q"
    using q by (auto simp: HasSuffix_iff)
  then have "rs \<noteq> []" by (auto simp: encode_runes_def)
  then obtain rs' r where rs: "rs = rs' @ [r]" by (metis rev_exhaust)
  then have "encode_runes rs' @ EncodeRune r = t @ EncodeRune q"
    using t by (simp add: encode_runes_def)
  then have "EncodeRune r = EncodeRune q" by (rule EncodeRune_suffix [THEN conjunct2])
  with rs q show ?thesis by auto
qed

lemma TrimLeftSpace_encode:
  assumes "\<forall>r \<in> set rs. valid_rune r"
  shows "\<exists>xs rs'. rs = xs @ rs' \<and> TrimLeftSpace (encode_runes rs) = encode_runes rs'"
  using assms
proof (induction rs)
  case Nil
  have "leading_space [] = None"
    using leading_space_Some by (cases "leading_space []") force+
  then show ?case by (auto simp: encode_runes_def TrimLeftSpace.simps [of "[]"])
next
  case (Cons r rs)
  show ?case
  proof (cases "leading_space (encode_runes (r # rs))")
    case None
    then have "TrimLeftSpace (encode_runes (r # rs)) = encode_runes (r # rs)"
      by (subst TrimLeftSpace.simps) simp
    then show ?thesis by (metis append_Nil)
  next
    case (Some e)
    with leading_space_encode [OF Cons.prems Some] have "e = EncodeRune r" by auto
    with Some have "TrimLeftSpace (encode_runes (r # rs)) = TrimLeftSpace (encode_runes rs)"
      by (subst TrimLeftSpace.simps) (simp add: encode_runes_def)
    moreover obtain xs rs' where "rs = xs @ rs'" "TrimLeftSpace (encode_runes rs) = encode_runes rs'"
      using Cons by auto
    ultimately show ?thesis by (metis append_Cons)
  qed
qed

lemma TrimRightSpace_encode:
  "\<exists>rs' ys. rs = rs' @ ys \<and> TrimRightSpace (encode_runes rs) = encode_runes rs'"
proof (induction rs rule: rev_induct)
  case Nil
  have "trailing_space [] = None"
    using trailing_space_Some by (cases "trailing_space []") force+
  then show ?case by (auto simp: encode_runes_def TrimRightSpace.simps [of "[]"])
next
  case (snoc r rs)
  show ?case
  proof (cases "trailing_space (encode_runes (rs @ [r]))")
    case None
    then have "TrimRightSpace (encode_runes (rs @ [r])) = encode_runes (rs @ [r])"
      by (subst TrimRightSpace.simps) simp
    then show ?thesis by (metis append_Nil2)
  next
    case (Some e)
    with trailing_space_encode [OF Some] have "e = EncodeRune r" by auto
    with Some have "TrimRightSpace (encode_runes (rs @ [r])) = TrimRightSpace (encode_runes rs)"
      by (subst TrimRightSpace.simps) (simp add: encode_runes_def)
    with snoc show ?thesis by (metis append.assoc)
  qed
qed

lemma TrimSpace_encode:
  assumes "\<forall>r \<in> set rs. valid_rune r"
  shows "\<exists>xs rs' ys. rs = xs @ rs' @ ys \<and> TrimSpace (encode_runes rs) = encode_runes rs'"
proof -
  obtain xs rs1 where 1: "rs = xs @ rs1" "TrimLeftSpace (encode_runes rs) = encode_runes rs1"
    using TrimLeftSpace_encode [OF assms] by blast
  obtain rs2 ys where "rs1 = rs2 @ ys" "TrimRightSpace (encode_runes rs1) = encode_runes rs2"
    using TrimRightSpace_encode by blast
  with 1 show ?thesis unfolding TrimSpace_def by auto
qed

text \<open>Appending a suffix whose last rune is no space keeps a trimmed string trimmed.\<close>

lemma trailing_space_snoc:
  assumes "code c < 0x80" and "code c \<notin> set space_runes"
  shows "trailing_space (s @ [c]) = None"
proof (rule ccontr)
  assume "trailing_space (s @ [c]) \<noteq> None"
  then obtain r where r: "r \<in> set space_runes" "HasSuffix (s @ [c]) (EncodeRune r)"
    by (auto simp: trailing_space_def find_None_iff space_encodings_def)
  have "valid_rune (code c)" using assms(1) by (simp add: valid_rune_def)
  then have c: "EncodeRune (code c) = [c]" using assms(1) by (simp add: EncodeRune_def encode_raw_def)
  from r(2) obtain t where "s @ EncodeRune (code c) = t @ EncodeRune r"
    unfolding HasSuffix_iff c by blast
  then have "EncodeRune (code c) = EncodeRune r" by (rule EncodeRune_suffix [THEN conjunct2])
  then have eq: "EncodeRune r = EncodeRune (code c)" by simp
  have "valid_rune r" using r(1) space_runes_valid by blast
  with eq \<open>valid_rune (code c)\<close> have "r = code c"
    by (intro EncodeRune_prefix [where s = "[]" and t = "[]"]) auto
  with r(1) assms(2) show False by simp
qed

lemma leading_space_append:
  assumes "s \<noteq> []" and "\<forall>r \<in> set rs. valid_rune r" and "s = encode_runes rs" and "leading_space s = None"
    and "\<forall>r \<in> set qs. valid_rune r"
  shows "leading_space (s @ encode_runes qs) = None"
proof (rule ccontr)
  assume "leading_space (s @ encode_runes qs) \<noteq> None"
  then obtain e where e: "leading_space (encode_runes (rs @ qs)) = Some e"
    using assms(3) by (auto simp: encode_runes_append)
  from assms(1,3) obtain r rs' where rs: "rs = r # rs'" by (cases rs) (auto simp: encode_runes_def)
  have "\<exists>q qs'. rs @ qs = q # qs' \<and> e = EncodeRune q"
    by (rule leading_space_encode [OF _ e]) (use assms in auto)
  with rs have "e = EncodeRune r" by auto
  moreover have "e \<in> set space_encodings" using e by (auto simp: leading_space_def find_Some_iff)
  ultimately have "leading_space s \<noteq> None"
    using assms(3) rs by (auto simp: leading_space_def find_None_iff encode_runes_def)
  with assms(4) show False by simp
qed

lemma leading_space_ascii:
  assumes "code c < 0x80" and "code c \<notin> set space_runes"
  shows "leading_space (c # s) = None"
proof (rule ccontr)
  assume "leading_space (c # s) \<noteq> None"
  then obtain r t where r: "r \<in> set space_runes" "c # s = EncodeRune r @ t"
    by (auto simp: leading_space_def find_None_iff space_encodings_def HasPrefix_iff)
  have v: "valid_rune (code c)" using assms(1) by (simp add: valid_rune_def)
  then have "EncodeRune (code c) @ s = EncodeRune r @ t"
    using assms(1) r(2) by (simp add: EncodeRune_def encode_raw_def)
  from EncodeRune_prefix [OF this v] r(1) space_runes_valid have "code c = r" by blast
  with r(1) assms(2) show False by simp
qed

text \<open>A string that starts and ends with an ASCII character other than a space is trimmed.\<close>

lemma TrimSpace_ascii:
  assumes "s \<noteq> []" "code (hd s) < 0x80" "code (hd s) \<notin> set space_runes"
    and "code (last s) < 0x80" "code (last s) \<notin> set space_runes"
  shows "TrimSpace s = s"
proof (rule TrimSpace_id)
  show "leading_space s = None"
    using leading_space_ascii [OF assms(2,3), of "tl s"] assms(1) by simp
  show "trailing_space s = None"
    using trailing_space_snoc [OF assms(4,5), of "butlast s"] assms(1) by simp
qed

end
