(* ===== verification/Go_Paths.thy ===== *)
theory Go_Paths
  imports Wrap_Prelude
begin

text \<open>
  The functions of Go's \<open>path/filepath\<close> (on Unix) that the sources call: \<open>IsAbs\<close>, \<open>Clean\<close>,
  \<open>Base\<close>, \<open>Dir\<close> and \<open>Join\<close>, with the laws the stores rely on: cleaning is idempotent, and
  joining a directory with a file name can be undone by \<open>Dir\<close> and \<open>Base\<close>.
\<close>

definition IsAbs :: "string \<Rightarrow> bool" where
  "IsAbs p = HasPrefix p ''/''"

text \<open>
  \<open>Clean\<close> reads the elements of the path from left to right; the elements kept so far are
  a stack, the last one first.
\<close>

definition clean_step :: "bool \<Rightarrow> string list \<Rightarrow> string \<Rightarrow> string list" where
  "clean_step rooted stack c =
     (if c = [] \<or> c = ''.'' then stack
      else if c = ''..'' then
        (case stack of
           [] \<Rightarrow> if rooted then [] else [''..'']
         | x # xs \<Rightarrow> if x = ''..'' then ''..'' # stack else xs)
      else c # stack)"

definition clean_elems :: "string \<Rightarrow> string list" where
  "clean_elems p = rev (foldl (clean_step (IsAbs p)) [] (Split p CHR ''/''))"

definition render :: "bool \<Rightarrow> string list \<Rightarrow> string" where
  "render rooted cs =
     (if rooted then ''/'' @ JoinStr cs ''/'' else if cs = [] then ''.'' else JoinStr cs ''/'')"

definition Clean :: "string \<Rightarrow> string" where
  "Clean p = render (IsAbs p) (clean_elems p)"

text \<open>\<open>Base\<close>: trailing slashes are dropped, then everything up to the last slash.\<close>

definition Base :: "string \<Rightarrow> string" where
  "Base p =
     (if p = [] then ''.''
      else let q = rev (dropWhile (\<lambda>c. c = CHR ''/'') (rev p));
               b = rev (takeWhile (\<lambda>c. c \<noteq> CHR ''/'') (rev q))
           in if b = [] then ''/'' else b)"

definition Dir :: "string \<Rightarrow> string" where
  "Dir p = Clean (rev (dropWhile (\<lambda>c. c \<noteq> CHR ''/'') (rev p)))"

text \<open>\<open>Join\<close>: leading empty elements are skipped.\<close>

definition PathJoin :: "string list \<Rightarrow> string" where
  "PathJoin es =
     (case dropWhile (\<lambda>e. e = []) es of [] \<Rightarrow> [] | fs \<Rightarrow> Clean (JoinStr fs ''/''))"

section \<open>The elements of a cleaned path\<close>

text \<open>A proper element is an ordinary file name.\<close>

definition proper :: "string \<Rightarrow> bool" where
  "proper c \<longleftrightarrow> c \<noteq> [] \<and> c \<noteq> ''.'' \<and> c \<noteq> ''..'' \<and> CHR ''/'' \<notin> set c"

text \<open>What \<open>Clean\<close> leaves: proper elements, after parent references in a relative path.\<close>

definition clean_form :: "bool \<Rightarrow> string list \<Rightarrow> bool" where
  "clean_form rooted cs \<longleftrightarrow>
     (\<exists>n ps. cs = replicate n ''..'' @ ps \<and> list_all proper ps \<and> (rooted \<longrightarrow> n = 0))"

lemma clean_form_snoc: "clean_form rooted cs \<Longrightarrow> proper c \<Longrightarrow> clean_form rooted (cs @ [c])"
  unfolding clean_form_def by (elim exE conjE) (force simp: list_all_iff)

lemma clean_step_form:
  assumes "clean_form rooted (rev stack)" and "CHR ''/'' \<notin> set c"
  shows "clean_form rooted (rev (clean_step rooted stack c))"
proof -
  obtain n ps where st: "rev stack = replicate n ''..'' @ ps" "list_all proper ps" "rooted \<longrightarrow> n = 0"
    using assms(1) by (auto simp: clean_form_def)
  consider "c = [] \<or> c = ''.''" | "c = ''..''" | "proper c"
    using assms(2) by (auto simp: proper_def)
  then show ?thesis
  proof cases
    case 2
    show ?thesis
    proof (cases ps rule: rev_exhaust)
      case Nil
      with st have s: "stack = replicate n ''..''" by (metis append_Nil2 rev_replicate rev_rev_ident)
      have "clean_step rooted stack c = (if rooted then [] else replicate (Suc n) ''..'')"
        using 2 st(3) by (cases n) (auto simp: clean_step_def s)
      moreover have "clean_form False (replicate (Suc n) ''..'')" for n
        unfolding clean_form_def by (rule exI [of _ "Suc n"], rule exI [of _ "[]"]) simp
      moreover have "clean_form r []" for r by (simp add: clean_form_def)
      ultimately show ?thesis
        by (cases rooted) (simp_all add: replicate_append_same [symmetric] del: replicate_Suc)
    next
      case (snoc ps' x)
      with st have s: "stack = x # rev (replicate n ''..'' @ ps')" and x: "x \<noteq> ''..''"
        by (auto simp: proper_def rev_swap)
      have "clean_step rooted stack c = rev (replicate n ''..'' @ ps')"
        using 2 x by (simp add: clean_step_def s)
      then show ?thesis using st snoc by (auto simp: clean_form_def)
    qed
  next
    case 3
    then have "clean_step rooted stack c = c # stack" by (simp add: clean_step_def proper_def)
    with 3 assms(1) show ?thesis by (simp add: clean_form_snoc)
  qed (use assms in \<open>auto simp: clean_step_def\<close>)
qed

lemma Split_elems_no_sep: "x \<in> set (Split s c) \<Longrightarrow> c \<notin> set x"
proof (induction s arbitrary: x)
  case (Cons y s)
  obtain z zs where "Split s c = z # zs" by (cases "Split s c") auto
  with Cons show ?case by (auto split: if_splits)
qed simp

lemma foldl_clean_form:
  "clean_form rooted (rev stack) \<Longrightarrow> \<forall>c \<in> set cs. CHR ''/'' \<notin> set c \<Longrightarrow>
     clean_form rooted (rev (foldl (clean_step rooted) stack cs))"
  by (induction cs arbitrary: stack) (auto intro: clean_step_form)

lemma clean_elems_form: "clean_form (IsAbs p) (clean_elems p)"
  unfolding clean_elems_def
proof (rule foldl_clean_form)
  show "\<forall>c \<in> set (Split p CHR ''/''). CHR ''/'' \<notin> set c"
    by (intro ballI) (rule Split_elems_no_sep)
qed (simp add: clean_form_def)

section \<open>Rendering and reading back\<close>

lemma clean_form_elems:
  assumes "clean_form rooted cs" and "c \<in> set cs"
  shows "c \<noteq> [] \<and> c \<noteq> ''.'' \<and> CHR ''/'' \<notin> set c"
proof -
  obtain n ps where "cs = replicate n ''..'' @ ps" "list_all proper ps"
    using assms(1) unfolding clean_form_def by blast
  then have "c = ''..'' \<or> proper c" using assms(2) by (auto simp: list_all_iff)
  then show ?thesis by (auto simp: proper_def)
qed

lemma foldl_clean_id:
  "clean_form rooted (rev stack @ cs) \<Longrightarrow> foldl (clean_step rooted) stack cs = rev cs @ stack"
proof (induction cs arbitrary: stack)
  case (Cons c cs)
  have cl: "c \<noteq> []" "c \<noteq> ''.''" using clean_form_elems [OF Cons.prems, of c] by auto
  obtain n ps where st: "rev stack @ c # cs = replicate n ''..'' @ ps" "list_all proper ps"
      "rooted \<longrightarrow> n = 0"
    using Cons.prems by (auto simp: clean_form_def)
  have "clean_step rooted stack c = c # stack"
  proof (cases "c = ''..''")
    case True
    have "length stack < n"
    proof (rule ccontr)
      assume "\<not> ?thesis"
      then have "(replicate n ''..'' @ ps) ! length stack \<in> set ps"
        using st(1) by (metis append_Nil2 length_append length_replicate length_rev
            linorder_not_less nth_append nth_mem add_diff_inverse_nat length_Cons
            less_add_same_cancel1 nat_add_left_cancel_less zero_less_Suc)
      moreover have "(rev stack @ c # cs) ! length stack = c"
        by (metis length_rev nth_append_length)
      ultimately show False using st True by (auto simp: list_all_iff proper_def)
    qed
    moreover from this have "rev stack = replicate (length stack) ''..''"
      using arg_cong [OF st(1), of "take (length stack)"] by simp
    then have "stack = replicate (length stack) ''..''" by (metis rev_replicate rev_rev_ident)
    ultimately show ?thesis using True st(3) cl
      by (cases stack) (auto simp: clean_step_def)
  qed (use cl in \<open>simp add: clean_step_def\<close>)
  moreover have "foldl (clean_step rooted) (c # stack) cs = rev cs @ c # stack"
    using Cons.prems by (intro Cons.IH) simp
  ultimately show ?case by simp
qed simp

lemma JoinStr_nonempty: "cs \<noteq> [] \<Longrightarrow> (\<And>c. c \<in> set cs \<Longrightarrow> c \<noteq> []) \<Longrightarrow> JoinStr cs sep \<noteq> []"
  by (induction cs sep rule: JoinStr.induct) auto

lemma IsAbs_render: "clean_form rooted cs \<Longrightarrow> IsAbs (render rooted cs) = rooted"
proof (cases rooted)
  case False
  assume form: "clean_form rooted cs"
  show ?thesis
  proof (cases cs)
    case (Cons c ds)
    then obtain x xs where c: "c = x # xs" "x \<noteq> CHR ''/''"
      using clean_form_elems [OF form, of c] by (cases c) auto
    with Cons have "\<exists>t. JoinStr cs ''/'' = x # t" by (cases ds) auto
    with False Cons c show ?thesis by (auto simp: render_def IsAbs_def HasPrefix_def)
  qed (use False in \<open>simp add: render_def IsAbs_def HasPrefix_def\<close>)
qed (simp add: render_def IsAbs_def HasPrefix_def)

lemma clean_step_empty [simp]: "clean_step rooted st [] = st" "clean_step rooted st ''.'' = st"
  by (simp_all add: clean_step_def)

lemma clean_elems_render:
  assumes "clean_form rooted cs"
  shows "clean_elems (render rooted cs) = cs"
proof -
  have ns: "\<forall>c \<in> set cs. CHR ''/'' \<notin> set c" using clean_form_elems [OF assms] by blast
  have id: "foldl (clean_step rooted) [] cs = rev cs"
    using foldl_clean_id [of rooted "[]" cs] assms by simp
  have j: "cs \<noteq> [] \<Longrightarrow> Split (JoinStr cs ''/'') CHR ''/'' = cs" using ns by (simp add: Split_Join)
  have "rev (foldl (clean_step rooted) [] (Split (render rooted cs) CHR ''/'')) = cs"
    using id j by (cases "cs = []") (auto simp: render_def)
  then show ?thesis unfolding clean_elems_def IsAbs_render [OF assms] .
qed

lemma Clean_render: "clean_form rooted cs \<Longrightarrow> Clean (render rooted cs) = render rooted cs"
  by (simp add: Clean_def IsAbs_render clean_elems_render)

lemma Clean_idem [simp]: "Clean (Clean p) = Clean p"
  unfolding Clean_def [of p] by (rule Clean_render [OF clean_elems_form])

lemma IsAbs_Clean [simp]: "IsAbs (Clean p) = IsAbs p"
  unfolding Clean_def by (rule IsAbs_render [OF clean_elems_form])

section \<open>Joining a directory and a file name\<close>

lemma Split_append_gen: "Split (s @ c # t) c = Split s c @ Split t c"
proof (induction s)
  case (Cons x s)
  obtain y ys where "Split s c = y # ys" by (cases "Split s c") auto
  with Cons show ?case by auto
qed simp

lemma PathJoin_elems:
  assumes "d \<noteq> []" and "proper c"
  shows "PathJoin [d, c] = render (IsAbs d) (clean_elems d @ [c])"
proof -
  have abs: "IsAbs (d @ ''/'' @ c) = IsAbs d"
    using assms(1) by (cases d) (auto simp: IsAbs_def HasPrefix_def)
  have "clean_elems (d @ ''/'' @ c) = clean_elems d @ [c]"
    using assms(2) unfolding clean_elems_def abs
    by (simp add: Split_append_gen Split_no_sep proper_def clean_step_def)
  then show ?thesis
    using assms abs by (simp add: PathJoin_def Clean_def proper_def)
qed

lemma render_snoc:
  "render rooted (cs @ [c]) =
     (if cs = [] then (if rooted then ''/'' else []) else render rooted cs @ ''/'') @ c"
proof -
  have join: "JoinStr (xs @ [y]) sep = (if xs = [] then [] else JoinStr xs sep @ sep) @ y"
    for xs :: "string list" and y sep
    by (induction xs sep rule: JoinStr.induct) auto
  show ?thesis by (simp add: render_def join)
qed

lemma Base_PathJoin:
  assumes "d \<noteq> []" and "proper c"
  shows "Base (PathJoin [d, c]) = c"
proof -
  obtain pre where p: "PathJoin [d, c] = pre @ c" and pre: "pre = [] \<or> last pre = CHR ''/''"
    using PathJoin_elems [OF assms] unfolding render_snoc by auto
  have c: "c \<noteq> []" "CHR ''/'' \<notin> set c" using assms(2) by (auto simp: proper_def)
  then obtain x xs where rc: "rev c = x # xs" "x \<noteq> CHR ''/''" by (cases "rev c") auto
  have "dropWhile (\<lambda>c. c = CHR ''/'') (rev (pre @ c)) = rev (pre @ c)" using rc by simp
  moreover have "takeWhile (\<lambda>c. c \<noteq> CHR ''/'') (rev (pre @ c)) = rev c"
  proof (cases pre rule: rev_exhaust)
    case Nil
    then show ?thesis using c(2) by (auto simp: takeWhile_eq_all_conv)
  next
    case (snoc ys y)
    have "takeWhile (\<lambda>c. c \<noteq> CHR ''/'') (rev c @ CHR ''/'' # rev ys) = rev c"
      using c(2) by (subst takeWhile_append2) auto
    with snoc show ?thesis using pre by simp
  qed
  ultimately show ?thesis unfolding Base_def p Let_def using c(1) by simp
qed

lemma Dir_PathJoin:
  assumes "d \<noteq> []" and "proper c"
  shows "Dir (PathJoin [d, c]) = Clean d"
proof -
  let ?cs = "clean_elems d" and ?r = "IsAbs d"
  have form: "clean_form ?r ?cs" by (rule clean_elems_form)
  have c: "CHR ''/'' \<notin> set c" using assms(2) by (auto simp: proper_def)
  have dw: "rev (dropWhile (\<lambda>c. c \<noteq> CHR ''/'') (rev (pre @ c))) = pre"
    if "pre = [] \<or> last pre = CHR ''/''" for pre
  proof (cases pre rule: rev_exhaust)
    case (snoc ys y)
    have "dropWhile (\<lambda>c. c \<noteq> CHR ''/'') (rev c @ CHR ''/'' # rev ys) = CHR ''/'' # rev ys"
      using c by (subst dropWhile_append2) auto
    with snoc show ?thesis using that by simp
  qed (use c in \<open>auto simp: dropWhile_eq_Nil_conv\<close>)
  define pre where "pre = (if ?cs = [] then (if ?r then ''/'' else []) else render ?r ?cs @ ''/'')"
  have "Dir (PathJoin [d, c]) = Clean pre"
    unfolding Dir_def PathJoin_elems [OF assms] render_snoc pre_def [symmetric]
    by (subst dw) (auto simp: pre_def)
  also have "Clean pre = Clean d"
  proof (cases "?cs = []")
    case True
    then show ?thesis
      by (auto simp: pre_def Clean_def clean_elems_def IsAbs_def HasPrefix_def render_def clean_step_def)
  next
    case False
    then have "render ?r ?cs \<noteq> []"
      using clean_form_elems [OF form] JoinStr_nonempty [of ?cs "''/''"] by (auto simp: render_def)
    then have "IsAbs pre = ?r" "clean_elems pre = clean_elems (render ?r ?cs)"
      using IsAbs_render [OF form] False
      by (auto simp: pre_def clean_elems_def IsAbs_def HasPrefix_def Split_append_gen neq_Nil_conv)
    then show ?thesis using clean_elems_render [OF form] by (simp add: Clean_def)
  qed
  finally show ?thesis .
qed

lemma PathJoin_inj:
  "d \<noteq> [] \<Longrightarrow> proper a \<Longrightarrow> proper b \<Longrightarrow> PathJoin [d, a] = PathJoin [d, b] \<longleftrightarrow> a = b"
  by (metis Base_PathJoin)

lemma PathJoin_abs: "d \<noteq> [] \<Longrightarrow> proper c \<Longrightarrow> IsAbs (PathJoin [d, c]) = IsAbs d"
  unfolding PathJoin_elems by (intro IsAbs_render clean_form_snoc clean_elems_form)

end
