(* ===== verification/Quoting.thy ===== *)
theory Quoting
  imports Wrap_Prelude
begin

text \<open>
  Quoting of command words. The sources build command lines for tmux's own parser
  (\<open>tmuxCommand\<close>) and for the shell (\<open>shellQuote\<close>, \<open>shellWord\<close>) in the same way: a word is
  put in single quotes and an apostrophe ends the quote, is escaped, and opens it again.
  The reference is a lexer for that convention which refuses (\<open>None\<close>) every character
  its parser gives a meaning outside quotes, and the contract \<open>word_quoting\<close> says that
  the lexer reads a quoted word as the word.
\<close>

definition quote_literal :: "string \<Rightarrow> string" where
  "quote_literal a =
     [CHR 0x27] @ ReplaceByte a CHR 0x27 [CHR 0x27, CHR 0x5C, CHR 0x27, CHR 0x27] @ [CHR 0x27]"

section \<open>The reference lexer\<close>

text \<open>
  \<open>special start c rest\<close>: the unquoted character \<open>c\<close>, at the start of a word or not and
  followed by \<open>rest\<close>, has a meaning of its own. The current word is \<open>None\<close> between words.
\<close>

type_synonym special = "bool \<Rightarrow> char \<Rightarrow> string \<Rightarrow> bool"

definition more :: "string option \<Rightarrow> char \<Rightarrow> string" where
  "more cur c = (case cur of None \<Rightarrow> [c] | Some w \<Rightarrow> w @ [c])"

fun lex_bare :: "special \<Rightarrow> string \<Rightarrow> string option \<Rightarrow> string list option"
  and lex_quoted :: "special \<Rightarrow> string \<Rightarrow> string \<Rightarrow> string list option" where
  "lex_bare sp [] cur = Some (case cur of None \<Rightarrow> [] | Some w \<Rightarrow> [w])"
| "lex_bare sp (c # s) cur =
     (if c = CHR '' '' then
        (case cur of None \<Rightarrow> lex_bare sp s None | Some w \<Rightarrow> map_option (Cons w) (lex_bare sp s None))
      else if c = CHR 0x27 then lex_quoted sp s (case cur of None \<Rightarrow> [] | Some w \<Rightarrow> w)
      else if c = CHR 0x5C then
        (case s of [] \<Rightarrow> None | d # s' \<Rightarrow> lex_bare sp s' (Some (more cur d)))
      else if sp (cur = None) c s then None
      else lex_bare sp s (Some (more cur c)))"
| "lex_quoted sp [] w = None"
| "lex_quoted sp (c # s) w =
     (if c = CHR 0x27 then lex_bare sp s (Some w) else lex_quoted sp s (w @ [c]))"

definition lex_words :: "special \<Rightarrow> string \<Rightarrow> string list option" where
  "lex_words sp s = lex_bare sp s None"

section \<open>The contract of a quoting function\<close>

locale word_quoting =
  fixes special :: special
    and quote :: "string \<Rightarrow> string"
  assumes quote_read:
    "s = [] \<or> hd s = CHR '' '' \<Longrightarrow> lex_bare special (quote a @ s) None = lex_bare special s (Some a)"
begin

lemma quote_one: "lex_words special (quote a) = Some [a]"
  using quote_read [of "[]" a] by (simp add: lex_words_def)

text \<open>A command line of quoted words is read as exactly those words.\<close>

lemma quote_all: "lex_words special (JoinStr (map quote args) '' '') = Some args"
proof (induction args rule: induct_list012)
  case 1
  then show ?case by (simp add: lex_words_def)
next
  case (2 a)
  then show ?case by (simp add: quote_one)
next
  case (3 a b args)
  have "lex_words special (JoinStr (map quote (a # b # args)) '' '') =
      lex_bare special (quote a @ '' '' @ JoinStr (map quote (b # args)) '' '') None"
    by (simp add: lex_words_def)
  also have "\<dots> = lex_bare special ('' '' @ JoinStr (map quote (b # args)) '' '') (Some a)"
    by (rule quote_read) simp
  also have "\<dots> = map_option (Cons a) (lex_words special (JoinStr (map quote (b # args)) '' ''))"
    by (simp add: lex_words_def)
  finally show ?case using 3 by simp
qed

text \<open>So no two argument lists give the same command line.\<close>

lemma quote_all_inj:
  "JoinStr (map quote as) '' '' = JoinStr (map quote bs) '' '' \<Longrightarrow> as = bs"
  by (metis quote_all option.inject)

end

section \<open>Single quotes and bare words\<close>

lemma lex_quoted_literal:
  "lex_quoted sp (ReplaceByte a CHR 0x27 [CHR 0x27, CHR 0x5C, CHR 0x27, CHR 0x27] @ CHR 0x27 # s) w =
     lex_bare sp s (Some (w @ a))"
  by (induction a arbitrary: w) (auto simp: more_def)

lemma quote_literal_read: "lex_bare sp (quote_literal a @ s) None = lex_bare sp s (Some a)"
  by (simp add: quote_literal_def lex_quoted_literal)

text \<open>The characters of a word that can stand without quotes.\<close>

fun plain :: "special \<Rightarrow> bool \<Rightarrow> string \<Rightarrow> bool" where
  "plain sp start [] = True"
| "plain sp start (c # a) =
     (c \<notin> {CHR '' '', CHR 0x27, CHR 0x5C} \<and> (\<forall>s. \<not> sp start c (a @ s)) \<and> plain sp False a)"

lemma plain_read_more: "plain sp False a \<Longrightarrow> lex_bare sp (a @ s) (Some w) = lex_bare sp s (Some (w @ a))"
  by (induction a arbitrary: w) (auto simp: more_def)

lemma plain_read:
  assumes "plain sp True a" and "a \<noteq> []"
  shows "lex_bare sp (a @ s) None = lex_bare sp s (Some a)"
proof -
  obtain c a' where a: "a = c # a'" using assms(2) by (cases a) auto
  then have "lex_bare sp (a @ s) None = lex_bare sp (a' @ s) (Some [c])"
    using assms(1) by (auto simp: more_def)
  also have "\<dots> = lex_bare sp s (Some ([c] @ a'))"
    using assms(1) a by (intro plain_read_more) simp
  finally show ?thesis using a by simp
qed

lemma plain_within:
  "(\<And>c s. c \<in> set a \<Longrightarrow> c \<notin> {CHR '' '', CHR 0x27, CHR 0x5C} \<and> \<not> sp False c s) \<Longrightarrow> plain sp False a"
  by (induction a) auto

section \<open>The shell\<close>

text \<open>The characters that have a meaning for a POSIX shell outside quotes.\<close>

definition shell_special :: special where
  "shell_special start c rest \<longleftrightarrow>
     c \<in> set ''|&;<>()$`*?[]{}!=%^'' \<or> c = CHR 0x22 \<or> code c < 32 \<or> (start \<and> c \<in> set ''#~'')"

end
