(* ===== verification/Tmux_Syntax.thy ===== *)
theory Tmux_Syntax
  imports Go_Unicode Go_Paths Quoting
begin

text \<open>
  The text protocol with tmux, of \<open>internal/tmux/tmux.go\<close>: the shapes of tmux
  identities, the quoting of command arguments (\<open>tmuxCommand\<close>), the escaping of literals
  in formats, the guarded commands that act only while an identity still matches, and
  the versions of tmux. A reference lexer states what the quoting has to achieve.
\<close>

section \<open>Endpoints\<close>

record Endpoint =
  ep_SocketName :: string
  ep_SocketPath :: string

definition Endpoint_Args :: "Endpoint \<Rightarrow> gerror + string list" where
  "Endpoint_Args e =
     (if ep_SocketName e = [] \<and> ep_SocketPath e = [] then Inl (Msg ''tmux socket is required'')
      else if ep_SocketName e \<noteq> [] \<and> ep_SocketPath e \<noteq> []
      then Inl (Msg ''exactly one tmux socket selector is required'')
      else if ep_SocketName e \<noteq> [] then Inr [''-L'', ep_SocketName e]
      else if \<not> IsAbs (ep_SocketPath e) then Inl (Msg ''tmux socket path must be absolute'')
      else Inr [''-S'', ep_SocketPath e])"

section \<open>Identities\<close>

definition rune_between :: "char \<Rightarrow> char \<Rightarrow> rune \<Rightarrow> bool" where
  "rune_between lo hi r \<longleftrightarrow> code lo \<le> r \<and> r \<le> code hi"

definition numbered :: "char \<Rightarrow> string \<Rightarrow> bool" where
  "numbered c t \<longleftrightarrow>
     \<not> (length t < 2 \<or> t ! 0 \<noteq> c) \<and> list_all (rune_between CHR ''0'' CHR ''9'') (runes (drop 1 t))"

definition isSessionID :: "string \<Rightarrow> bool" where "isSessionID t = numbered CHR ''$'' t"
definition isWindowID :: "string \<Rightarrow> bool" where "isWindowID t = numbered CHR ''@'' t"
definition isPaneID :: "string \<Rightarrow> bool" where "isPaneID t = numbered CHR ''%'' t"

definition isGeneration :: "string \<Rightarrow> bool" where
  "isGeneration g \<longleftrightarrow> length g = 32 \<and>
     list_all (\<lambda>r. rune_between CHR ''0'' CHR ''9'' r \<or> rune_between CHR ''a'' CHR ''f'' r) (runes g)"

definition SessionKindEntry :: string where "SessionKindEntry = ''entry''"
definition SessionKindScratch :: string where "SessionKindScratch = ''scratch''"
definition SessionKindDiff :: string where "SessionKindDiff = ''diff''"

definition isSessionKind :: "string \<Rightarrow> bool" where
  "isSessionKind k \<longleftrightarrow> k = SessionKindEntry \<or> k = SessionKindScratch \<or> k = SessionKindDiff"

section \<open>Command arguments\<close>

text \<open>The runes an argument may have without quotes; a tilde only after the first rune.\<close>

definition bare_rune :: "rune \<Rightarrow> bool" where
  "bare_rune r \<longleftrightarrow>
     rune_between CHR ''a'' CHR ''z'' r \<or> rune_between CHR ''A'' CHR ''Z'' r \<or>
     rune_between CHR ''0'' CHR ''9'' r \<or> r \<in> set (map code ''@_-./'' @ [0xB7])"

definition isBareTmuxCommandArg :: "string \<Rightarrow> bool" where
  "isBareTmuxCommandArg a \<longleftrightarrow>
     (case runes a of [] \<Rightarrow> False
      | r # rs \<Rightarrow> bare_rune r \<and> list_all (\<lambda>r. bare_rune r \<or> r = code CHR ''~'') rs)"

definition quote_arg :: "string \<Rightarrow> string" where
  "quote_arg a = (if isSessionID a \<or> isBareTmuxCommandArg a then a else quote_literal a)"

definition tmuxCommand :: "string list \<Rightarrow> string" where
  "tmuxCommand args = JoinStr (map quote_arg args) '' ''"

definition escapeFormatLiteral :: "string \<Rightarrow> string" where
  "escapeFormatLiteral v =
     ReplaceByte (ReplaceByte (ReplaceByte v CHR ''#'' ''##'') CHR '','' ''#,'') CHR ''}'' ''#}''"

section \<open>Guarded commands\<close>

definition ServerGenerationOption :: string where "ServerGenerationOption = ''@wrap_server_generation''"
definition InstanceIDOption :: string where "InstanceIDOption = ''@wrap_instance_id''"
definition windowPinOwnerOption :: string where "windowPinOwnerOption = ''@wrap_mirror_pin_owner''"
definition BellOption :: string where "BellOption = ''@wrap_bell''"
definition EntryNameOption :: string where "EntryNameOption = ''@wrap_entry_name''"
definition EntryPathOption :: string where "EntryPathOption = ''@wrap_entry_path''"
definition SessionKindOption :: string where "SessionKindOption = ''@wrap_session_kind''"

definition generationMismatchMessage :: string where
  "generationMismatchMessage = ''wrap-server-generation-mismatch''"
definition sessionIdentityMismatchMessage :: string where
  "sessionIdentityMismatchMessage = ''wrap-session-identity-mismatch''"
definition sessionWindowMismatchMessage :: string where
  "sessionWindowMismatchMessage = ''wrap-session-window-mismatch''"
definition windowPinMismatchMessage :: string where
  "windowPinMismatchMessage = ''wrap-window-pin-mismatch''"

text \<open>The formats \<open>#{==:#{name},value}\<close> and \<open>#{&&:a,b}\<close> the conditions are built from.\<close>

definition fmt_eq :: "string \<Rightarrow> string \<Rightarrow> string" where
  "fmt_eq name v = ''#{==:#{'' @ name @ ''},'' @ v @ ''}''"

definition fmt_and :: "string \<Rightarrow> string \<Rightarrow> string" where
  "fmt_and a b = ''#{&&:'' @ a @ '','' @ b @ ''}''"

definition err_session_id :: "string \<Rightarrow> gerror" where
  "err_session_id v = Msgf ''invalid tmux session id %q'' [v]"
definition err_window_id :: "string \<Rightarrow> gerror" where
  "err_window_id v = Msgf ''invalid tmux window id %q'' [v]"
definition err_generation :: "string \<Rightarrow> gerror" where
  "err_generation v = Msgf ''invalid tmux server generation %q'' [v]"
definition err_pane_id :: "string \<Rightarrow> gerror" where
  "err_pane_id v = Msgf ''invalid tmux pane id %q'' [v]"
definition err_session_kind :: "string \<Rightarrow> gerror" where
  "err_session_kind v = Msgf ''invalid tmux session kind %q'' [v]"
definition err_empty_name :: gerror where
  "err_empty_name = Msg ''tmux session name is empty''"

definition serverCommandIfGenerationArgs :: "string \<Rightarrow> string \<Rightarrow> gerror + string list" where
  "serverCommandIfGenerationArgs generation command =
     (if \<not> isGeneration generation then Inl (err_generation generation)
      else let condition = fmt_eq ServerGenerationOption generation;
               reject = tmuxCommand [''display-message'', ''-p'', generationMismatchMessage]
           in Inr [''if-shell'', ''-F'', condition, command, reject])"

definition sessionCommandIfGenerationArgs :: "string \<Rightarrow> string \<Rightarrow> string \<Rightarrow> gerror + string list" where
  "sessionCommandIfGenerationArgs sid generation command =
     (if \<not> isSessionID sid then Inl (err_session_id sid)
      else serverCommandIfGenerationArgs generation command)"

definition sessionWindowCommandIfGenerationArgs ::
    "string \<Rightarrow> string \<Rightarrow> string \<Rightarrow> string \<Rightarrow> gerror + string list" where
  "sessionWindowCommandIfGenerationArgs sid generation windowID command =
     (if \<not> isSessionID sid then Inl (err_session_id sid)
      else if \<not> isWindowID windowID then Inl (err_window_id windowID)
      else if \<not> isGeneration generation then Inl (err_generation generation)
      else let condition = fmt_and (fmt_eq ServerGenerationOption generation) (fmt_eq ''window_id'' windowID);
               reject = tmuxCommand [''display-message'', ''-p'', generationMismatchMessage]
           in Inr [''if-shell'', ''-F'', ''-t'', sid, condition, command, reject])"

definition attachSessionIfGenerationArgs :: "string \<Rightarrow> string \<Rightarrow> bool \<Rightarrow> gerror + string list" where
  "attachSessionIfGenerationArgs sid generation ignoreSize =
     sessionCommandIfGenerationArgs sid generation
       (tmuxCommand ([''attach-session''] @ (if ignoreSize then [''-f'', ''ignore-size''] else []) @ [''-t'', sid]))"

definition AttachSessionIfGenerationArgs :: "string \<Rightarrow> string \<Rightarrow> gerror + string list" where
  "AttachSessionIfGenerationArgs sid generation = attachSessionIfGenerationArgs sid generation False"

definition AttachSessionIgnoringSizeIfGenerationArgs :: "string \<Rightarrow> string \<Rightarrow> gerror + string list" where
  "AttachSessionIgnoringSizeIfGenerationArgs sid generation = attachSessionIfGenerationArgs sid generation True"

definition AttachWindowIgnoringSizeIfGenerationArgs ::
    "string \<Rightarrow> string \<Rightarrow> string \<Rightarrow> gerror + string list" where
  "AttachWindowIgnoringSizeIfGenerationArgs sid generation windowID =
     sessionWindowCommandIfGenerationArgs sid generation windowID
       (tmuxCommand [''attach-session'', ''-f'', ''ignore-size'', ''-t'', sid])"

definition NewStandaloneSessionIfWindowGenerationArgs ::
    "string \<Rightarrow> string \<Rightarrow> string \<Rightarrow> string \<Rightarrow> gerror + string list" where
  "NewStandaloneSessionIfWindowGenerationArgs sid generation windowID name =
     (if \<not> isSessionID sid then Inl (err_session_id sid)
      else if \<not> isGeneration generation then Inl (err_generation generation)
      else if \<not> isWindowID windowID then Inl (err_window_id windowID)
      else if name = [] then Inl (Msg ''tmux grouped session name is empty'')
      else let condition = fmt_and (fmt_eq ServerGenerationOption generation) (fmt_eq ''window_id'' windowID);
               create = tmuxCommand
                 [''new-session'', ''-d'', ''-s'', name, ''-n'', ''__wrap_placeholder'', ''-P'', ''-F'',
                  ''#{session_id}'' @ [CHR 0x09] @ ''#{window_id}'', ''exec sleep 300''];
               create = create @ '' ; '' @ tmuxCommand [''set-option'', ''-t'', name, ''destroy-unattached'', ''off''];
               reject = tmuxCommand [''display-message'', ''-p'', sessionWindowMismatchMessage]
           in Inr [''if-shell'', ''-F'', ''-t'', sid, condition, create, reject])"

definition LinkWindowReplacingCurrentIfGenerationArgs ::
    "string \<Rightarrow> string \<Rightarrow> string \<Rightarrow> string \<Rightarrow> string \<Rightarrow> gerror + string list" where
  "LinkWindowReplacingCurrentIfGenerationArgs sourceID generation windowID targetID targetWindowID =
     (if \<not> isSessionID targetID then Inl (Msgf ''invalid target tmux session id %q'' [targetID])
      else if \<not> isWindowID targetWindowID then Inl (Msgf ''invalid target tmux window id %q'' [targetWindowID])
      else sessionWindowCommandIfGenerationArgs sourceID generation windowID
             (tmuxCommand [''link-window'', ''-d'', ''-k'', ''-s'', sourceID @ '':'' @ windowID,
                           ''-t'', targetID @ '':'' @ targetWindowID]))"

definition CaptureWindowSizeIfGenerationArgs :: "string \<Rightarrow> string \<Rightarrow> gerror + string list" where
  "CaptureWindowSizeIfGenerationArgs sid generation =
     (let capture =
        tmuxCommand [''display-message'', ''-p'', ''-t'', sid,
          ''#{window_id}'' @ [CHR 0x09] @ ''#{window_width}'' @ [CHR 0x09] @ ''#{window_height}'']
        @ '' ; '' @ tmuxCommand [''show-options'', ''-w'', ''-A'', ''-t'', sid, ''window-size'']
        @ '' ; '' @ tmuxCommand [''show-options'', ''-v'', ''-A'', ''-t'', sid, ''status'']
      in sessionCommandIfGenerationArgs sid generation capture)"

text \<open>
  The temporary size pin of a window: the condition repeats what was captured, the claim
  is \<open>set-option -o\<close>, and hooks withdraw the ownership mark when someone else sets the size.
\<close>

definition window_size_modes :: "string list" where
  "window_size_modes = [''largest'', ''smallest'', ''manual'', ''latest'']"

definition windowPinHookNames :: "32 word \<Rightarrow> string list" where
  "windowPinHookNames index =
     (let suffix = ''['' @ itoa (unat index) @ '']''
      in [''after-set-option'' @ suffix, ''after-resize-window'' @ suffix])"

definition pin_owner_error :: "bool \<Rightarrow> string \<Rightarrow> 32 word \<Rightarrow> gerror option" where
  "pin_owner_error inherited owner hookIndex =
     (if inherited then
        if \<not> isGeneration owner \<or> hookIndex = 0
        then Some (Msg ''invalid inherited tmux window pin owner'') else None
      else if owner \<noteq> [] \<or> hookIndex \<noteq> 0
      then Some (Msg ''local tmux window pin must not claim ownership'') else None)"

definition valid_status :: "string \<Rightarrow> bool" where
  "valid_status status \<longleftrightarrow> status = ''on'' \<or> status = ''off'' \<or>
     (case ParseUint 16 status of None \<Rightarrow> False | Some n \<Rightarrow> n \<le> 5)"

definition pin_condition :: "string \<Rightarrow> string \<Rightarrow> 16 word \<Rightarrow> 16 word \<Rightarrow> string \<Rightarrow> string \<Rightarrow> string" where
  "pin_condition generation windowID columns rows mode status =
     foldl fmt_and (fmt_eq ServerGenerationOption generation)
       [fmt_eq ''window_id'' windowID,
        fmt_eq ''window_width'' (itoa (unat columns)),
        fmt_eq ''window_height'' (itoa (unat rows)),
        fmt_eq ''window-size'' (escapeFormatLiteral mode),
        fmt_eq ''status'' (escapeFormatLiteral status)]"

definition pin_command :: "string \<Rightarrow> 16 word \<Rightarrow> 16 word \<Rightarrow> bool \<Rightarrow> string \<Rightarrow> 32 word \<Rightarrow> string" where
  "pin_command windowID columns rows inherited owner hookIndex =
     (if \<not> inherited then tmuxCommand [''display-message'', ''-p'', []]
      else
        let claim = tmuxCommand [''set-option'', ''-w'', ''-o'', ''-t'', windowID, ''window-size'', ''manual''];
            resize = tmuxCommand [''resize-window'', ''-t'', windowID,
                       ''-x'', itoa (unat columns), ''-y'', itoa (unat rows)];
            mark = tmuxCommand [''set-option'', ''-w'', ''-t'', windowID, windowPinOwnerOption, owner];
            invalidate = tmuxCommand [''set-option'', ''-w'', ''-u'', ''-t'', windowID, windowPinOwnerOption];
            noOp = tmuxCommand [''display-message'', ''-p'', []];
            hookCommand = (\<lambda>hookName.
              if HasPrefix hookName ''after-set-option['' then
                tmuxCommand [''if-shell'', ''-F'', ''#{==:#{hook_argument_0},window-size}'', invalidate, noOp]
              else invalidate);
            watch = map (\<lambda>hookName.
              tmuxCommand [''set-hook'', ''-w'', ''-t'', windowID, hookName, hookCommand hookName])
              (windowPinHookNames hookIndex)
        in claim @ '' ; '' @ mark @ '' ; '' @ resize @ '' ; '' @ JoinStr watch '' ; '')"

definition PinWindowSizeIfGenerationArgs ::
    "string \<Rightarrow> string \<Rightarrow> string \<Rightarrow> 16 word \<Rightarrow> 16 word \<Rightarrow> string \<Rightarrow> bool \<Rightarrow> string \<Rightarrow> string \<Rightarrow> 32 word
     \<Rightarrow> gerror + string list" where
  "PinWindowSizeIfGenerationArgs sid generation windowID columns rows mode inherited status owner hookIndex =
     (if \<not> isSessionID sid then Inl (err_session_id sid)
      else if \<not> isWindowID windowID then Inl (err_window_id windowID)
      else if \<not> isGeneration generation then Inl (err_generation generation)
      else if columns = 0 \<or> rows = 0
      then Inl (Msgf ''invalid captured tmux window geometry %dx%d'' [itoa (unat columns), itoa (unat rows)])
      else if mode \<notin> set window_size_modes
      then Inl (Msgf ''invalid captured tmux window-size mode %q'' [mode])
      else if \<not> valid_status status
      then Inl (Msgf ''invalid captured tmux status value %q'' [status])
      else case pin_owner_error inherited owner hookIndex of
        Some e \<Rightarrow> Inl e
      | None \<Rightarrow>
          Inr [''if-shell'', ''-F'', ''-t'', sid, pin_condition generation windowID columns rows mode status,
               pin_command windowID columns rows inherited owner hookIndex,
               tmuxCommand [''display-message'', ''-p'', windowPinMismatchMessage]])"

definition RestoreWindowSizeIfGenerationArgs ::
    "string \<Rightarrow> string \<Rightarrow> string \<Rightarrow> bool \<Rightarrow> string \<Rightarrow> 32 word \<Rightarrow> gerror + string list" where
  "RestoreWindowSizeIfGenerationArgs generation windowID mode inherited owner hookIndex =
     (if \<not> isWindowID windowID then Inl (err_window_id windowID)
      else if mode \<notin> set window_size_modes
      then Inl (Msgf ''invalid tmux window-size mode %q'' [mode])
      else case pin_owner_error inherited owner hookIndex of
        Some e \<Rightarrow> Inl e
      | None \<Rightarrow>
          serverCommandIfGenerationArgs generation
            (if \<not> inherited then tmuxCommand [''set-option'', ''-w'', ''-t'', windowID, ''window-size'', mode]
             else
               let unwatch = map (\<lambda>hookName.
                     tmuxCommand [''set-hook'', ''-w'', ''-u'', ''-t'', windowID, hookName])
                     (windowPinHookNames hookIndex);
                   unset = tmuxCommand [''set-option'', ''-w'', ''-u'', ''-t'', windowID, ''window-size''];
                   noOp = tmuxCommand [''display-message'', ''-p'', []];
                   ownedCondition = fmt_and ''#{==:#{window-size},manual}'' (fmt_eq windowPinOwnerOption owner);
                   unsetIfOwned = tmuxCommand [''if-shell'', ''-F'', ''-t'', windowID, ownedCondition, unset, noOp];
                   clearOwner = tmuxCommand [''set-option'', ''-w'', ''-u'', ''-t'', windowID, windowPinOwnerOption];
                   clearOwnerIfOwned = tmuxCommand [''if-shell'', ''-F'', ''-t'', windowID,
                     fmt_eq windowPinOwnerOption owner, clearOwner, noOp]
               in JoinStr unwatch '' ; '' @ '' ; '' @ unsetIfOwned @ '' ; '' @ clearOwnerIfOwned))"

definition IsGenerationMismatchOutput :: "string \<Rightarrow> bool" where
  "IsGenerationMismatchOutput out \<longleftrightarrow> TrimSpace out = generationMismatchMessage"

definition IsWindowPinMismatchOutput :: "string \<Rightarrow> bool" where
  "IsWindowPinMismatchOutput out \<longleftrightarrow> TrimSpace out = windowPinMismatchMessage"

section \<open>Errors of the tmux command\<close>

definition isMissingSessionError :: "gerror \<Rightarrow> bool" where
  "isMissingSessionError e \<longleftrightarrow>
     (let msg = ToLower (error_text e) in
        Contains msg (''can'' @ [CHR 0x27] @ ''t find session'') \<or> Contains msg ''no such session''
        \<or> Contains msg ''no server running''
        \<or> Contains msg ''error connecting to'' \<and> Contains msg ''no such file or directory'')"

definition isNoServerError :: "gerror \<Rightarrow> bool" where
  "isNoServerError e \<longleftrightarrow>
     (let msg = ToLower (error_text e) in
        Contains msg ''no server running''
        \<or> Contains msg ''error connecting to'' \<and> Contains msg ''no such file or directory'')"

definition isMissingTargetError :: "gerror \<Rightarrow> bool" where
  "isMissingTargetError e \<longleftrightarrow>
     isMissingSessionError e \<or>
     (let msg = ToLower (error_text e) in
        Contains msg (''can'' @ [CHR 0x27] @ ''t find window'') \<or> Contains msg ''no such window'')"

definition IsMissingTargetError :: "gerror option \<Rightarrow> bool" where
  "IsMissingTargetError err \<longleftrightarrow>
     (case err of None \<Rightarrow> False | Some e \<Rightarrow> errors_is e ErrMissingTarget \<or> isMissingTargetError e)"

definition IsWindowPinConflictError :: "gerror option \<Rightarrow> bool" where
  "IsWindowPinConflictError err \<longleftrightarrow>
     (case err of None \<Rightarrow> False | Some e \<Rightarrow> Contains (ToLower (error_text e)) ''already set: window-size'')"

section \<open>Versions\<close>

text \<open>
  \<open>fmt.Sscanf(version, "%d.%d", ...)\<close>: blanks before a number are skipped (a newline is an
  error), a sign is accepted, at least one digit is needed, the value has to fit 64 bits
  and what follows the second number is not read.
\<close>

definition scan_blank :: "char \<Rightarrow> bool" where
  "scan_blank c \<longleftrightarrow> code c \<in> {0x09, 0x0B, 0x0C, 0x0D, 0x20}"

definition scan_int :: "string \<Rightarrow> (int \<times> string) option" where
  "scan_int s =
     (let s = dropWhile scan_blank s;
          sign = (if HasPrefix s ''-'' \<or> HasPrefix s ''+'' then take 1 s else []);
          ds = takeWhile is_digit (drop (length sign) s)
      in if ds = [] then None
         else map_option (\<lambda>v. (v, drop (length sign + length ds) s)) (Atoi (sign @ ds)))"

definition ParseVersion :: "string \<Rightarrow> (string \<times> int \<times> int) option" where
  "ParseVersion output =
     (let version = TrimPrefix (TrimSpace output) ''tmux '';
          version = TrimPrefix version ''next-''
      in case scan_int version of
           None \<Rightarrow> None
         | Some (major, r) \<Rightarrow>
             if \<not> HasPrefix r ''.'' then None
             else case scan_int (drop 1 r) of
               None \<Rightarrow> None
             | Some (minor, _) \<Rightarrow> Some (version, major, minor))"

definition em_dash :: string where "em_dash = [CHR 0xE2, CHR 0x80, CHR 0x94]"

definition too_old :: "string \<Rightarrow> gerror" where
  "too_old version = Msgf (''tmux %s is too old '' @ em_dash @ '' wrap needs 3.2 or newer'') [version]"

definition CheckVersionOutput :: "string \<Rightarrow> gerror + string" where
  "CheckVersionOutput output =
     (case ParseVersion output of
        None \<Rightarrow> Inr (TrimPrefix (TrimSpace output) ''tmux '')
      | Some (version, major, minor) \<Rightarrow>
          if major > 3 \<or> (major = 3 \<and> minor \<ge> 2) then Inr version else Inl (too_old version))"

definition CheckVersion :: "(string list \<Rightarrow> gerror + string) \<Rightarrow> gerror option" where
  "CheckVersion run =
     (case run [''-V''] of
        Inl _ \<Rightarrow> Some (Msg (''tmux not found '' @ em_dash @
                         '' install it (brew install tmux, apt install tmux) and retry''))
      | Inr out \<Rightarrow>
          (case ParseVersion out of
             None \<Rightarrow> None
           | Some (ver, maj, mnr) \<Rightarrow>
               if maj > 3 \<or> (maj = 3 \<and> mnr \<ge> 2) then None else Some (too_old ver)))"

section \<open>Identities are plain text\<close>

lemma runes_between_ascii:
  "list_all P (runes s) \<Longrightarrow> (\<And>r. P r \<Longrightarrow> r < 0x80) \<Longrightarrow> (\<forall>c \<in> set s. P (code c) \<and> code c < 0x80)"
  using runes_all_ascii [of s] by (auto simp: list_all_iff)

lemma numbered_digits: "numbered c t \<longleftrightarrow> (\<exists>ds. t = c # ds \<and> ds \<noteq> [] \<and> list_all is_digit ds)"
proof
  assume n: "numbered c t"
  then obtain ds where t: "t = c # ds" "ds \<noteq> []"
    by (cases t) (auto simp: numbered_def)
  have "\<forall>x \<in> set ds. rune_between CHR ''0'' CHR ''9'' (code x) \<and> code x < 0x80"
  proof (rule runes_between_ascii)
    show "list_all (rune_between CHR ''0'' CHR ''9'') (runes ds)" using n t by (simp add: numbered_def)
  qed (simp add: rune_between_def)
  then show "\<exists>ds. t = c # ds \<and> ds \<noteq> [] \<and> list_all is_digit ds"
    using t by (auto simp: list_all_iff is_digit_def rune_between_def)
next
  assume "\<exists>ds. t = c # ds \<and> ds \<noteq> [] \<and> list_all is_digit ds"
  then obtain ds where t: "t = c # ds" "ds \<noteq> []" "list_all is_digit ds" by blast
  then have "\<forall>x \<in> set ds. code x < 0x80" by (auto simp: list_all_iff is_digit_def)
  then have "runes ds = map code ds" by (rule runes_of_ascii)
  with t show "numbered c t"
    by (cases ds) (auto simp: numbered_def list_all_iff is_digit_def rune_between_def)
qed

lemma isGeneration_hex:
  "isGeneration g \<Longrightarrow> c \<in> set g \<Longrightarrow>
     48 \<le> code c \<and> code c \<le> 57 \<or> 97 \<le> code c \<and> code c \<le> 102"
  unfolding isGeneration_def
  by (drule conjunct2, drule runes_between_ascii) (auto simp: rune_between_def)

section \<open>Quoting for tmux\<close>

text \<open>
  The characters tmux's command parser gives a meaning outside quotes; a dollar sign
  does not when a digit follows, a tilde only at the start of a word.
\<close>

definition tmux_special :: special where
  "tmux_special start c rest \<longleftrightarrow>
     c \<in> set '';#{}%=&|<>*?[]()`!^,'' \<or> c = CHR 0x22 \<or> code c < 32
     \<or> (c = CHR ''~'' \<and> start)
     \<or> (c = CHR ''$'' \<and> \<not> (rest \<noteq> [] \<and> is_digit (hd rest)))"

lemma tmux_special_ascii: "tmux_special start c s \<Longrightarrow> code c < 0x80"
  by (auto simp: tmux_special_def)

lemma digit_plain: "is_digit c \<Longrightarrow> c \<notin> {CHR '' '', CHR 0x27, CHR 0x5C} \<and> \<not> tmux_special start c s"
  by (auto simp: is_digit_def tmux_special_def)

lemma bare_plain:
  "bare_rune (code c) \<Longrightarrow> c \<notin> {CHR '' '', CHR 0x27, CHR 0x5C} \<and> \<not> tmux_special start c s"
  by (auto simp: bare_rune_def rune_between_def tmux_special_def)

lemma session_id_plain: "isSessionID a \<Longrightarrow> plain tmux_special True a \<and> a \<noteq> []"
proof -
  assume "isSessionID a"
  then obtain ds where a: "a = CHR ''$'' # ds" "ds \<noteq> []" "list_all is_digit ds"
    by (auto simp: isSessionID_def numbered_digits)
  have "\<not> tmux_special True CHR ''$'' (ds @ s)" for s
    using a by (cases ds) (auto simp: tmux_special_def)
  moreover have "plain tmux_special False ds"
    using a(3) by (intro plain_within digit_plain) (auto simp: list_all_iff)
  ultimately show ?thesis using a by auto
qed

lemma bare_arg_plain: "isBareTmuxCommandArg a \<Longrightarrow> plain tmux_special True a \<and> a \<noteq> []"
proof -
  assume bare: "isBareTmuxCommandArg a"
  then obtain r rs where r: "runes a = r # rs" "bare_rune r"
      "list_all (\<lambda>r. bare_rune r \<or> r = code CHR ''~'') rs"
    by (auto simp: isBareTmuxCommandArg_def split: list.splits)
  have ok: "bare_rune (code c) \<or> c = CHR ''~''" if "c \<in> set a" "code c < 0x80" for c
    using runes_ascii [OF that] r unfolding list_all_iff by (metis of_char_eq_iff set_ConsD)
  from r(1) obtain c a' where a: "a = c # a'" by (cases a) auto
  have "bare_rune (code c)" if "code c < 0x80"
    using runes_first [of a] that a r by auto
  then have "\<not> tmux_special True c s" "c \<notin> {CHR '' '', CHR 0x27, CHR 0x5C}" for s
    using bare_plain [of c True s] tmux_special_ascii [of True c s] by (cases "code c < 0x80"; auto)+
  moreover have "plain tmux_special False a'"
  proof (rule plain_within)
    fix d s
    assume "d \<in> set a'"
    then have "code d < 0x80 \<Longrightarrow> bare_rune (code d) \<or> d = CHR ''~''" using ok a by simp
    moreover have "\<not> tmux_special False CHR ''~'' s" by (simp add: tmux_special_def)
    ultimately show "d \<notin> {CHR '' '', CHR 0x27, CHR 0x5C} \<and> \<not> tmux_special False d s"
      using bare_plain [of d False s] tmux_special_ascii [of False d s]
      by (cases "code d < 0x80") auto
  qed
  ultimately show ?thesis using a by auto
qed

interpretation tq: word_quoting tmux_special quote_arg
  by unfold_locales
     (metis quote_arg_def quote_literal_read plain_read session_id_plain bare_arg_plain)


section \<open>Literals in formats\<close>

text \<open>
  How tmux reads one argument of a format such as \<open>#{==:a,b}\<close>: it ends at an unescaped
  comma or closing brace, \<open>##\<close>, \<open>#,\<close> and \<open>#}\<close> stand for the second character, and any
  other use of the hash sign (\<open>#{\<close>, \<open>#(\<close>, \<open>#S\<close>) is not a literal (\<open>None\<close>).
\<close>

fun format_argument :: "string \<Rightarrow> (string \<times> string) option" where
  "format_argument [] = None"
| "format_argument (c # s) =
     (if c = CHR ''#'' then
        (case s of [] \<Rightarrow> None
         | d # s' \<Rightarrow> if d \<in> set ''#,}'' then map_option (apfst (Cons d)) (format_argument s') else None)
      else if c = CHR '','' \<or> c = CHR ''}'' then Some ([], c # s)
      else map_option (apfst (Cons c)) (format_argument s))"

lemma ReplaceByte_append: "ReplaceByte (a @ b) c r = ReplaceByte a c r @ ReplaceByte b c r"
  by (simp add: ReplaceByte_def)

lemma escapeFormatLiteral_Cons:
  "escapeFormatLiteral (c # v) =
     (if c \<in> set ''#,}'' then [CHR ''#'', c] else [c]) @ escapeFormatLiteral v"
  by (auto simp: escapeFormatLiteral_def ReplaceByte_append)

lemma escapeFormatLiteral_Nil [simp]: "escapeFormatLiteral [] = []"
  by (simp add: escapeFormatLiteral_def)

text \<open>C22: An escaped literal in a guard's condition is read by tmux as the literal itself and
  ends where the code ends it, so a session name cannot close the comparison early,
  add an argument or start an expansion of its own.\<close>

theorem escapeFormatLiteral_read:
  "format_argument (escapeFormatLiteral v @ CHR ''}'' # rest) = Some (v, CHR ''}'' # rest)"
  by (induction v) (auto simp: escapeFormatLiteral_Cons)

end
