(* ===== verification/Go_Base64.thy ===== *)
theory Go_Base64
  imports Wrap_Prelude
begin

text \<open>
  \<open>base64.RawURLEncoding\<close> of Go's \<open>encoding/base64\<close>: groups of three bytes as four letters
  of the URL-safe alphabet, no padding. As in Go, decoding ignores the characters
  newline and carriage return anywhere in the input and does not require the unused
  low bits of the last letter to be zero (the encoding is not strict).
\<close>

definition b64_char :: "nat \<Rightarrow> char" where
  "b64_char n = (if n < 26 then char_of (65 + n) else if n < 52 then char_of (97 + (n - 26))
     else if n < 62 then char_of (48 + (n - 52)) else if n = 62 then CHR ''-'' else CHR ''_'')"

definition b64_value :: "char \<Rightarrow> nat option" where
  "b64_value c =
     (let k = code c in
      if 65 \<le> k \<and> k \<le> 90 then Some (k - 65)
      else if 97 \<le> k \<and> k \<le> 122 then Some (k - 97 + 26)
      else if 48 \<le> k \<and> k \<le> 57 then Some (k - 48 + 52)
      else if c = CHR ''-'' then Some 62 else if c = CHR ''_'' then Some 63 else None)"

fun b64_sextets :: "nat list \<Rightarrow> nat list" where
  "b64_sextets [] = []"
| "b64_sextets [a] = [a div 4, a mod 4 * 16]"
| "b64_sextets [a, b] = [a div 4, a mod 4 * 16 + b div 16, b mod 16 * 4]"
| "b64_sextets (a # b # c # s) =
     a div 4 # (a mod 4 * 16 + b div 16) # (b mod 16 * 4 + c div 64) # c mod 64 # b64_sextets s"

fun b64_decode_values :: "nat list \<Rightarrow> nat list option" where
  "b64_decode_values [] = Some []"
| "b64_decode_values [p] = None"
| "b64_decode_values [p, q] = Some [p * 4 + q div 16]"
| "b64_decode_values [p, q, r] = Some [p * 4 + q div 16, q mod 16 * 16 + r div 4]"
| "b64_decode_values (p # q # r # t # s) =
     map_option (\<lambda>rest. (p * 4 + q div 16) # (q mod 16 * 16 + r div 4) # (r mod 4 * 64 + t) # rest)
       (b64_decode_values s)"

definition b64_values :: "string \<Rightarrow> nat list option" where
  "b64_values s = those (map b64_value s)"

definition EncodeToString :: "string \<Rightarrow> string" where
  "EncodeToString s = map b64_char (b64_sextets (map code s))"

definition DecodeString :: "string \<Rightarrow> string option" where
  "DecodeString s =
     (case b64_values (filter (\<lambda>c. c \<noteq> CHR 0x0A \<and> c \<noteq> CHR 0x0D) s) of
        None \<Rightarrow> None
      | Some vs \<Rightarrow> map_option (map char_of) (b64_decode_values vs))"

section \<open>Round trip\<close>

lemma b64_value_char [simp]: "n < 64 \<Longrightarrow> b64_value (b64_char n) = Some n"
  by (auto simp: b64_value_def b64_char_def Let_def)

lemma b64_value_newline: "b64_value CHR 0x0A = None" "b64_value CHR 0x0D = None"
  by (simp_all add: b64_value_def Let_def)

lemma b64_char_no_newline: "n < 64 \<Longrightarrow> b64_char n \<noteq> CHR 0x0A \<and> b64_char n \<noteq> CHR 0x0D"
  by (metis b64_value_char b64_value_newline option.distinct(1))

lemma b64_sextets_bound: "\<forall>b \<in> set bs. b < 256 \<Longrightarrow> \<forall>v \<in> set (b64_sextets bs). v < 64"
  by (induction bs rule: b64_sextets.induct) auto

lemma b64_decode_sextets: "\<forall>b \<in> set bs. b < 256 \<Longrightarrow> b64_decode_values (b64_sextets bs) = Some bs"
  by (induction bs rule: b64_sextets.induct) auto

lemma those_map_Some: "(\<And>x. x \<in> set xs \<Longrightarrow> f x = Some (g x)) \<Longrightarrow> those (map f xs) = Some (map g xs)"
  by (induction xs) auto

lemma b64_values_chars: "\<forall>v \<in> set vs. v < 64 \<Longrightarrow> b64_values (map b64_char vs) = Some vs"
  using those_map_Some [of vs "b64_value \<circ> b64_char" "\<lambda>v. v"] by (simp add: b64_values_def)

lemma DecodeString_EncodeToString [simp, go_strings]: "DecodeString (EncodeToString s) = Some s"
proof -
  let ?vs = "b64_sextets (map code s)"
  have b: "\<forall>b \<in> set (map code s). b < 256" by simp
  have v: "\<forall>v \<in> set ?vs. v < 64" using b64_sextets_bound [OF b] .
  have "filter (\<lambda>c. c \<noteq> CHR 0x0A \<and> c \<noteq> CHR 0x0D) (map b64_char ?vs) = map b64_char ?vs"
    using v by (auto simp: filter_id_conv b64_char_no_newline)
  moreover have "map (char_of \<circ> of_char) s = s" by (induction s) auto
  ultimately show ?thesis
    using b64_values_chars [OF v] b64_decode_sextets [OF b]
    by (simp add: DecodeString_def EncodeToString_def)
qed

lemma b64_sextets_length: "length (b64_sextets bs) = (4 * length bs + 2) div 3"
  by (induction bs rule: b64_sextets.induct) auto

lemma EncodeToString_length: "length (EncodeToString s) = (4 * length s + 2) div 3"
  by (simp add: EncodeToString_def b64_sextets_length)

text \<open>The letters of an encoding are URL-safe.\<close>

definition b64_letter :: "char \<Rightarrow> bool" where
  "b64_letter c \<longleftrightarrow> b64_value c \<noteq> None"

lemma EncodeToString_letters: "c \<in> set (EncodeToString s) \<Longrightarrow> b64_letter c"
  using b64_sextets_bound [of "map code s"] by (auto simp: EncodeToString_def b64_letter_def)

end
