(* ===== verification/Tmux_Server.thy ===== *)
theory Tmux_Server
  imports Tmux_Syntax Go_Base64
begin

text \<open>
  The operations of \<open>tmux.Server\<close> (\<open>internal/tmux/tmux.go\<close>): each builds an argument list,
  runs tmux and reads its output. The command runner (\<open>tmux.Runner\<close>, in production
  \<open>exec.Command\<close>) is the parameter \<open>run\<close>, an effect on a state \<open>'w\<close>: the model says which
  commands an operation sends, in which order, and what it makes of the answers.
\<close>

type_synonym 'w runner = "string list \<Rightarrow> ('w, string) io"

record Server =
  sv_Socket :: string
  sv_SocketPath :: string
  sv_ConfigFile :: string

definition NewServer :: "string \<Rightarrow> Server" where
  "NewServer socket = \<lparr>sv_Socket = socket, sv_SocketPath = [], sv_ConfigFile = []\<rparr>"

definition NewServerPath :: "string \<Rightarrow> Server" where
  "NewServerPath socketPath = \<lparr>sv_Socket = [], sv_SocketPath = socketPath, sv_ConfigFile = []\<rparr>"

definition server_args :: "Server \<Rightarrow> string list \<Rightarrow> gerror + string list" where
  "server_args s args =
     (case Endpoint_Args \<lparr>ep_SocketName = sv_Socket s, ep_SocketPath = sv_SocketPath s\<rparr> of
        Inl e \<Rightarrow> Inl e
      | Inr prefix \<Rightarrow>
          Inr ((if sv_ConfigFile s \<noteq> [] then [''-f'', sv_ConfigFile s] else []) @ prefix @ args))"

definition Server_Run :: "'w runner \<Rightarrow> Server \<Rightarrow> string list \<Rightarrow> ('w, string) io" where
  "Server_Run run s args = bindE (liftE (server_args s args)) run"

text \<open>\<open>RunContext\<close> hands the context to a runner that takes one; here it is part of \<open>run\<close>.\<close>

definition Server_RunContext :: "'w runner \<Rightarrow> Server \<Rightarrow> string list \<Rightarrow> ('w, string) io" where
  "Server_RunContext run s args = bindE (liftE (server_args s args)) run"

definition ignoreOut :: "('w, string) io \<Rightarrow> ('w, unit) io" where
  "ignoreOut m = bindE m (\<lambda>_. returnE ())"

section \<open>Sessions\<close>

definition HasSession :: "'w runner \<Rightarrow> Server \<Rightarrow> string \<Rightarrow> ('w, bool) io" where
  "HasSession run s name =
     tryE (Server_Run run s [''has-session'', ''-t'', ''='' @ name]) (\<lambda>r. case r of
       Inr _ \<Rightarrow> returnE True
     | Inl e \<Rightarrow> if isMissingSessionError e then returnE False else failE e)"

definition NewSession :: "'w runner \<Rightarrow> Server \<Rightarrow> string \<Rightarrow> string \<Rightarrow> string \<Rightarrow> ('w, unit) io" where
  "NewSession run s name dir cmd =
     ignoreOut (Server_Run run s
       ([''new-session'', ''-d'', ''-s'', name, ''-c'', dir] @ (if cmd \<noteq> [] then [cmd] else [])))"

definition NewSessionID :: "'w runner \<Rightarrow> Server \<Rightarrow> string \<Rightarrow> string \<Rightarrow> string \<Rightarrow> ('w, string) io" where
  "NewSessionID run s name dir cmd =
     bindE (Server_Run run s
       ([''new-session'', ''-d'', ''-P'', ''-F'', ''#{session_id}'', ''-s'', name, ''-c'', dir]
        @ (if cmd \<noteq> [] then [cmd] else []))) (\<lambda>sid.
     if sid = [] then failE (Msg ''tmux new-session returned an empty session id'') else returnE sid)"

definition NewSessionIdentity ::
    "'w runner \<Rightarrow> Server \<Rightarrow> string \<Rightarrow> string \<Rightarrow> string \<Rightarrow> string \<Rightarrow> ('w, string \<times> string) io" where
  "NewSessionIdentity run s name dir cmd generation =
     bindE (liftE (serverCommandIfGenerationArgs generation (tmuxCommand
       ([''new-session'', ''-d'', ''-P'', ''-F'', ''#{session_id}'', ''-s'', name, ''-c'', dir]
        @ (if cmd \<noteq> [] then [cmd] else []))))) (\<lambda>args.
     bindE (Server_Run run s args) (\<lambda>out.
     let out = TrimSpace out in
     if out = generationMismatchMessage then failE (Sentinel ErrServerGenerationChanged)
     else if \<not> isSessionID out then failE (Msgf ''tmux new-session returned invalid identity %q'' [out])
     else returnE (out, generation)))"

definition KillSession :: "'w runner \<Rightarrow> Server \<Rightarrow> string \<Rightarrow> ('w, unit) io" where
  "KillSession run s name = ignoreOut (Server_Run run s [''kill-session'', ''-t'', ''='' @ name])"

text \<open>A session that is already gone is a successful kill.\<close>

definition missing_ok :: "('w, unit) io \<Rightarrow> ('w, unit) io" where
  "missing_ok m = tryE m (\<lambda>r. case r of
     Inl e \<Rightarrow> if isMissingSessionError e then returnE () else failE e | Inr _ \<Rightarrow> returnE ())"

definition KillSessionID :: "'w runner \<Rightarrow> Server \<Rightarrow> string \<Rightarrow> ('w, unit) io" where
  "KillSessionID run s sid = missing_ok (ignoreOut (Server_Run run s [''kill-session'', ''-t'', sid]))"

definition EnsureServerGeneration :: "'w runner \<Rightarrow> Server \<Rightarrow> string \<Rightarrow> ('w, string) io" where
  "EnsureServerGeneration run s candidate =
     bindE (guardE (isGeneration candidate) (err_generation candidate)) (\<lambda>_.
     bindE (Server_Run run s [''if-shell'', ''-F'', ''#{==:#{'' @ ServerGenerationOption @ ''},}'',
              ''set-option -g '' @ ServerGenerationOption @ '' '' @ candidate, []]) (\<lambda>_.
     bindE (Server_Run run s [''show-options'', ''-gvq'', ServerGenerationOption]) (\<lambda>generation.
     let generation = TrimSpace generation in
     if \<not> isGeneration generation
     then failE (Msgf ''tmux server returned invalid generation %q'' [generation])
     else returnE generation)))"

definition runSessionCommandIfGeneration ::
    "'w runner \<Rightarrow> Server \<Rightarrow> string \<Rightarrow> string \<Rightarrow> string \<Rightarrow> ('w, unit) io" where
  "runSessionCommandIfGeneration run s sid generation command =
     bindE (liftE (sessionCommandIfGenerationArgs sid generation command)) (\<lambda>args.
     bindE (Server_Run run s args) (\<lambda>out.
     if TrimSpace out = generationMismatchMessage then failE (Sentinel ErrServerGenerationChanged)
     else returnE ()))"

definition KillSessionIDIfGeneration :: "'w runner \<Rightarrow> Server \<Rightarrow> string \<Rightarrow> string \<Rightarrow> ('w, unit) io" where
  "KillSessionIDIfGeneration run s sid generation =
     missing_ok (runSessionCommandIfGeneration run s sid generation
       (tmuxCommand [''kill-session'', ''-t'', sid]))"

text \<open>
  The operations that are guarded by more of a session's identity than its generation
  share their end: one \<open>if-shell\<close> with the condition, the command, and a message for
  the other case.
\<close>

definition run_if_identity ::
    "'w runner \<Rightarrow> Server \<Rightarrow> string \<Rightarrow> string \<Rightarrow> string \<Rightarrow> ('w, unit) io" where
  "run_if_identity run s sid condition command =
     bindE (Server_Run run s [''if-shell'', ''-F'', ''-t'', sid, condition, command,
       tmuxCommand [''display-message'', ''-p'', sessionIdentityMismatchMessage]]) (\<lambda>out.
     if TrimSpace out = sessionIdentityMismatchMessage then failE (Sentinel ErrSessionIdentityChanged)
     else returnE ())"

definition identity_guard :: "string \<Rightarrow> string \<Rightarrow> string \<Rightarrow> gerror + unit" where
  "identity_guard sid generation name =
     (if \<not> isSessionID sid then Inl (err_session_id sid)
      else if \<not> isGeneration generation then Inl (err_generation generation)
      else if name = [] then Inl err_empty_name else Inr ())"

definition KillSessionIDIfGenerationAndName ::
    "'w runner \<Rightarrow> Server \<Rightarrow> string \<Rightarrow> string \<Rightarrow> string \<Rightarrow> ('w, unit) io" where
  "KillSessionIDIfGenerationAndName run s sid generation name =
     bindE (liftE (identity_guard sid generation name)) (\<lambda>_.
     missing_ok (run_if_identity run s sid
       (fmt_and (fmt_eq ServerGenerationOption generation)
                (fmt_eq ''session_name'' (escapeFormatLiteral name)))
       (tmuxCommand [''kill-session'', ''-t'', sid])))"

definition KillSessionIDIfGenerationAndNameAndOption ::
    "'w runner \<Rightarrow> Server \<Rightarrow> string \<Rightarrow> string \<Rightarrow> string \<Rightarrow> string \<Rightarrow> string \<Rightarrow> ('w, unit) io" where
  "KillSessionIDIfGenerationAndNameAndOption run s sid generation name opt v =
     bindE (liftE (identity_guard sid generation name)) (\<lambda>_.
     bindE (guardE (\<not> (opt = [] \<or> \<not> HasPrefix opt ''@''))
       (Msgf ''invalid tmux ownership option %q'' [opt])) (\<lambda>_.
     bindE (guardE (v \<noteq> []) (Msg ''tmux ownership value is empty'')) (\<lambda>_.
     missing_ok (run_if_identity run s sid
       (fmt_and (fmt_eq ServerGenerationOption generation)
          (fmt_and (fmt_eq ''session_name'' (escapeFormatLiteral name))
                   (fmt_eq opt (escapeFormatLiteral v))))
       (tmuxCommand [''kill-session'', ''-t'', sid])))))"

definition kind_condition :: "string \<Rightarrow> string \<Rightarrow> string \<Rightarrow> string" where
  "kind_condition generation name kind =
     fmt_and (fmt_eq ServerGenerationOption generation)
       (fmt_and (fmt_eq ''session_name'' (escapeFormatLiteral name)) (fmt_eq SessionKindOption kind))"

definition KillSessionIDIfGenerationAndNameAndKind ::
    "'w runner \<Rightarrow> Server \<Rightarrow> string \<Rightarrow> string \<Rightarrow> string \<Rightarrow> string \<Rightarrow> ('w, unit) io" where
  "KillSessionIDIfGenerationAndNameAndKind run s sid generation name kind =
     bindE (liftE (identity_guard sid generation name)) (\<lambda>_.
     bindE (guardE (isSessionKind kind) (err_session_kind kind)) (\<lambda>_.
     missing_ok (run_if_identity run s sid (kind_condition generation name kind)
       (tmuxCommand [''kill-session'', ''-t'', sid]))))"

definition RenameSessionIDIfGenerationAndNameAndKind ::
    "'w runner \<Rightarrow> Server \<Rightarrow> string \<Rightarrow> string \<Rightarrow> string \<Rightarrow> string \<Rightarrow> string \<Rightarrow> ('w, unit) io" where
  "RenameSessionIDIfGenerationAndNameAndKind run s sid generation oldName kind newName =
     bindE (guardE (isSessionID sid) (err_session_id sid)) (\<lambda>_.
     bindE (guardE (isGeneration generation) (err_generation generation)) (\<lambda>_.
     bindE (guardE (\<not> (oldName = [] \<or> newName = [])) err_empty_name) (\<lambda>_.
     bindE (guardE (isSessionKind kind) (err_session_kind kind)) (\<lambda>_.
     run_if_identity run s sid (kind_condition generation oldName kind)
       (tmuxCommand [''rename-session'', ''-t'', sid, newName])))))"

definition SetUnmarkedSessionKindIfGenerationAndName ::
    "'w runner \<Rightarrow> Server \<Rightarrow> string \<Rightarrow> string \<Rightarrow> string \<Rightarrow> string \<Rightarrow> ('w, unit) io" where
  "SetUnmarkedSessionKindIfGenerationAndName run s sid generation name kind =
     bindE (liftE (identity_guard sid generation name)) (\<lambda>_.
     bindE (guardE (isSessionKind kind) (err_session_kind kind)) (\<lambda>_.
     run_if_identity run s sid
       (fmt_and (fmt_eq ServerGenerationOption generation)
          (fmt_and (fmt_eq ''session_name'' (escapeFormatLiteral name))
             (fmt_and (fmt_eq SessionKindOption [])
                (fmt_and (fmt_eq EntryNameOption []) (fmt_eq EntryPathOption [])))))
       (tmuxCommand [''set-option'', ''-t'', sid, SessionKindOption, kind])))"

definition SetSessionKindIfGenerationAndNameAndCurrentKind ::
    "'w runner \<Rightarrow> Server \<Rightarrow> string \<Rightarrow> string \<Rightarrow> string \<Rightarrow> string \<Rightarrow> string \<Rightarrow> ('w, unit) io" where
  "SetSessionKindIfGenerationAndNameAndCurrentKind run s sid generation name expectedKind newKind =
     bindE (liftE (identity_guard sid generation name)) (\<lambda>_.
     bindE (guardE (\<not> (expectedKind \<noteq> [] \<and> \<not> isSessionKind expectedKind))
       (Msgf ''invalid expected tmux session kind %q'' [expectedKind])) (\<lambda>_.
     bindE (guardE (isSessionKind newKind) (err_session_kind newKind)) (\<lambda>_.
     run_if_identity run s sid (kind_condition generation name expectedKind)
       (tmuxCommand [''set-option'', ''-t'', sid, SessionKindOption, newKind]))))"

definition SetSessionOptionIfGeneration ::
    "'w runner \<Rightarrow> Server \<Rightarrow> string \<Rightarrow> string \<Rightarrow> string \<Rightarrow> string \<Rightarrow> ('w, unit) io" where
  "SetSessionOptionIfGeneration run s sid generation opt v =
     bindE (guardE (opt \<noteq> []) (Msg ''tmux option name is empty'')) (\<lambda>_.
     runSessionCommandIfGeneration run s sid generation
       (tmuxCommand [''set-option'', ''-t'', sid, opt, v]))"

definition BindPaneMouseIfGeneration ::
    "'w runner \<Rightarrow> Server \<Rightarrow> string \<Rightarrow> string \<Rightarrow> string \<Rightarrow> ('w, unit) io" where
  "BindPaneMouseIfGeneration run s sid generation keyTable =
     bindE (guardE (isSessionID sid) (err_session_id sid)) (\<lambda>_.
     bindE (guardE (isGeneration generation) (err_generation generation)) (\<lambda>_.
     bindE (guardE (keyTable \<noteq> []) (Msg ''tmux key table is empty'')) (\<lambda>_.
     bindE (Server_Run run s [''if-shell'', ''-F'', ''-t'', sid, fmt_eq ServerGenerationOption generation,
       tmuxCommand [''bind-key'', ''-T'', keyTable, ''MouseDown1Pane'', ''select-pane -t = ; send-keys -M''],
       tmuxCommand [''display-message'', ''-p'', generationMismatchMessage]]) (\<lambda>out.
     if TrimSpace out = generationMismatchMessage then failE (Sentinel ErrServerGenerationChanged)
     else returnE ()))))"

definition UnbindPaneMouseIfGeneration :: "'w runner \<Rightarrow> Server \<Rightarrow> string \<Rightarrow> string \<Rightarrow> ('w, unit) io" where
  "UnbindPaneMouseIfGeneration run s generation keyTable =
     bindE (guardE (keyTable \<noteq> []) (Msg ''tmux key table is empty'')) (\<lambda>_.
     bindE (liftE (serverCommandIfGenerationArgs generation
       (tmuxCommand [''unbind-key'', ''-q'', ''-T'', keyTable, ''MouseDown1Pane'']))) (\<lambda>args.
     bindE (Server_Run run s args) (\<lambda>out.
     if TrimSpace out = generationMismatchMessage then failE (Sentinel ErrServerGenerationChanged)
     else returnE ())))"

definition RenameSessionIDIfGeneration ::
    "'w runner \<Rightarrow> Server \<Rightarrow> string \<Rightarrow> string \<Rightarrow> string \<Rightarrow> ('w, unit) io" where
  "RenameSessionIDIfGeneration run s sid generation newName =
     bindE (guardE (newName \<noteq> []) err_empty_name) (\<lambda>_.
     runSessionCommandIfGeneration run s sid generation
       (tmuxCommand [''rename-session'', ''-t'', sid, newName]))"

definition SwitchClientIfGeneration ::
    "'w runner \<Rightarrow> Server \<Rightarrow> string \<Rightarrow> string \<Rightarrow> string \<Rightarrow> ('w, unit) io" where
  "SwitchClientIfGeneration run s clientTTY sid generation =
     bindE (guardE (clientTTY \<noteq> []) (Msg ''tmux client tty is empty'')) (\<lambda>_.
     runSessionCommandIfGeneration run s sid generation
       (tmuxCommand [''switch-client'', ''-c'', clientTTY, ''-t'', sid]))"

definition SelectWindowIDIfGeneration ::
    "'w runner \<Rightarrow> Server \<Rightarrow> string \<Rightarrow> string \<Rightarrow> string \<Rightarrow> ('w, unit) io" where
  "SelectWindowIDIfGeneration run s sid generation windowID =
     bindE (guardE (isWindowID windowID) (err_window_id windowID)) (\<lambda>_.
     runSessionCommandIfGeneration run s sid generation
       (tmuxCommand [''select-window'', ''-t'', sid @ '':'' @ windowID]))"

definition RenameSession :: "'w runner \<Rightarrow> Server \<Rightarrow> string \<Rightarrow> string \<Rightarrow> ('w, unit) io" where
  "RenameSession run s old newName =
     ignoreOut (Server_Run run s [''rename-session'', ''-t'', ''='' @ old, newName])"

definition RenameSessionID :: "'w runner \<Rightarrow> Server \<Rightarrow> string \<Rightarrow> string \<Rightarrow> ('w, unit) io" where
  "RenameSessionID run s sid newName =
     ignoreOut (Server_Run run s [''rename-session'', ''-t'', sid, newName])"

section \<open>Entry markers\<close>

definition entryNameEncodingPrefix :: string where "entryNameEncodingPrefix = ''wrap.entry.v1.''"

definition EncodeEntryName :: "string \<Rightarrow> string" where
  "EncodeEntryName name = entryNameEncodingPrefix @ EncodeToString name"

definition DecodeEntryName :: "string \<Rightarrow> gerror + string" where
  "DecodeEntryName marker =
     (if \<not> HasPrefix marker entryNameEncodingPrefix then Inr marker
      else case DecodeString (TrimPrefix marker entryNameEncodingPrefix) of
        None \<Rightarrow> Inl (Wrapf ''decode entry name marker: '' (Ext ''illegal base64 data''))
      | Some b \<Rightarrow>
          if b = [] \<or> \<not> ValidString b
          then Inl (Msg ''decode entry name marker: value is empty or invalid UTF-8'')
          else Inr b)"

definition EncodeEntryPath :: "string \<Rightarrow> string" where
  "EncodeEntryPath path = EncodeToString path"

definition DecodeEntryPath :: "string \<Rightarrow> gerror + string" where
  "DecodeEntryPath token =
     (case DecodeString token of
        None \<Rightarrow> Inl (Wrapf ''decode entry path marker: '' (Ext ''illegal base64 data''))
      | Some b \<Rightarrow> Inr b)"

section \<open>Queries\<close>

record SessionInfo =
  si_ID :: string
  si_Generation :: string
  si_Name :: string
  si_Activity :: int
  si_Attached :: bool
  si_Bell :: bool
  si_EntryName :: string
  si_EntryPathToken :: string
  si_Kind :: string
  si_Created :: int

definition tab :: char where "tab = CHR 0x09"
definition newline :: char where "newline = CHR 0x0A"

text \<open>The field of a line, empty when an older tmux does not report it.\<close>

definition field_at :: "string list \<Rightarrow> nat \<Rightarrow> string" where
  "field_at f i = (if Suc i \<le> length f then f ! i else [])"

definition parse_session :: "string list \<Rightarrow> gerror + SessionInfo" where
  "parse_session f =
     (case Atoi (f ! 1) of
        None \<Rightarrow> Inl (Msgf ''parse activity for tmux session %q'' [f ! 0])
      | Some act \<Rightarrow>
          let bell = (f ! 3 \<noteq> ''0'' \<or> f ! 4 = ''1'') in
          case (if 6 \<le> length f then DecodeEntryName (f ! 5) else Inr []) of
            Inl e \<Rightarrow> Inl (Wrapf (format_text ''decode entry name for tmux session %q: '' [f ! 0]) e)
          | Inr entryName \<Rightarrow>
              (case (if 10 \<le> length f then Atoi (f ! 9) else Some 0) of
                 None \<Rightarrow> Inl (Msgf ''parse creation time for tmux session %q'' [f ! 0])
               | Some created \<Rightarrow>
                   Inr \<lparr>si_ID = field_at f 7, si_Generation = field_at f 8, si_Name = f ! 0,
                        si_Activity = act, si_Attached = (f ! 2 \<noteq> ''0''), si_Bell = bell,
                        si_EntryName = entryName, si_EntryPathToken = field_at f 6,
                        si_Kind = field_at f 10, si_Created = created\<rparr>))"

fun parse_sessions :: "string list \<Rightarrow> gerror + SessionInfo list" where
  "parse_sessions [] = Inr []"
| "parse_sessions (line # lines) =
     (let f = Split line tab in
      if length f < 5 then parse_sessions lines
      else case parse_session f of
        Inl e \<Rightarrow> Inl e
      | Inr info \<Rightarrow> (case parse_sessions lines of Inl e \<Rightarrow> Inl e | Inr infos \<Rightarrow> Inr (info # infos)))"

definition sessions_format :: string where
  "sessions_format = JoinStr
     [''#{session_name}'', ''#{session_activity}'', ''#{session_attached}'', ''#{window_bell_flag}'',
      ''#{'' @ BellOption @ ''}'', ''#{'' @ EntryNameOption @ ''}'', ''#{'' @ EntryPathOption @ ''}'',
      ''#{session_id}'', ''#{'' @ ServerGenerationOption @ ''}'', ''#{session_created}'',
      ''#{'' @ SessionKindOption @ ''}''] [tab]"

definition with_sentinel :: "sentinel \<Rightarrow> gerror \<Rightarrow> gerror" where
  "with_sentinel s e = Wrapv (Sentinel s) ('': '' @ error_text e)"

definition Sessions :: "'w runner \<Rightarrow> Server \<Rightarrow> ('w, SessionInfo list) io" where
  "Sessions run s =
     tryE (Server_Run run s [''list-sessions'', ''-F'', sessions_format]) (\<lambda>r. case r of
       Inl e \<Rightarrow> failE (if isNoServerError e then with_sentinel ErrNoServer e else e)
     | Inr out \<Rightarrow> liftE (parse_sessions (Split out newline)))"

definition missing_target :: "gerror \<Rightarrow> gerror" where
  "missing_target e = (if isMissingTargetError e then with_sentinel ErrMissingTarget e else e)"

definition SessionCurrentPath :: "'w runner \<Rightarrow> Server \<Rightarrow> string \<Rightarrow> ('w, string) io" where
  "SessionCurrentPath run s sid =
     tryE (Server_Run run s [''display-message'', ''-p'', ''-t'', sid, ''#{pane_current_path}'']) (\<lambda>r.
       case r of Inl e \<Rightarrow> failE (missing_target e) | Inr out \<Rightarrow> returnE out)"

definition sessionValueIfGeneration ::
    "'w runner \<Rightarrow> Server \<Rightarrow> string \<Rightarrow> string \<Rightarrow> string \<Rightarrow> ('w, string) io" where
  "sessionValueIfGeneration run s sid generation command =
     bindE (liftE (sessionCommandIfGenerationArgs sid generation command)) (\<lambda>args.
     tryE (Server_Run run s args) (\<lambda>r. case r of
       Inl e \<Rightarrow> failE (missing_target e)
     | Inr out \<Rightarrow> if out = generationMismatchMessage then failE (Sentinel ErrServerGenerationChanged)
                  else returnE out))"

definition SessionCurrentPathIfGeneration ::
    "'w runner \<Rightarrow> Server \<Rightarrow> string \<Rightarrow> string \<Rightarrow> ('w, string) io" where
  "SessionCurrentPathIfGeneration run s sid generation =
     tryE (sessionValueIfGeneration run s sid generation
       (tmuxCommand [''display-message'', ''-p'', ''-t'', sid, ''#{pane_current_path}''])) (\<lambda>r. case r of
       Inl e \<Rightarrow> failE (Wrapf (format_text ''read current path for session %s: '' [sid]) e)
     | Inr path \<Rightarrow> returnE path)"

definition SwitchClient :: "'w runner \<Rightarrow> Server \<Rightarrow> string \<Rightarrow> string \<Rightarrow> ('w, unit) io" where
  "SwitchClient run s clientTTY target =
     ignoreOut (Server_Run run s [''switch-client'', ''-c'', clientTTY, ''-t'',
       (if isSessionID target then target else ''='' @ target)])"

definition ClientSession :: "'w runner \<Rightarrow> Server \<Rightarrow> string \<Rightarrow> ('w, string) io" where
  "ClientSession run s tty = Server_Run run s [''display-message'', ''-p'', ''-c'', tty, ''#{client_session}'']"

text \<open>\<open>strings.SplitN\<close>: at most \<open>n\<close> pieces, the last one with the rest.\<close>

definition SplitN :: "string \<Rightarrow> char \<Rightarrow> nat \<Rightarrow> string list" where
  "SplitN s c n =
     (let f = Split s c in if length f \<le> n then f else take (n - 1) f @ [JoinStr (drop (n - 1) f) [c]])"

definition ClientSessionIdentity :: "'w runner \<Rightarrow> Server \<Rightarrow> string \<Rightarrow> ('w, string \<times> string) io" where
  "ClientSessionIdentity run s tty =
     bindE (Server_Run run s [''display-message'', ''-p'', ''-c'', tty,
       ''#{client_session}'' @ [tab] @ ''#{session_id}'']) (\<lambda>out.
     let fields = SplitN out tab 2 in
     if length fields \<noteq> 2 \<or> fields ! 0 = [] \<or> fields ! 1 = []
     then failE (Msgf ''tmux returned incomplete client session identity %q'' [out])
     else returnE (fields ! 0, fields ! 1))"

definition ServerPID :: "'w runner \<Rightarrow> Server \<Rightarrow> ('w, string) io" where
  "ServerPID run s =
     tryE (Server_Run run s [''display-message'', ''-p'', ''#{pid}'']) (\<lambda>r. case r of
       Inl e \<Rightarrow> failE (if isNoServerError e then with_sentinel ErrNoServer e else e)
     | Inr pid \<Rightarrow> let pid = TrimSpace pid in
         if pid = [] then failE (Msg ''tmux returned an empty server pid'') else returnE pid)"

definition UnbindKey :: "'w runner \<Rightarrow> Server \<Rightarrow> string \<Rightarrow> ('w, unit) io" where
  "UnbindKey run s key =
     tryE (Server_Run run s [''unbind-key'', ''-n'', key]) (\<lambda>r. case r of
       Inl e \<Rightarrow> if Contains (ToLower (error_text e)) ''unknown key'' then returnE () else failE e
     | Inr _ \<Rightarrow> returnE ())"

definition ClientTTYs :: "'w runner \<Rightarrow> Server \<Rightarrow> string \<Rightarrow> ('w, string list) io" where
  "ClientTTYs run s session =
     bindE (Server_Run run s [''list-clients'', ''-t'', ''='' @ session, ''-F'', ''#{client_tty}'']) (\<lambda>out.
     returnE (filter (\<lambda>line. line \<noteq> []) (map TrimSpace (Split out newline))))"

definition SelectPane :: "'w runner \<Rightarrow> Server \<Rightarrow> string \<Rightarrow> ('w, unit) io" where
  "SelectPane run s target = ignoreOut (Server_Run run s [''select-pane'', ''-t'', target])"

definition PaneHeight :: "'w runner \<Rightarrow> Server \<Rightarrow> string \<Rightarrow> ('w, int) io" where
  "PaneHeight run s target =
     bindE (guardE (isPaneID target) (err_pane_id target)) (\<lambda>_.
     bindE (Server_Run run s [''display-message'', ''-p'', ''-t'', target, ''#{pane_height}'']) (\<lambda>out.
     case Atoi (TrimSpace out) of
       None \<Rightarrow> failE (Msgf ''unexpected tmux pane height %q'' [out])
     | Some height \<Rightarrow>
         if height < 1 \<or> height > 300 then failE (Msgf ''unexpected tmux pane height %q'' [out])
         else returnE height))"

definition ResizePaneHeight :: "'w runner \<Rightarrow> Server \<Rightarrow> string \<Rightarrow> int \<Rightarrow> ('w, unit) io" where
  "ResizePaneHeight run s target height =
     bindE (guardE (isPaneID target) (err_pane_id target)) (\<lambda>_.
     bindE (guardE (\<not> (height < 1 \<or> height > 300)) (Msg ''invalid tmux pane height'')) (\<lambda>_.
     ignoreOut (Server_Run run s [''resize-pane'', ''-t'', target, ''-y'', itoa (nat height)])))"

record PaneInfo =
  pi_ID :: string
  pi_TTY :: string
  pi_Command :: string
  pi_Role :: string

definition parse_pane :: "string \<Rightarrow> PaneInfo option" where
  "parse_pane line =
     (let f = SplitN line tab 4 in
      if length f < 3 then None
      else Some \<lparr>pi_ID = f ! 0, pi_TTY = f ! 1, pi_Command = f ! 2,
                 pi_Role = (if length f = 4 then f ! 3 else [])\<rparr>)"

definition Panes :: "'w runner \<Rightarrow> Server \<Rightarrow> string \<Rightarrow> ('w, PaneInfo list) io" where
  "Panes run s window =
     tryE (Server_Run run s [''list-panes'', ''-t'', window, ''-F'',
       JoinStr [''#{pane_id}'', ''#{pane_tty}'', ''#{pane_start_command}'', ''#{@wrap_role}''] [tab]]) (\<lambda>r.
       case r of Inl e \<Rightarrow> failE (missing_target e)
       | Inr out \<Rightarrow> returnE (List.map_filter parse_pane (Split out newline)))"

definition Server_Set :: "'w runner \<Rightarrow> Server \<Rightarrow> string \<Rightarrow> string \<Rightarrow> ('w, unit) io" where
  "Server_Set run s opt v = ignoreOut (Server_Run run s [''set-option'', ''-g'', opt, v])"

definition SetW :: "'w runner \<Rightarrow> Server \<Rightarrow> string \<Rightarrow> string \<Rightarrow> ('w, unit) io" where
  "SetW run s opt v = ignoreOut (Server_Run run s [''set-option'', ''-wg'', opt, v])"

definition SetSessionOption :: "'w runner \<Rightarrow> Server \<Rightarrow> string \<Rightarrow> string \<Rightarrow> string \<Rightarrow> ('w, unit) io" where
  "SetSessionOption run s target opt v = ignoreOut (Server_Run run s [''set-option'', ''-t'', target, opt, v])"

definition SetHook :: "'w runner \<Rightarrow> Server \<Rightarrow> string \<Rightarrow> string \<Rightarrow> ('w, unit) io" where
  "SetHook run s name cmd = ignoreOut (Server_Run run s [''set-hook'', ''-g'', name, cmd])"

section \<open>Entry markers round trip\<close>

text \<open>An entry name or path written as a marker is read back unchanged: names that are
  valid UTF-8 and not empty, paths of any bytes; and a marker never contains a tab or a
  newline, the separators of the session listing it is carried in.\<close>

theorem entry_marker_roundtrip:
  "(name \<noteq> [] \<and> ValidString name \<longrightarrow> DecodeEntryName (EncodeEntryName name) = Inr name)
   \<and> DecodeEntryPath (EncodeEntryPath path) = Inr path
   \<and> set (EncodeEntryName name @ EncodeEntryPath path) \<inter> {tab, newline} = {}"
proof -
  have "c \<noteq> tab \<and> c \<noteq> newline" if "c \<in> set (EncodeToString s)" for c s
    using EncodeToString_letters [OF that] b64_value_newline
    by (auto simp: b64_letter_def tab_def newline_def b64_value_def Let_def)
  moreover have "set entryNameEncodingPrefix \<inter> {tab, newline} = {}"
    by (simp add: entryNameEncodingPrefix_def tab_def newline_def)
  ultimately have "set (EncodeEntryName name @ EncodeEntryPath path) \<inter> {tab, newline} = {}"
    by (auto simp: EncodeEntryName_def EncodeEntryPath_def)
  then show ?thesis
    by (simp add: DecodeEntryName_def EncodeEntryName_def DecodeEntryPath_def EncodeEntryPath_def)
qed

theorem entry_marker_roundtrip_witness:
  "DecodeEntryName (EncodeEntryName ''web-1'') = Inr ''web-1''"
proof -
  have "ValidString ''web-1''" by (rule ValidString_ascii) simp
  then show ?thesis using entry_marker_roundtrip [of "''web-1''" "[]"] by simp
qed

end
