(* ===== verification/Target_Model.thy ===== *)
theory Target_Model
  imports Tmux_Server
begin

text \<open>
  \<open>internal/target\<close>: the tmux window an instance belongs to (\<open>target.go\<close>), how it is found
  from the environment, the helper session that shows this one window to remote viewers
  (\<open>helper.go\<close>), and the creation of a default session (\<open>create.go\<close>). The environment,
  the hash function and the random source are parameters.
\<close>

section \<open>Targets\<close>

record Target =
  tg_SocketPath :: string
  tg_Generation :: string
  tg_SessionID :: string
  tg_WindowID :: string
  tg_SessionName :: string
  tg_WindowName :: string
  tg_Directory :: string

text \<open>\<open>Key\<close>: the hexadecimal SHA-256 of the identifying fields, separated by NUL.\<close>

definition hex_digit :: "nat \<Rightarrow> char" where
  "hex_digit n = (if n < 10 then char_of (48 + n) else char_of (97 + (n - 10)))"

definition hex_encode :: "string \<Rightarrow> string" where
  "hex_encode s = concat (map (\<lambda>c. [hex_digit (code c div 16), hex_digit (code c mod 16)]) s)"

definition key_text :: "Target \<Rightarrow> string" where
  "key_text t = tg_SocketPath t @ [CHR 0x00] @ tg_Generation t @ [CHR 0x00] @ tg_WindowID t"

definition Target_Key :: "(string \<Rightarrow> string) \<Rightarrow> Target \<Rightarrow> string" where
  "Target_Key sha256 t = hex_encode (sha256 (key_text t))"

section \<open>Reading the environment and tmux's answers\<close>

text \<open>\<open>TMUX\<close> is \<open>socket,pid,client\<close>; the socket path may contain commas.\<close>

definition parseTMUX :: "string \<Rightarrow> gerror + string" where
  "parseTMUX v =
     (if v = [] then Inl (Msg ''not inside tmux'')
      else case LastIndexByte v CHR '','' of
        None \<Rightarrow> Inl (Msg ''malformed TMUX environment'')
      | Some lst \<Rightarrow>
          if lst = 0 \<or> lst = length v - 1 then Inl (Msg ''malformed TMUX environment'')
          else case LastIndexByte (take lst v) CHR '','' of
            None \<Rightarrow> Inl (Msg ''malformed TMUX environment'')
          | Some previous \<Rightarrow>
              if previous = 0 \<or> previous = lst - 1 then Inl (Msg ''malformed TMUX environment'')
              else let socketPath = take previous v in
                if \<not> IsAbs socketPath then Inl (Msg ''TMUX socket path must be absolute'')
                else case Atoi (drop (previous + 1) (take lst v)) of
                  None \<Rightarrow> Inl (Msg ''malformed TMUX server pid'')
                | Some pid \<Rightarrow>
                    if pid \<le> 0 then Inl (Msg ''malformed TMUX server pid'')
                    else case Atoi (drop (lst + 1) v) of
                      None \<Rightarrow> Inl (Msg ''malformed TMUX client id'')
                    | Some client \<Rightarrow>
                        if client < 0 then Inl (Msg ''malformed TMUX client id'')
                        else Inr (Clean socketPath))"

text \<open>A field is its length, a colon and that many bytes.\<close>

fun parse_fields :: "nat \<Rightarrow> string \<Rightarrow> gerror + string list \<times> string" where
  "parse_fields 0 input = Inr ([], input)"
| "parse_fields (Suc n) input =
     (case IndexByte input CHR '':'' of
        None \<Rightarrow> Inl (Msg ''missing length prefix'')
      | Some colon \<Rightarrow>
          if colon = 0 then Inl (Msg ''missing length prefix'')
          else case Atoi (take colon input) of
            None \<Rightarrow> Inl (Msg ''invalid length prefix'')
          | Some len \<Rightarrow>
              if len < 0 then Inl (Msg ''invalid length prefix'')
              else let input = drop (colon + 1) input in
                if len > int (length input) then Inl (Msg ''field shorter than length prefix'')
                else (case parse_fields n (drop (nat len) input) of
                        Inl e \<Rightarrow> Inl e
                      | Inr (fs, rest) \<Rightarrow> Inr (take (nat len) input # fs, rest)))"

definition parseLengthPrefixedFields :: "string \<Rightarrow> nat \<Rightarrow> gerror + string list" where
  "parseLengthPrefixedFields input count =
     (case parse_fields count input of
        Inl e \<Rightarrow> Inl e
      | Inr (fs, rest) \<Rightarrow> if rest \<noteq> [] then Inl (Msg ''trailing data'') else Inr fs)"

definition parseTarget :: "string \<Rightarrow> string \<Rightarrow> string \<Rightarrow> gerror + Target" where
  "parseTarget socketPath generation output =
     (case parseLengthPrefixedFields output 6 of
        Inl e \<Rightarrow> Inl (Wrapf ''tmux target fields: '' e)
      | Inr f \<Rightarrow>
          if \<not> HasPrefix (f ! 0) ''$'' \<or> length (f ! 0) = 1
          then Inl (Msgf ''invalid tmux session id %q'' [f ! 0])
          else if \<not> HasPrefix (f ! 1) ''@'' \<or> length (f ! 1) = 1
          then Inl (Msgf ''invalid tmux window id %q'' [f ! 1])
          else if f ! 2 = [] then Inl (Msg ''tmux session name is empty'')
          else if \<not> IsAbs (f ! 4)
          then Inl (Msgf ''tmux pane directory is not absolute: %q'' [f ! 4])
          else if f ! 5 \<noteq> generation
          then Inl (Msg ''tmux server generation changed during target resolution'')
          else Inr \<lparr>tg_SocketPath = socketPath, tg_Generation = generation, tg_SessionID = f ! 0,
                    tg_WindowID = f ! 1, tg_SessionName = f ! 2, tg_WindowName = f ! 3,
                    tg_Directory = Clean (f ! 4)\<rparr>)"

definition formatField :: "string \<Rightarrow> string" where
  "formatField name = ''#{n:'' @ name @ ''}:#{'' @ name @ ''}''"

definition target_format :: string where
  "target_format = concat (map formatField
     [''session_id'', ''window_id'', ''session_name'', ''window_name'', ''pane_current_path'',
      ServerGenerationOption])"

text \<open>\<open>randomGeneration\<close>: 16 random bytes in hexadecimal; \<open>rand.Read\<close> is the parameter.\<close>

definition randomGeneration :: "gerror + string \<Rightarrow> gerror + string" where
  "randomGeneration rand =
     (case rand of Inl e \<Rightarrow> Inl (Wrapf ''generate tmux server identity: '' e) | Inr bytes \<Rightarrow> Inr (hex_encode bytes))"

definition ResolveCurrent ::
    "(string \<Rightarrow> string) \<Rightarrow> 'w runner \<Rightarrow> gerror + string \<Rightarrow> ('w, Target) io" where
  "ResolveCurrent getenv run rand =
     bindE (liftE (parseTMUX (getenv ''TMUX''))) (\<lambda>socketPath.
     let server = NewServerPath socketPath in
     bindE (liftE (randomGeneration rand)) (\<lambda>candidate.
     bindE (wrapErr ''establish tmux server identity: '' (EnsureServerGeneration run server candidate)) (\<lambda>generation.
     bindE (wrapErr ''resolve current tmux window: ''
              (Server_Run run server [''display-message'', ''-p'', target_format])) (\<lambda>out.
     liftE (parseTarget socketPath generation out)))))"

text \<open>
  \<open>ResolveDefaultShell\<close> inspects the file: \<open>stat\<close> gives an error or whether the file is
  regular and executable by someone.
\<close>

definition ResolveDefaultShell ::
    "(string \<Rightarrow> string) \<Rightarrow> 'w runner \<Rightarrow> (string \<Rightarrow> gerror + bool) \<Rightarrow> ('w, string) io" where
  "ResolveDefaultShell getenv run stat =
     bindE (liftE (parseTMUX (getenv ''TMUX''))) (\<lambda>socketPath.
     bindE (wrapErr ''read tmux default-shell: ''
       (Server_Run run (NewServerPath socketPath) [''show-options'', ''-gv'', ''default-shell''])) (\<lambda>shell.
     let shell = TrimSpace shell in
     bindE (guardE (IsAbs shell) (Msg ''tmux default-shell must be an absolute path'')) (\<lambda>_.
     case stat shell of
       Inl e \<Rightarrow> failE (Wrapf ''inspect tmux default-shell: '' e)
     | Inr executable \<Rightarrow>
         if \<not> executable then failE (Msg ''tmux default-shell is not executable'')
         else returnE (Clean shell))))"

definition ResolveDefaultCommand :: "(string \<Rightarrow> string) \<Rightarrow> 'w runner \<Rightarrow> ('w, string) io" where
  "ResolveDefaultCommand getenv run =
     bindE (liftE (parseTMUX (getenv ''TMUX''))) (\<lambda>socketPath.
     wrapErr ''read tmux default-command: ''
       (Server_Run run (NewServerPath socketPath) [''show-options'', ''-gv'', ''default-command'']))"

definition CreateDefaultSession :: "'w runner \<Rightarrow> string \<Rightarrow> string \<Rightarrow> ('w, unit) io" where
  "CreateDefaultSession run dir bootstrapCommand =
     bindE (guardE (IsAbs dir) (Msg ''tmux session directory must be absolute'')) (\<lambda>_.
     bindE (guardE (\<not> (bootstrapCommand = [] \<or> CHR 0x0D \<in> set bootstrapCommand \<or> CHR 0x0A \<in> set bootstrapCommand))
       (Msg ''tmux bootstrap command must be one nonempty line'')) (\<lambda>_.
     ignoreOut (wrapErr ''create default tmux session: ''
       (run [''new-session'', ''-c'', Clean dir, bootstrapCommand]))))"

section \<open>The helper session\<close>

definition alnum :: "char \<Rightarrow> bool" where
  "alnum c \<longleftrightarrow> 65 \<le> code c \<and> code c \<le> 90 \<or> 97 \<le> code c \<and> code c \<le> 122 \<or> is_digit c"

text \<open>The pattern \<open>^[A-Za-z0-9][A-Za-z0-9_-]{5,63}$\<close> of instance IDs.\<close>

definition idPattern :: "string \<Rightarrow> bool" where
  "idPattern v \<longleftrightarrow>
     (case v of [] \<Rightarrow> False
      | c # cs \<Rightarrow> alnum c \<and> list_all (\<lambda>c. alnum c \<or> c \<in> set ''_-'') cs \<and> 5 \<le> length cs \<and> length cs \<le> 63)"

record Helper =
  h_SessionID :: string
  h_Name :: string
  h_InstanceID :: string
  h_Target :: Target

definition helperName :: "string \<Rightarrow> string" where
  "helperName instanceID = ''__wrap_'' @ take 12 (ToLower instanceID)"

definition helperKeyTable :: "string \<Rightarrow> string" where
  "helperKeyTable instanceID = ''__wrap_keys_'' @ ToLower instanceID"

definition helper_format :: string where
  "helper_format = JoinStr
     [''#{'' @ ServerGenerationOption @ ''}'', ''#{session_id}'', ''#{session_name}'',
      ''#{'' @ InstanceIDOption @ ''}'', ''#{window_id}''] [tab]"

definition Helper_Validate :: "'w runner \<Rightarrow> Helper \<Rightarrow> ('w, unit) io" where
  "Helper_Validate run h =
     (let t = h_Target h; server = NewServerPath (tg_SocketPath t) in
      bindE (wrapErr ''validate Wrap helper: ''
        (Server_RunContext run server [''display-message'', ''-p'', ''-t'', h_SessionID h, helper_format])) (\<lambda>out.
      bindE (guardE (TrimSpace out =
          JoinStr [tg_Generation t, h_SessionID h, h_Name h, h_InstanceID h, tg_WindowID t] [tab])
        (Msg ''wrap helper identity changed'')) (\<lambda>_.
      bindE (wrapErr ''validate source tmux window: ''
        (Server_RunContext run server [''display-message'', ''-p'', ''-t'',
           tg_SessionID t @ '':'' @ tg_WindowID t,
           JoinStr [''#{'' @ ServerGenerationOption @ ''}'', ''#{session_id}'', ''#{window_id}''] [tab]])) (\<lambda>source.
      guardE (TrimSpace source = JoinStr [tg_Generation t, tg_SessionID t, tg_WindowID t] [tab])
        (Msg ''source tmux window identity changed'')))))"

definition identity_gone :: "gerror \<Rightarrow> bool" where
  "identity_gone e \<longleftrightarrow> errors_is e ErrSessionIdentityChanged \<or> errors_is e ErrServerGenerationChanged"

definition Helper_Close :: "'w runner \<Rightarrow> Helper \<Rightarrow> ('w, unit) io" where
  "Helper_Close run h =
     (let t = h_Target h; server = NewServerPath (tg_SocketPath t) in
      tryE (KillSessionIDIfGenerationAndNameAndOption run server (h_SessionID h) (tg_Generation t)
              (h_Name h) InstanceIDOption (h_InstanceID h)) (\<lambda>r.
      case r of
        Inl e \<Rightarrow> if identity_gone e then returnE () else failE e
      | Inr _ \<Rightarrow>
          tryE (UnbindPaneMouseIfGeneration run server (tg_Generation t) (helperKeyTable (h_InstanceID h))) (\<lambda>r.
          case r of
            Inl e \<Rightarrow> if errors_is e ErrServerGenerationChanged \<or> IsMissingTargetError (Some e)
                     then returnE () else failE e
          | Inr _ \<Rightarrow> returnE ())))"

definition closeUnmarked :: "'w runner \<Rightarrow> Helper \<Rightarrow> ('w, unit) io" where
  "closeUnmarked run h =
     (let t = h_Target h; server = NewServerPath (tg_SocketPath t) in
      tryE (KillSessionIDIfGenerationAndName run server (h_SessionID h) (tg_Generation t) (h_Name h)) (\<lambda>r.
      case r of Inl e \<Rightarrow> if identity_gone e then returnE () else failE e | Inr _ \<Rightarrow> returnE ()))"

text \<open>\<open>errors.Join(err, cleanup())\<close>: the cleanup runs and its error is added.\<close>

definition failAfter :: "gerror \<Rightarrow> ('w, unit) io \<Rightarrow> ('w, 'a) io" where
  "failAfter e m = tryE m (\<lambda>r. case r of Inl e' \<Rightarrow> failE (Join [e, e']) | Inr _ \<Rightarrow> failE (Join [e]))"

fun configureHelper :: "'w runner \<Rightarrow> Server \<Rightarrow> Helper \<Rightarrow> (string \<times> string) list \<Rightarrow> ('w, unit) io" where
  "configureHelper run server h [] = returnE ()"
| "configureHelper run server h ((opt, v) # settings) =
     tryE (SetSessionOptionIfGeneration run server (h_SessionID h) (tg_Generation (h_Target h)) opt v) (\<lambda>r.
     case r of
       Inl e \<Rightarrow> failAfter (Wrapf (format_text ''configure Wrap helper %s: '' [opt]) e) (Helper_Close run h)
     | Inr _ \<Rightarrow> configureHelper run server h settings)"

definition helper_settings :: "string \<Rightarrow> (string \<times> string) list" where
  "helper_settings instanceID =
     [(''prefix'', ''None''), (''prefix2'', ''None''), (''status'', ''off''), (''mouse'', ''on''),
      (''key-table'', helperKeyTable instanceID)]"

text \<open>
  The second half of \<open>CreateHelper\<close>, once the session exists: the placeholder window is
  replaced, the session marked and configured. Until it is marked a failure removes it
  with \<open>closeUnmarked\<close>, afterwards with \<open>Close\<close>.
\<close>

definition linkHelper :: "'w runner \<Rightarrow> Helper \<Rightarrow> string \<Rightarrow> ('w, Helper) io" where
  "linkHelper run helper placeholder =
     (let t = h_Target helper; server = NewServerPath (tg_SocketPath t);
          sessionID = h_SessionID helper; instanceID = h_InstanceID helper in
      case LinkWindowReplacingCurrentIfGenerationArgs (tg_SessionID t) (tg_Generation t) (tg_WindowID t)
             sessionID placeholder of
        Inl e \<Rightarrow> failAfter e (closeUnmarked run helper)
      | Inr linkArgs \<Rightarrow>
          tryE (Server_Run run server linkArgs) (\<lambda>r. case r of
            Inl e \<Rightarrow> failAfter (Wrapf ''link captured tmux window: '' e) (closeUnmarked run helper)
          | Inr linkOutput \<Rightarrow>
              if IsGenerationMismatchOutput linkOutput
              then failAfter (Msg ''tmux target changed before helper linking'') (closeUnmarked run helper)
              else
                tryE (SetSessionOptionIfGeneration run server sessionID (tg_Generation t) InstanceIDOption instanceID) (\<lambda>r.
                case r of
                  Inl e \<Rightarrow> failAfter (Wrapf ''mark Wrap helper session: '' e) (closeUnmarked run helper)
                | Inr _ \<Rightarrow>
                    bindE (configureHelper run server helper (helper_settings instanceID)) (\<lambda>_.
                    tryE (BindPaneMouseIfGeneration run server sessionID (tg_Generation t) (helperKeyTable instanceID)) (\<lambda>r.
                    case r of
                      Inl e \<Rightarrow> failAfter (Wrapf ''configure Wrap helper pane clicks: '' e) (Helper_Close run helper)
                    | Inr _ \<Rightarrow> returnE helper)))))"

definition CreateHelper :: "'w runner \<Rightarrow> Target \<Rightarrow> string \<Rightarrow> ('w, Helper) io" where
  "CreateHelper run t instanceID =
     bindE (guardE (idPattern instanceID) (Msgf ''invalid Wrap instance ID %q'' [instanceID])) (\<lambda>_.
     bindE (guardE (\<not> (tg_SocketPath t = [] \<or> tg_Generation t = [] \<or> tg_SessionID t = [] \<or> tg_WindowID t = []))
       (Msg ''complete tmux target identity is required'')) (\<lambda>_.
     let name = helperName instanceID; server = NewServerPath (tg_SocketPath t) in
     bindE (liftE (NewStandaloneSessionIfWindowGenerationArgs (tg_SessionID t) (tg_Generation t)
       (tg_WindowID t) name)) (\<lambda>args.
     bindE (wrapErr ''create Wrap helper session: '' (Server_Run run server args)) (\<lambda>out.
     let created = Split (TrimSpace out) tab in
     bindE (guardE (\<not> (length created \<noteq> 2 \<or> created ! 0 = ''wrap-session-window-mismatch''))
       (Msg ''tmux target changed before helper creation'')) (\<lambda>_.
     linkHelper run
       \<lparr>h_SessionID = created ! 0, h_Name = name, h_InstanceID = instanceID, h_Target = t\<rparr> (created ! 1))))))"

definition CleanupHelper :: "'w runner \<Rightarrow> Target \<Rightarrow> string \<Rightarrow> ('w, unit) io" where
  "CleanupHelper run t instanceID =
     bindE (guardE (idPattern instanceID) (Msgf ''invalid Wrap instance ID %q'' [instanceID])) (\<lambda>_.
     let name = helperName instanceID; server = NewServerPath (tg_SocketPath t) in
     tryE (Server_Run run server [''display-message'', ''-p'', ''-t'', name, helper_format]) (\<lambda>r.
     case r of
       Inl e \<Rightarrow> if IsMissingTargetError (Some e) then returnE ()
                else failE (Wrapf ''inspect stale Wrap helper: '' e)
     | Inr output \<Rightarrow>
         let f = Split (TrimSpace output) tab in
         if length f \<noteq> 5 \<or> f ! 0 \<noteq> tg_Generation t \<or> f ! 2 \<noteq> name \<or> f ! 3 \<noteq> instanceID
            \<or> f ! 4 \<noteq> tg_WindowID t
         then returnE ()
         else Helper_Close run \<lparr>h_SessionID = f ! 1, h_Name = name, h_InstanceID = instanceID, h_Target = t\<rparr>))"

section \<open>Parsing what tmux prints\<close>

text \<open>What tmux prints for one \<open>formatField\<close> with this value.\<close>

definition printed_field :: "string \<Rightarrow> string" where
  "printed_field v = itoa (length v) @ '':'' @ v"

lemma itoa_no_colon: "CHR '':'' \<notin> set (itoa n)"
  using itoa_not_sign [of "CHR '':''" n] by auto

lemma parse_fields_printed:
  "(\<forall>v \<in> set vs. length v < 2 ^ 63) \<Longrightarrow>
     parse_fields (length vs) (concat (map printed_field vs) @ rest) = Inr (vs, rest)"
proof (induction vs)
  case (Cons v vs)
  let ?tail = "concat (map printed_field vs) @ rest"
  have i: "IndexByte (itoa (length v) @ CHR '':'' # v @ ?tail) CHR '':'' = Some (length (itoa (length v)))"
    by (rule IndexByte_append [OF itoa_no_colon])
  have a: "Atoi (itoa (length v)) = Some (int (length v))"
    using Cons.prems by (intro Atoi_itoa) simp
  have input: "concat (map printed_field (v # vs)) @ rest = itoa (length v) @ CHR '':'' # v @ ?tail"
    by (simp add: printed_field_def)
  have "parse_fields (length vs) ?tail = Inr (vs, rest)" using Cons by simp
  then show ?case unfolding input by (simp add: i a Let_def)
qed simp

text \<open>C23: The six length-prefixed fields tmux prints for a window are parsed back exactly,
  whatever bytes the names and the directory contain, and the target holds them.\<close>

theorem parseTarget_reads_printed:
  assumes "\<forall>v \<in> {s, w, sn, wn, dir, g}. length v < 2 ^ 63"
    and "HasPrefix s ''$''" "1 < length s" "HasPrefix w ''@''" "1 < length w" "sn \<noteq> []" "IsAbs dir"
  shows "parseTarget socket g (concat (map printed_field [s, w, sn, wn, dir, g])) =
    Inr \<lparr>tg_SocketPath = socket, tg_Generation = g, tg_SessionID = s, tg_WindowID = w,
         tg_SessionName = sn, tg_WindowName = wn, tg_Directory = Clean dir\<rparr>"
proof -
  let ?vs = "[s, w, sn, wn, dir, g]"
  have "parse_fields (length ?vs) (concat (map printed_field ?vs) @ []) = Inr (?vs, [])"
    using assms(1) by (intro parse_fields_printed) auto
  then have "parseLengthPrefixedFields (concat (map printed_field ?vs)) 6 = Inr ?vs"
    by (simp add: parseLengthPrefixedFields_def numeral_eq_Suc)
  with assms show ?thesis by (simp add: parseTarget_def)
qed

theorem parseTarget_reads_printed_witness:
  "parseTarget ''/tmp/s'' ''g'' (concat (map printed_field [''$1'', ''@2'', ''a:3'', [tab], ''/x//y'', ''g''])) =
    Inr \<lparr>tg_SocketPath = ''/tmp/s'', tg_Generation = ''g'', tg_SessionID = ''$1'', tg_WindowID = ''@2'',
         tg_SessionName = ''a:3'', tg_WindowName = [tab], tg_Directory = Clean ''/x//y''\<rparr>"
  by (rule parseTarget_reads_printed) (auto simp: HasPrefix_def IsAbs_def)

section \<open>Reading TMUX\<close>

lemma LastIndexByte_append: "c \<notin> set t \<Longrightarrow> LastIndexByte (s @ c # t) c = Some (length s)"
  by (simp add: LastIndexByte_def IndexByte_append)

lemma parseTMUX_parts:
  assumes "LastIndexByte v CHR '','' = Some l" "0 < l" "l \<noteq> length v - 1"
    and "LastIndexByte (take l v) CHR '','' = Some k" "0 < k" "k \<noteq> l - 1"
    and "IsAbs (take k v)" "Atoi (drop (k + 1) (take l v)) = Some pid" "0 < pid"
    and "Atoi (drop (l + 1) v) = Some client" "0 \<le> client"
  shows "parseTMUX v = Inr (Clean (take k v))"
  using assms unfolding parseTMUX_def by (auto simp: LastIndexByte_def)

lemma itoa_no_comma: "CHR '','' \<notin> set (itoa n)"
  using itoa_not_sign [of "CHR '',''" n] by auto

text \<open>The value tmux puts in TMUX is decoded to the socket path also when that path
  itself contains commas, for every server pid and client number.\<close>

theorem parseTMUX_reads_environment:
  assumes "IsAbs path" and "0 < pid" and "pid < 2 ^ 63" and "client < 2 ^ 63"
  shows "parseTMUX (path @ '','' @ itoa pid @ '','' @ itoa client) = Inr (Clean path)"
proof -
  let ?v = "path @ '','' @ itoa pid @ '','' @ itoa client"
  let ?last = "length (path @ '','' @ itoa pid)" and ?prev = "length path"
  have path: "path \<noteq> []" using assms(1) by (auto simp: IsAbs_def HasPrefix_def)
  have l: "LastIndexByte ?v CHR '','' = Some ?last"
    using LastIndexByte_append [OF itoa_no_comma, of "path @ '','' @ itoa pid" client] by simp
  have t: "take ?last ?v = path @ '','' @ itoa pid" by simp
  have p: "LastIndexByte (take ?last ?v) CHR '','' = Some ?prev"
    unfolding t using LastIndexByte_append [OF itoa_no_comma, of path pid] by simp
  have pos: "0 < length (itoa n)" for n by simp
  have "parseTMUX ?v = Inr (Clean (take ?prev ?v))"
  proof (rule parseTMUX_parts [OF l _ _ p])
    show "?last \<noteq> length ?v - 1" using pos [of client] by simp
    show "?prev \<noteq> ?last - 1" using pos [of pid] by simp
    show "Atoi (drop (?prev + 1) (take ?last ?v)) = Some (int pid)"
      unfolding t using Atoi_itoa [OF assms(3)] by simp
    show "Atoi (drop (?last + 1) ?v) = Some (int client)" using Atoi_itoa [OF assms(4)] by simp
  qed (use path assms in simp_all)
  then show ?thesis by simp
qed

theorem parseTMUX_reads_environment_witness:
  "parseTMUX (''/tmp/a,b/default'' @ '','' @ itoa 31 @ '','' @ itoa 0) = Inr (Clean ''/tmp/a,b/default'')"
  by (rule parseTMUX_reads_environment) (auto simp: IsAbs_def HasPrefix_def)

section \<open>Target keys\<close>

lemma code_hex_digit: "a < 16 \<Longrightarrow> code (hex_digit a) = (if a < 10 then 48 + a else 87 + a)"
  by (auto simp: hex_digit_def)

lemma hex_digit_inj: "a < 16 \<Longrightarrow> b < 16 \<Longrightarrow> hex_digit a = hex_digit b \<Longrightarrow> a = b"
proof -
  assume a: "a < 16" and b: "b < 16" and "hex_digit a = hex_digit b"
  then have "code (hex_digit a) = code (hex_digit b)" by simp
  then show "a = b" unfolding code_hex_digit [OF a] code_hex_digit [OF b] by (auto split: if_splits)
qed

lemma of_char_of_lt: "code c < 256"
  by (metis mod_less_divisor of_char_mod_256 zero_less_numeral)

lemma hex_encode_generation:
  assumes "length v = 16"
  shows "isGeneration (hex_encode v)"
proof -
  have ls: "length (hex_encode v) = 2 * length v"
    by (induction v) (simp_all add: hex_encode_def)
  have hex: "48 \<le> code c \<and> code c \<le> 57 \<or> 97 \<le> code c \<and> code c \<le> 102" if "c \<in> set (hex_encode v)" for c
  proof -
    from that obtain x where "c = hex_digit (code x div 16) \<or> c = hex_digit (code x mod 16)"
      by (auto simp: hex_encode_def)
    moreover have "code x div 16 < 16" "code x mod 16 < 16"
      using of_char_of_lt [of x] by (auto intro: less_mult_imp_div_less)
    ultimately show ?thesis by (auto simp: code_hex_digit split: if_splits)
  qed
  then have "\<forall>c \<in> set (hex_encode v). code c < 0x80" by fastforce
  then have "runes (hex_encode v) = map code (hex_encode v)" by (rule runes_of_ascii)
  then show ?thesis using ls hex assms by (auto simp: isGeneration_def list_all_iff rune_between_def)
qed

lemma hex_encode_inj: "hex_encode s = hex_encode t \<Longrightarrow> s = t"
proof (induction s arbitrary: t)
  case Nil
  then show ?case by (cases t) (auto simp: hex_encode_def)
next
  case (Cons c s)
  then obtain d t' where t: "t = d # t'" by (cases t) (auto simp: hex_encode_def)
  with Cons.prems have "hex_digit (code c div 16) = hex_digit (code d div 16)"
      "hex_digit (code c mod 16) = hex_digit (code d mod 16)" "hex_encode s = hex_encode t'"
    by (auto simp: hex_encode_def)
  moreover have "code x div 16 < 16" for x :: char
    by (rule less_mult_imp_div_less) simp
  ultimately have "code c div 16 = code d div 16" "code c mod 16 = code d mod 16" "s = t'"
    using Cons.IH hex_digit_inj [of "code c div 16" "code d div 16"]
      hex_digit_inj [of "code c mod 16" "code d mod 16"] by simp_all
  then have "code c = code d" by (metis div_mult_mod_eq)
  with t \<open>s = t'\<close> show ?case by simp
qed

lemma split_first: "c \<notin> set a \<Longrightarrow> c \<notin> set b \<Longrightarrow> a @ c # s = b @ c # t \<Longrightarrow> a = b \<and> s = t"
  by (induction a arbitrary: b) (auto simp: Cons_eq_append_conv append_eq_Cons_conv)

text \<open>Two targets whose socket paths and generations contain no NUL byte have the same key
  exactly when socket, generation and window agree, unless SHA-256 collides on the two.\<close>

theorem Target_Key_identifies:
  assumes "CHR 0x00 \<notin> set (tg_SocketPath a @ tg_Generation a)"
    and "CHR 0x00 \<notin> set (tg_SocketPath b @ tg_Generation b)"
    and "sha256 (key_text a) = sha256 (key_text b) \<Longrightarrow> key_text a = key_text b"
  shows "Target_Key sha256 a = Target_Key sha256 b \<longleftrightarrow>
    tg_SocketPath a = tg_SocketPath b \<and> tg_Generation a = tg_Generation b \<and> tg_WindowID a = tg_WindowID b"
proof
  assume "Target_Key sha256 a = Target_Key sha256 b"
  then have "key_text a = key_text b" using assms(3) hex_encode_inj by (auto simp: Target_Key_def)
  then have "tg_SocketPath a @ CHR 0x00 # tg_Generation a @ CHR 0x00 # tg_WindowID a =
      tg_SocketPath b @ CHR 0x00 # tg_Generation b @ CHR 0x00 # tg_WindowID b"
    by (simp add: key_text_def)
  from split_first [OF _ _ this] have "tg_SocketPath a = tg_SocketPath b"
      and r: "tg_Generation a @ CHR 0x00 # tg_WindowID a = tg_Generation b @ CHR 0x00 # tg_WindowID b"
    using assms by auto
  moreover from split_first [OF _ _ r] have "tg_Generation a = tg_Generation b \<and> tg_WindowID a = tg_WindowID b"
    using assms by auto
  ultimately show "tg_SocketPath a = tg_SocketPath b \<and> tg_Generation a = tg_Generation b \<and> tg_WindowID a = tg_WindowID b"
    by simp
qed (simp add: Target_Key_def key_text_def)

definition sample_target :: Target where
  "sample_target = \<lparr>tg_SocketPath = ''/tmp/tmux-501/default'', tg_Generation = replicate 32 CHR ''a'',
     tg_SessionID = ''$0'', tg_WindowID = ''@1'', tg_SessionName = ''work'', tg_WindowName = ''vim'',
     tg_Directory = ''/home/u/proj''\<rparr>"

theorem Target_Key_identifies_witness:
  "Target_Key (\<lambda>s. s) sample_target \<noteq> Target_Key (\<lambda>s. s) (sample_target\<lparr>tg_WindowID := ''@2''\<rparr>)"
  using Target_Key_identifies [of sample_target "sample_target\<lparr>tg_WindowID := ''@2''\<rparr>" "\<lambda>s. s"]
  by (simp add: sample_target_def)

section \<open>A failed helper creation cleans up\<close>

text \<open>A runner that also records the commands it is given.\<close>

definition logged :: "'w runner \<Rightarrow> ('w \<times> string list list) runner" where
  "logged run args s = (case run args (fst s) of (r, w) \<Rightarrow> (r, (w, snd s @ [args])))"

text \<open>A guarded \<open>kill-session\<close> of exactly this session.\<close>

definition kills :: "string \<Rightarrow> string list \<Rightarrow> bool" where
  "kills sid args \<longleftrightarrow> (\<exists>pre condition reject.
     args = pre @ [''if-shell'', ''-F'', ''-t'', sid, condition,
                   tmuxCommand [''kill-session'', ''-t'', sid], reject])"

definition killed_in :: "string \<Rightarrow> 'w \<times> string list list \<Rightarrow> bool" where
  "killed_in sid s \<longleftrightarrow> (\<exists>a \<in> set (snd s). kills sid a)"

definition ok_helper :: "Helper \<Rightarrow> bool" where
  "ok_helper h \<longleftrightarrow> IsAbs (tg_SocketPath (h_Target h)) \<and> isSessionID (h_SessionID h)
     \<and> isGeneration (tg_Generation (h_Target h)) \<and> h_Name h \<noteq> [] \<and> h_InstanceID h \<noteq> []"

lemma Server_Run_path:
  "Server_Run run (NewServerPath p) args =
     (if p = [] then failE (Msg ''tmux socket is required'')
      else if IsAbs p then run ([''-S'', p] @ args)
      else failE (Msg ''tmux socket path must be absolute''))"
  by (rule ext) (simp add: Server_Run_def NewServerPath_def server_args_def Endpoint_Args_def io_simps)

lemma IsAbs_nonempty: "IsAbs p \<Longrightarrow> p \<noteq> []"
  by (auto simp: IsAbs_def HasPrefix_def)

lemma Server_Run_killed:
  "killed_in sid s \<Longrightarrow> killed_in sid (snd (Server_Run (logged run) sv args s))"
  by (auto simp: Server_Run_def logged_def killed_in_def io_simps split: prod.splits sum.splits)

lemma run_if_identity_kills:
  "IsAbs p \<Longrightarrow> killed_in sid (snd (run_if_identity (logged run) (NewServerPath p) sid cond
     (tmuxCommand [''kill-session'', ''-t'', sid]) s))"
  by (auto simp: run_if_identity_def Server_Run_path logged_def killed_in_def kills_def IsAbs_nonempty io_simps
      split: prod.splits sum.splits)

lemma missing_ok_state: "snd (missing_ok m s) = snd (m s)"
  by (auto simp: missing_ok_def io_simps split: prod.splits sum.splits)

lemma bindE_guard_ok: "bindE (guardE True e) f = f ()"
  by (rule ext) (simp add: io_simps)

lemma closeUnmarked_kills: "ok_helper h \<Longrightarrow> killed_in (h_SessionID h) (snd (closeUnmarked (logged run) h s))"
proof -
  assume ok: "ok_helper h"
  let ?m = "KillSessionIDIfGenerationAndName (logged run) (NewServerPath (tg_SocketPath (h_Target h)))
    (h_SessionID h) (tg_Generation (h_Target h)) (h_Name h)"
  have "snd (closeUnmarked (logged run) h s) = snd (?m s)"
    by (auto simp: closeUnmarked_def Let_def io_simps split: prod.splits sum.splits)
  moreover have "killed_in (h_SessionID h) (snd (?m s))"
    using ok by (simp add: KillSessionIDIfGenerationAndName_def identity_guard_def ok_helper_def
        bindE_apply liftE_apply missing_ok_state run_if_identity_kills)
  ultimately show ?thesis by simp
qed

lemma UnbindPaneMouse_killed:
  "killed_in sid s \<Longrightarrow> killed_in sid (snd (UnbindPaneMouseIfGeneration (logged run) sv g k s))"
  using Server_Run_killed [of sid s run sv]
  by (auto simp: UnbindPaneMouseIfGeneration_def io_simps split: prod.splits sum.splits)
     (metis snd_conv)+

lemma Helper_Close_kills: "ok_helper h \<Longrightarrow> killed_in (h_SessionID h) (snd (Helper_Close (logged run) h s))"
proof -
  assume ok: "ok_helper h"
  let ?m = "KillSessionIDIfGenerationAndNameAndOption (logged run) (NewServerPath (tg_SocketPath (h_Target h)))
    (h_SessionID h) (tg_Generation (h_Target h)) (h_Name h) InstanceIDOption (h_InstanceID h)"
  have k: "killed_in (h_SessionID h) (snd (?m s))"
    using ok by (simp add: KillSessionIDIfGenerationAndNameAndOption_def identity_guard_def ok_helper_def
        bindE_apply liftE_apply guardE_apply InstanceIDOption_def HasPrefix_def missing_ok_state
        run_if_identity_kills)
  obtain r s1 where m: "?m s = (r, s1)" by (rule prod.exhaust)
  show ?thesis
    using k UnbindPaneMouse_killed [of "h_SessionID h" s1 run]
    by (auto simp: Helper_Close_def Let_def m io_simps split: sum.splits prod.splits) (metis snd_conv)+
qed

lemma failAfter_error: "\<exists>e'. fst (failAfter e m s) = Inl e'" "snd (failAfter e m s) = snd (m s)"
  by (auto simp: failAfter_def io_simps split: prod.splits sum.splits)

lemma failAfter_kills:
  assumes "ok_helper h"
  shows "failAfter e (closeUnmarked (logged run) h) s = (r, s') \<Longrightarrow> killed_in (h_SessionID h) s'"
    and "failAfter e (Helper_Close (logged run) h) s = (r, s') \<Longrightarrow> killed_in (h_SessionID h) s'"
  using closeUnmarked_kills [OF assms] Helper_Close_kills [OF assms] failAfter_error(2)
  by (metis snd_conv)+

lemma configureHelper_kills:
  assumes "ok_helper h" and "configureHelper (logged run) sv h settings s = (Inl e, s')"
  shows "killed_in (h_SessionID h) s'"
  using assms(2)
proof (induction settings arbitrary: s)
  case Nil
  then show ?case by (simp add: io_simps)
next
  case (Cons x settings)
  obtain opt v where x: "x = (opt, v)" by force
  obtain r s1 where m: "SetSessionOptionIfGeneration (logged run) sv (h_SessionID h)
      (tg_Generation (h_Target h)) opt v s = (r, s1)" by (rule prod.exhaust)
  show ?case
  proof (cases r)
    case (Inl e1)
    with Cons.prems x m have "\<exists>e0. failAfter e0 (Helper_Close (logged run) h) s1 = (Inl e :: gerror + unit, s')"
      by (auto simp: io_simps)
    then show ?thesis using failAfter_kills(2) [OF assms(1)] by blast
  next
    case (Inr u)
    with Cons.prems x m have "configureHelper (logged run) sv h settings s1 = (Inl e, s')"
      by (simp add: io_simps)
    then show ?thesis by (rule Cons.IH)
  qed
qed

lemma linkHelper_kills:
  assumes h: "IsAbs (tg_SocketPath (h_Target h))" "isGeneration (tg_Generation (h_Target h))"
      "h_Name h \<noteq> []" "h_InstanceID h \<noteq> []"
    and fail: "linkHelper (logged run) h placeholder s = (Inl e, s')"
  shows "s' = s \<or> killed_in (h_SessionID h) s'"
proof (cases "isSessionID (h_SessionID h)")
  case False
  then have "snd (closeUnmarked (logged run) h s) = s"
    by (simp add: closeUnmarked_def Let_def KillSessionIDIfGenerationAndName_def identity_guard_def io_simps
        split: sum.splits)
  moreover have "\<exists>e0. failAfter e0 (closeUnmarked (logged run) h) s = (Inl e :: gerror + Helper, s')"
    using False fail by (auto simp: linkHelper_def Let_def LinkWindowReplacingCurrentIfGenerationArgs_def)
  ultimately show ?thesis using failAfter_error(2) by (metis snd_conv)
next
  case True
  with h have ok: "ok_helper h" by (simp add: ok_helper_def)
  note kill = failAfter_kills [OF ok] configureHelper_kills [OF ok]
  show ?thesis using fail
    by (auto simp: linkHelper_def Let_def io_simps split: sum.splits prod.splits if_splits intro: kill)
qed

text \<open>The session a successful creation command reports.\<close>

definition reported_session :: "string \<Rightarrow> string" where
  "reported_session out = Split (TrimSpace out) tab ! 0"

lemma idPattern_nonempty: "idPattern v \<Longrightarrow> v \<noteq> []"
  by (auto simp: idPattern_def)

definition createHelper_args :: "Target \<Rightarrow> string \<Rightarrow> gerror + string list" where
  "createHelper_args t instanceID =
     NewStandaloneSessionIfWindowGenerationArgs (tg_SessionID t) (tg_Generation t) (tg_WindowID t)
       (helperName instanceID)"

lemma createHelper_args_generation: "createHelper_args t i = Inr args \<Longrightarrow> isGeneration (tg_Generation t)"
  by (auto simp: createHelper_args_def NewStandaloneSessionIfWindowGenerationArgs_def split: if_splits)

text \<open>The stages of a creation that sent a second command.\<close>

lemma CreateHelper_stages:
  assumes "CreateHelper run t instanceID s0 = (res, s)"
  shows "(\<exists>e. res = Inl e \<and> s = s0) \<or>
    (\<exists>args r s1. idPattern instanceID \<and> createHelper_args t instanceID = Inr args
       \<and> Server_Run run (NewServerPath (tg_SocketPath t)) args s0 = (r, s1)
       \<and> (s = s1 \<or> (\<exists>out. r = Inr out \<and> linkHelper run
            \<lparr>h_SessionID = reported_session out, h_Name = helperName instanceID,
             h_InstanceID = instanceID, h_Target = t\<rparr> (Split (TrimSpace out) tab ! 1) s1 = (res, s))))"
  using assms
  by (auto simp: CreateHelper_def createHelper_args_def reported_session_def wrapErr_def Let_def io_simps
      split: if_splits sum.splits prod.splits)


text \<open>A tmux that creates session \<open>$3\<close> and then refuses every command.\<close>

definition refusing_run :: "nat runner" where
  "refusing_run args n = (if n = 0 then (Inr (''$3'' @ [tab] @ ''@9''), Suc n) else (Inl (Ext ''server exited''), Suc n))"

lemma refusing_run_facts:
  "TrimSpace (''$3'' @ [tab] @ ''@9'') = ''$3'' @ [tab] @ ''@9''"
  "Split (''$3'' @ [tab] @ ''@9'') tab = [''$3'', ''@9'']"
  "isSessionID ''$0''" "isSessionID ''$3''" "isWindowID ''@1''" "isWindowID ''@9''"
  "isGeneration (replicate 32 CHR ''a'')" "idPattern ''abcdef01''" "IsAbs ''/tmp/tmux-501/default''"
  by (rule TrimSpace_ascii)
     (simp_all add: space_runes_def tab_def isSessionID_def isWindowID_def numbered_digits is_digit_def
        isGeneration_def runes_of_ascii rune_between_def list_all_iff idPattern_def alnum_def
        IsAbs_def HasPrefix_def)


end
