(* ===== verification/Instance_Names.thy ===== *)
theory Instance_Names
  imports Target_Model
begin

text \<open>
  Instance records (\<open>internal/instance/model.go\<close>) and the choice of instance names
  (\<open>internal/instance/name.go\<close>). Go's table of printable runes beyond ASCII is the
  parameter \<open>up\<close>; times are numbers, the zero time is 0.
\<close>

section \<open>Records\<close>

definition RecordVersion :: int where "RecordVersion = 1"

record Record =
  r_Version :: int
  r_ID :: string
  r_Name :: string
  r_PID :: int
  r_ControlSocket :: string
  r_StartedAt :: nat
  r_Directory :: string
  r_Target :: Target

definition unsafe_rune :: "(rune \<Rightarrow> bool) \<Rightarrow> rune \<Rightarrow> bool" where
  "unsafe_rune up c \<longleftrightarrow> c = code CHR ''/'' \<or> c = code CHR 0x5C \<or> \<not> IsPrint up c"

definition ValidateName :: "(rune \<Rightarrow> bool) \<Rightarrow> string \<Rightarrow> gerror option" where
  "ValidateName up v =
     (if v = [] \<or> TrimSpace v \<noteq> v then Some (Msg ''name must not be empty or have outer whitespace'')
      else if \<not> ValidString v then Some (Msg ''name must be valid UTF-8'')
      else if RuneCountInString v > 64 then Some (Msg ''name must be 64 characters or fewer'')
      else if list_ex (unsafe_rune up) (runes v) then Some (Msg ''name contains unsafe character'')
      else None)"

definition Record_Validate :: "(rune \<Rightarrow> bool) \<Rightarrow> Record \<Rightarrow> gerror option" where
  "Record_Validate up r =
     (if r_Version r \<noteq> RecordVersion then Some (Msg ''unsupported instance record version'')
      else if \<not> idPattern (r_ID r) then Some (Msgf ''invalid instance ID %q'' [r_ID r])
      else case ValidateName up (r_Name r) of
        Some e \<Rightarrow> Some (Wrapf ''invalid instance name: '' e)
      | None \<Rightarrow>
          if r_PID r \<le> 0 then Some (Msg ''instance PID must be positive'')
          else if \<not> IsAbs (r_ControlSocket r) then Some (Msg ''instance control socket must be absolute'')
          else if r_StartedAt r = 0 then Some (Msg ''instance start time is required'')
          else if \<not> IsAbs (r_Directory r) then Some (Msg ''instance directory must be absolute'')
          else if \<not> IsAbs (tg_SocketPath (r_Target r)) \<or> tg_Generation (r_Target r) = []
               \<or> tg_SessionID (r_Target r) = [] \<or> tg_WindowID (r_Target r) = []
          then Some (Msg ''complete tmux target identity is required'')
          else None)"

section \<open>Choosing a name\<close>

text \<open>
  The loop of \<open>derivedName\<close>: a rune is copied or replaced by an underscore, and the loop
  stops when the builder holds 48 runes.
\<close>

fun build_name :: "(rune \<Rightarrow> bool) \<Rightarrow> string \<Rightarrow> rune list \<Rightarrow> string" where
  "build_name up b [] = b"
| "build_name up b (c # cs) =
     (let b = b @ EncodeRune (if unsafe_rune up c then code CHR ''_'' else c)
      in if RuneCountInString b = 48 then b else build_name up b cs)"

definition derivedName :: "(rune \<Rightarrow> bool) \<Rightarrow> Target \<Rightarrow> string" where
  "derivedName up t =
     (let v = Base (Clean (tg_Directory t));
          v = (if v = ''.'' \<or> v = ''/'' \<or> v = [] then tg_WindowName t else v);
          v = TrimSpace (build_name up [] (runes v))
      in if v = [] then ''wrap'' else v)"

definition suffixed :: "string \<Rightarrow> nat \<Rightarrow> string" where
  "suffixed base suffix = base @ ''-'' @ itoa suffix"

text \<open>
  The loop over suffixes has no bound in the code; one try more than there are used
  names is enough, as \<open>ChooseName_derived_valid\<close> below shows.
\<close>

definition ChooseName :: "(rune \<Rightarrow> bool) \<Rightarrow> string \<Rightarrow> Target \<Rightarrow> Record list \<Rightarrow> gerror + string" where
  "ChooseName up requested t records =
     (let used = ''all'' # map r_Name records in
      if requested \<noteq> [] then
        case ValidateName up requested of
          Some e \<Rightarrow> Inl e
        | None \<Rightarrow>
            if requested = ''all'' then Inl (Msg ''name \"all\" is reserved for wrap kill all'')
            else if requested \<in> set used then Inl (Msgf ''wrap name %q is already in use'' [requested])
            else Inr requested
      else
        let base = derivedName up t in
        if base \<notin> set used then Inr base
        else case first_unused (Suc (length used)) (suffixed base) used 2 of
          Some suffix \<Rightarrow> Inr (suffixed base suffix)
        | None \<Rightarrow> Inl (Msg ''unreachable''))"

section \<open>Derived names are valid\<close>

text \<open>Names that are built from safe runes, with their rune count.\<close>

definition safe_runes :: "(rune \<Rightarrow> bool) \<Rightarrow> rune list \<Rightarrow> bool" where
  "safe_runes up rs \<longleftrightarrow> (\<forall>r \<in> set rs. valid_rune r \<and> \<not> unsafe_rune up r)"

lemma safe_runes_append [simp]: "safe_runes up (xs @ ys) \<longleftrightarrow> safe_runes up xs \<and> safe_runes up ys"
  by (auto simp: safe_runes_def)

lemma safe_ascii: "\<forall>c \<in> set s. alnum c \<or> c \<in> set ''_-'' \<Longrightarrow> safe_runes up (map code s) \<and> encode_runes (map code s) = s"
  by (intro conjI encode_ascii)
     (auto simp: safe_runes_def alnum_def is_digit_def valid_rune_def unsafe_rune_def IsPrint_def)

lemma ValidateName_safe:
  assumes "safe_runes up rs" and "v = encode_runes rs" and "v \<noteq> []" and "TrimSpace v = v"
    and "length rs \<le> 64"
  shows "ValidateName up v = None"
proof -
  have "\<forall>r \<in> set rs. valid_rune r" using assms(1) by (simp add: safe_runes_def)
  from runes_encode_runes [OF this] have "runes v = rs" "RuneCountInString v = length rs" "ValidString v"
    using assms(2) by simp_all
  with assms show ?thesis by (auto simp: ValidateName_def list_ex_iff safe_runes_def)
qed

lemma build_name_safe:
  assumes "b = encode_runes bs" "safe_runes up bs" "length bs < 48" "\<forall>c \<in> set cs. valid_rune c"
  shows "\<exists>rs. build_name up b cs = encode_runes rs \<and> safe_runes up rs \<and> length rs \<le> 48"
  using assms
proof (induction cs arbitrary: b bs)
  case (Cons c cs)
  define d where "d = (if unsafe_rune up c then code CHR ''_'' else c)"
  let ?bs = "bs @ [d]"
  have d: "valid_rune d \<and> \<not> unsafe_rune up d"
    using Cons.prems by (auto simp: d_def valid_rune_def unsafe_rune_def IsPrint_def)
  then have s: "safe_runes up ?bs" using Cons.prems by (simp add: safe_runes_def)
  have e: "b @ EncodeRune d = encode_runes ?bs"
    using Cons.prems by (simp add: encode_runes_def)
  have n: "RuneCountInString (encode_runes ?bs) = length ?bs"
    using s by (intro runes_encode_runes(2)) (simp add: safe_runes_def)
  have eq: "build_name up b (c # cs) =
      (if length ?bs = 48 then encode_runes ?bs else build_name up (encode_runes ?bs) cs)"
    by (simp add: d_def [symmetric] Let_def e n)
  show ?case
  proof (cases "length ?bs = 48")
    case False
    then have "length ?bs < 48" using Cons.prems(3) by simp
    from Cons.IH [OF refl s this] Cons.prems(4) False show ?thesis unfolding eq by simp
  qed (use eq s in auto)
qed auto

lemma derivedName_safe:
  "\<exists>rs. derivedName up t = encode_runes rs \<and> safe_runes up rs \<and> rs \<noteq> [] \<and> length rs \<le> 48
     \<and> TrimSpace (derivedName up t) = derivedName up t"
proof -
  define v0 where "v0 = (let v = Base (Clean (tg_Directory t)) in
    if v = ''.'' \<or> v = ''/'' \<or> v = [] then tg_WindowName t else v)"
  obtain rs where rs: "build_name up [] (runes v0) = encode_runes rs" "safe_runes up rs" "length rs \<le> 48"
    using build_name_safe [of "[]" "[]" up "runes v0"] runes_valid [of v0]
    by (auto simp: encode_runes_def safe_runes_def)
  then obtain xs rs' ys where t: "rs = xs @ rs' @ ys" "TrimSpace (encode_runes rs) = encode_runes rs'"
    using TrimSpace_encode [of rs] by (auto simp: safe_runes_def)
  have dn: "derivedName up t = (if encode_runes rs' = [] then ''wrap'' else encode_runes rs')"
    by (simp add: derivedName_def Let_def v0_def [unfolded Let_def, symmetric] rs(1) t(2))
  show ?thesis
  proof (cases "encode_runes rs' = []")
    case True
    have w: "safe_runes up (map code ''wrap'') \<and> encode_runes (map code ''wrap'') = ''wrap''"
      by (rule safe_ascii) (simp add: alnum_def)
    have "TrimSpace ''wrap'' = ''wrap''" by (rule TrimSpace_ascii) (simp_all add: space_runes_def)
    with w True dn show ?thesis by (intro exI [of _ "map code ''wrap''"]) auto
  next
    case False
    then have "rs' \<noteq> []" by (auto simp: encode_runes_def)
    moreover have "TrimSpace (encode_runes rs') = encode_runes rs'" using t(2) TrimSpace_idem by metis
    ultimately show ?thesis using False dn rs t by (intro exI [of _ rs']) auto
  qed
qed

lemma suffixed_safe:
  assumes "base = encode_runes rs" "safe_runes up rs" "rs \<noteq> []" "TrimSpace base = base"
  shows "\<exists>qs. suffixed base n = encode_runes qs \<and> safe_runes up qs
    \<and> length qs = length rs + 1 + length (itoa n) \<and> TrimSpace (suffixed base n) = suffixed base n"
proof -
  let ?suf = "''-'' @ itoa n"
  have s: "safe_runes up (map code ?suf) \<and> encode_runes (map code ?suf) = ?suf"
    using itoa_not_sign [of _ n] by (intro safe_ascii) (auto simp: alnum_def is_digit_def)
  then have suf: "suffixed base n = encode_runes (rs @ map code ?suf)"
    by (simp add: suffixed_def assms(1) encode_runes_append)
  have "leading_space base = None" "base \<noteq> []"
    using TrimSpace_ends [of base] assms by (auto simp: encode_runes_def neq_Nil_conv)
  then have lead: "leading_space (suffixed base n) = None"
    using leading_space_append [of base rs "map code ?suf"] s assms
    by (simp add: suffixed_def safe_runes_def)
  obtain ds d where d: "itoa n = ds @ [d]" by (metis itoa_nonempty rev_exhaust)
  then have "48 \<le> code d \<and> code d \<le> 57" using itoa_not_sign [of d n] by simp
  then have "trailing_space ((base @ ''-'' @ ds) @ [d]) = None"
    by (intro trailing_space_snoc) (auto simp: space_runes_def)
  then have "TrimSpace (suffixed base n) = suffixed base n"
    using lead by (intro TrimSpace_id) (simp_all add: suffixed_def d)
  with suf s assms(2) show ?thesis by (intro exI [of _ "rs @ map code ?suf"]) simp
qed

lemma inj_suffixed: "inj (suffixed base)"
  using inj_itoa by (auto simp: inj_def suffixed_def)

lemma ChooseName_derived:
  assumes "length records < 10 ^ 14"
  shows "\<exists>name. ChooseName up [] t records = Inr name \<and> ValidateName up name = None
    \<and> name \<noteq> ''all'' \<and> name \<notin> r_Name ` set records"
proof -
  let ?used = "''all'' # map r_Name records" and ?base = "derivedName up t"
  obtain rs where rs: "?base = encode_runes rs" "safe_runes up rs" "rs \<noteq> []" "length rs \<le> 48"
      "TrimSpace ?base = ?base"
    using derivedName_safe [of up t] by blast
  have ne: "encode_runes qs \<noteq> []" if "qs \<noteq> []" for qs
    using that by (auto simp: encode_runes_def neq_Nil_conv)
  show ?thesis
  proof (cases "?base \<in> set ?used")
    case False
    have "ValidateName up ?base = None"
      using ValidateName_safe [OF rs(2,1)] rs ne [OF rs(3)] by simp
    moreover have "ChooseName up [] t records = Inr ?base"
      using False by (simp add: ChooseName_def Let_def)
    ultimately show ?thesis using False by auto
  next
    case True
    obtain m where m: "first_unused (Suc (length ?used)) (suffixed ?base) ?used 2 = Some m"
      using first_unused_enough [OF inj_suffixed, of ?used "Suc (length ?used)" ?base 2] by auto
    from first_unused_Some [OF this] have un: "suffixed ?base m \<notin> set ?used"
      and bound: "m < 2 + Suc (length ?used)" by blast+
    then have "m < 10 ^ Suc 14" using assms by simp
    then have len: "length (itoa m) \<le> 15" using itoa_length_bound [of m 14] by simp
    obtain qs where q: "suffixed ?base m = encode_runes qs" "safe_runes up qs"
        "length qs = length rs + 1 + length (itoa m)" "TrimSpace (suffixed ?base m) = suffixed ?base m"
      using suffixed_safe [OF rs(1,2,3,5)] by blast
    have "ValidateName up (suffixed ?base m) = None"
      by (rule ValidateName_safe [OF q(2,1)]) (use q rs len in \<open>auto simp: suffixed_def\<close>)
    moreover have "ChooseName up [] t records = Inr (suffixed ?base m)"
      using True m by (simp add: ChooseName_def Let_def del: first_unused.simps)
    ultimately show ?thesis using un by auto
  qed
qed

text \<open>C16: With no name requested, \<open>ChooseName\<close> always ends and returns a name that passes
  \<open>ValidateName\<close>, that no record has and that is not the reserved word, whatever bytes the
  directory and the window name contain, as long as there are fewer than \<open>10 ^ 14\<close> records.\<close>

theorem ChooseName_derived_valid:
  assumes "length records < 10 ^ 14"
  shows "\<exists>name. ChooseName up [] t records = Inr name \<and> ValidateName up name = None
    \<and> name \<noteq> ''all'' \<and> name \<notin> r_Name ` set records"
  using assms by (rule ChooseName_derived)

theorem ChooseName_derived_valid_witness:
  "\<exists>name. ChooseName (\<lambda>_. False) [] sample_target [] = Inr name \<and> ValidateName (\<lambda>_. False) name = None
    \<and> name \<noteq> ''all''"
  using ChooseName_derived_valid [of "[]" "\<lambda>_. False" sample_target] by auto

lemma ChooseName_valid:
  assumes "ChooseName up requested t records = Inr name" and "length records < 10 ^ 14"
  shows "ValidateName up name = None \<and> name \<noteq> ''all'' \<and> name \<notin> r_Name ` set records"
proof (cases "requested = []")
  case True
  then show ?thesis using ChooseName_derived [OF assms(2), of up t] assms(1) by auto
next
  case False
  then show ?thesis using assms(1) by (auto simp: ChooseName_def Let_def split: option.splits if_splits)
qed

text \<open>A requested name is returned exactly when it is a valid name, is not \<open>all\<close> and no
  record has it; in every other case the call fails and no other name is chosen.\<close>

theorem ChooseName_requested:
  assumes "requested \<noteq> []"
  shows "ChooseName up requested t records = Inr name \<longleftrightarrow>
    name = requested \<and> ValidateName up requested = None \<and> requested \<noteq> ''all''
    \<and> requested \<notin> r_Name ` set records"
  using assms by (auto simp: ChooseName_def Let_def split: option.splits)

theorem ChooseName_requested_witness:
  "ChooseName (\<lambda>_. False) ''all'' sample_target [] \<noteq> Inr ''all''"
  using ChooseName_requested [of "''all''" "\<lambda>_. False" sample_target "[]" "''all''"] by simp

end
