(* ===== verification/Instance_Files.thy ===== *)
theory Instance_Files
  imports Instance_Names "HOL-Library.Product_Lexorder"
begin

text \<open>
  The file system as the instance store uses it: a finite table of paths with regular
  files, directories, symbolic links, sockets and others; exclusive \<open>flock\<close> locks on inodes; and a
  schedule of faults, consumed one entry per system call that changes something (\<open>None\<close>:
  the call does its work, \<open>Some e\<close>: it fails with \<open>e\<close>; no entry left: no more faults).
  Reading does not consume faults: a file that cannot be inspected (\<open>Denied\<close>) or read is a
  property of the file. The type \<open>'c\<close> is that of encoded file contents, \<open>None\<close> for an empty
  file. Parents of a directory are not tracked.
\<close>

datatype 'c node =
    Regular nat nat bool "'c option"  \<comment> \<open>inode, modification time, readable, content\<close>
  | Directory
  | Symlink
  | Special
  | Socket nat  \<comment> \<open>inode\<close>
  | Denied

record 'c world =
  w_files :: "(string \<times> 'c node) list"
  w_next :: nat
  w_now :: nat
  w_locks :: "nat list"
  w_faults :: "gerror option list"

definition lookup :: "'c world \<Rightarrow> string \<Rightarrow> 'c node option" where
  "lookup w p = map_of (w_files w) p"

definition put :: "string \<Rightarrow> 'c node \<Rightarrow> 'c world \<Rightarrow> 'c world" where
  "put p n w = w\<lparr>w_files := (p, n) # filter (\<lambda>(q, _). q \<noteq> p) (w_files w)\<rparr>"

definition del :: "string \<Rightarrow> 'c world \<Rightarrow> 'c world" where
  "del p w = w\<lparr>w_files := filter (\<lambda>(q, _). q \<noteq> p) (w_files w)\<rparr>"

lemma lookup_put [simp]: "lookup (put p n w) q = (if q = p then Some n else lookup w q)"
proof -
  have "map_of (filter (\<lambda>(q, _). q \<noteq> p) xs) q = (if q = p then None else map_of xs q)" for xs :: "(string \<times> 'a node) list"
    by (induction xs) auto
  then show ?thesis by (simp add: lookup_def put_def)
qed

lemma lookup_del [simp]: "lookup (del p w) q = (if q = p then None else lookup w q)"
proof -
  have "map_of (filter (\<lambda>(q, _). q \<noteq> p) xs) q = (if q = p then None else map_of xs q)" for xs :: "(string \<times> 'a node) list"
    by (induction xs) auto
  then show ?thesis by (simp add: lookup_def del_def)
qed

lemma lookup_more [simp]:
  "lookup (w_next_update f w) p = lookup w p" "lookup (w_locks_update g w) p = lookup w p"
  "lookup (w_faults_update h w) p = lookup w p" "lookup (w_now_update k w) p = lookup w p"
  by (simp_all add: lookup_def)

section \<open>Reading\<close>

definition is_dir :: "'c node \<Rightarrow> bool" where
  "is_dir n \<longleftrightarrow> (case n of Directory \<Rightarrow> True | _ \<Rightarrow> False)"

definition is_regular :: "'c node \<Rightarrow> bool" where
  "is_regular n \<longleftrightarrow> (case n of Regular _ _ _ _ \<Rightarrow> True | _ \<Rightarrow> False)"

definition Lstat :: "string \<Rightarrow> 'c world \<Rightarrow> gerror + 'c node" where
  "Lstat p w =
     (case lookup w p of
        None \<Rightarrow> Inl (Sentinel ErrNotExist)
      | Some Denied \<Rightarrow> Inl (Ext ''permission denied'')
      | Some n \<Rightarrow> Inr n)"

definition ReadFile :: "string \<Rightarrow> 'c world \<Rightarrow> gerror + 'c option" where
  "ReadFile p w =
     (case lookup w p of
        None \<Rightarrow> Inl (Sentinel ErrNotExist)
      | Some (Regular _ _ readable c) \<Rightarrow> if readable then Inr c else Inl (Ext ''permission denied'')
      | Some _ \<Rightarrow> Inl (Ext ''cannot read''))"

text \<open>\<open>os.ReadDir\<close>: the names of a directory, sorted.\<close>

definition child_names :: "string \<Rightarrow> 'c world \<Rightarrow> string list" where
  "child_names d w =
     sort (remdups (map Base (filter (\<lambda>p. proper (Base p) \<and> PathJoin [d, Base p] = p) (map fst (w_files w)))))"

definition ReadDir :: "string \<Rightarrow> 'c world \<Rightarrow> gerror + string list" where
  "ReadDir d w =
     (case lookup w d of
        Some Directory \<Rightarrow> Inr (child_names d w)
      | None \<Rightarrow> Inl (Sentinel ErrNotExist)
      | Some _ \<Rightarrow> Inl (Ext ''not a directory''))"

lemma lookup_dom: "lookup w p \<noteq> None \<longleftrightarrow> p \<in> fst ` set (w_files w)"
  by (auto simp: lookup_def map_of_eq_None_iff)

lemma set_child_names:
  assumes "d \<noteq> []"
  shows "n \<in> set (child_names d w) \<longleftrightarrow> proper n \<and> lookup w (PathJoin [d, n]) \<noteq> None"
proof
  assume "n \<in> set (child_names d w)"
  then show "proper n \<and> lookup w (PathJoin [d, n]) \<noteq> None"
    by (auto simp: child_names_def lookup_dom simp del: not_None_eq)
next
  assume n: "proper n \<and> lookup w (PathJoin [d, n]) \<noteq> None"
  then have "Base (PathJoin [d, n]) = n" using assms by (simp add: Base_PathJoin)
  moreover have "PathJoin [d, n] \<in> set (map fst (w_files w))" using n unfolding lookup_dom by simp
  ultimately have "n \<in> Base ` set (filter (\<lambda>p. proper (Base p) \<and> PathJoin [d, Base p] = p) (map fst (w_files w)))"
    using n by (intro image_eqI [of _ _ "PathJoin [d, n]"]) auto
  then show "n \<in> set (child_names d w)" by (simp add: child_names_def)
qed

lemma distinct_child_names: "distinct (child_names d w)"
  by (simp add: child_names_def)

section \<open>Changing\<close>

text \<open>The next scheduled fault.\<close>

definition fault :: "('c world, unit) io" where
  "fault w =
     (case w_faults w of
        [] \<Rightarrow> (Inr (), w)
      | None # fs \<Rightarrow> (Inr (), w\<lparr>w_faults := fs\<rparr>)
      | Some e # fs \<Rightarrow> (Inl e, w\<lparr>w_faults := fs\<rparr>))"

definition modify :: "('c world \<Rightarrow> 'c world) \<Rightarrow> ('c world, unit) io" where
  "modify f w = (Inr (), f w)"

definition MkdirAll :: "string \<Rightarrow> ('c world, unit) io" where
  "MkdirAll p = bindE fault (\<lambda>_ w.
     case lookup w p of
       None \<Rightarrow> (Inr (), put p Directory w)
     | Some Directory \<Rightarrow> (Inr (), w)
     | Some Symlink \<Rightarrow> (Inr (), w)
     | Some _ \<Rightarrow> (Inl (Ext ''not a directory''), w))"

definition Chmod :: "string \<Rightarrow> ('c world, unit) io" where
  "Chmod p = fault"

text \<open>Opening with \<open>O_CREATE\<close>: the inode of the file, a new empty file when there is none.\<close>

definition OpenCreate :: "string \<Rightarrow> ('c world, nat) io" where
  "OpenCreate p = bindE fault (\<lambda>_ w.
     case lookup w p of
       None \<Rightarrow> (Inr (w_next w), put p (Regular (w_next w) (w_now w) True None) (w\<lparr>w_next := Suc (w_next w)\<rparr>))
     | Some (Regular inode _ _ _) \<Rightarrow> (Inr inode, w)
     | Some _ \<Rightarrow> (Inl (Ext ''cannot open''), w))"

definition OpenRead :: "string \<Rightarrow> ('c world, nat) io" where
  "OpenRead p = bindE fault (\<lambda>_ w.
     case lookup w p of
       Some (Regular inode _ _ _) \<Rightarrow> (Inr inode, w)
     | _ \<Rightarrow> (Inl (Ext ''cannot open''), w))"

text \<open>\<open>flock(LOCK_EX|LOCK_NB)\<close>: whether the lock was free.\<close>

definition FlockNB :: "nat \<Rightarrow> ('c world, bool) io" where
  "FlockNB inode = bindE fault (\<lambda>_ w.
     if inode \<in> set (w_locks w) then (Inr False, w)
     else (Inr True, w\<lparr>w_locks := inode # w_locks w\<rparr>))"

text \<open>\<open>flock(LOCK_UN)\<close> and closing the file; closing releases the lock in any case.\<close>

definition Unlock :: "nat \<Rightarrow> ('c world, unit) io" where
  "Unlock inode w =
     (case fault w of (r, w) \<Rightarrow> (r, w\<lparr>w_locks := removeAll inode (w_locks w)\<rparr>))"

definition CloseFile :: "('c world, unit) io" where
  "CloseFile = fault"

definition Remove :: "string \<Rightarrow> ('c world, unit) io" where
  "Remove p = bindE fault (\<lambda>_ w.
     case lookup w p of None \<Rightarrow> (Inl (Sentinel ErrNotExist), w) | Some _ \<Rightarrow> (Inr (), del p w))"

text \<open>\<open>os.CreateTemp(dir, "." + name + ".*.tmp")\<close>: a new empty file under an unused name.\<close>

definition temp_name :: "string \<Rightarrow> nat \<Rightarrow> string" where
  "temp_name name n = ''.'' @ name @ ''.'' @ itoa n @ ''.tmp''"

definition CreateTemp :: "string \<Rightarrow> string \<Rightarrow> ('c world, string) io" where
  "CreateTemp dir name = bindE fault (\<lambda>_ w.
     case first_unused (Suc (length (w_files w))) (\<lambda>n. PathJoin [dir, temp_name name n]) (map fst (w_files w)) 0 of
       None \<Rightarrow> (Inl (Ext ''no unused name''), w)
     | Some n \<Rightarrow>
         let p = PathJoin [dir, temp_name name n] in
         (Inr p, put p (Regular (w_next w) (w_now w) True None) (w\<lparr>w_next := Suc (w_next w)\<rparr>)))"

definition WriteFile :: "string \<Rightarrow> 'c \<Rightarrow> ('c world, unit) io" where
  "WriteFile p c = bindE fault (\<lambda>_ w.
     case lookup w p of
       Some (Regular inode _ readable _) \<Rightarrow> (Inr (), put p (Regular inode (w_now w) readable (Some c)) w)
     | _ \<Rightarrow> (Inl (Ext ''file is gone''), w))"

definition Sync :: "('c world, unit) io" where
  "Sync = fault"

definition Rename :: "string \<Rightarrow> string \<Rightarrow> ('c world, unit) io" where
  "Rename p q = bindE fault (\<lambda>_ w.
     case lookup w p of
       None \<Rightarrow> (Inl (Sentinel ErrNotExist), w)
     | Some n \<Rightarrow> (Inr (), put q n (del p w)))"

lemma fault_lookup [simp]: "lookup (snd (fault w)) p = lookup w p"
  by (auto simp: fault_def split: list.splits option.splits)

end
