(* ===== verification/Instance_Store.thy ===== *)
theory Instance_Store
  imports Instance_Files
begin

text \<open>
  The store of instance records, \<open>internal/instance/store.go\<close>. Every operation takes the lock
  file for its whole duration, so an operation is one atomic step; leases are \<open>flock\<close>
  locks that outlive the operations. The JSON codec is a parameter: \<open>enc\<close> for the encoder,
  \<open>dec\<close> for one \<open>Decode\<close> with \<open>DisallowUnknownFields\<close> together with what a second \<open>Decode\<close>
  finds; \<open>up\<close> is the table of printable runes and \<open>key\<close> is \<open>Target.Key\<close>.
\<close>

section \<open>Stores\<close>

record Store =
  s_StateRoot :: string
  s_RuntimeRoot :: string

type_synonym 'c decoder = "'c option \<Rightarrow> gerror + Record \<times> trailing"
type_synonym 'c encoder = "Record \<Rightarrow> gerror + 'c"

definition ForRecord :: "Store \<Rightarrow> Record \<Rightarrow> gerror + Store" where
  "ForRecord s r =
     (let path = Clean (r_ControlSocket r) in
      if \<not> IsAbs path \<or> path \<noteq> r_ControlSocket r \<or> Base path \<noteq> r_ID r @ ''.sock''
      then Inl (Msg ''instance control socket is outside its recorded runtime path'')
      else let runtimeRoot = Dir path in
        if runtimeRoot = ''/'' then Inl (Msg ''instance runtime root is too broad'')
        else Inr (s\<lparr>s_RuntimeRoot := runtimeRoot\<rparr>))"

definition InstancesDir :: "Store \<Rightarrow> string" where
  "InstancesDir s = PathJoin [s_StateRoot s, ''instances'']"

definition DiagnosticsDir :: "Store \<Rightarrow> string" where
  "DiagnosticsDir s = PathJoin [s_StateRoot s, ''diagnostics'']"

definition record_path :: "Store \<Rightarrow> string \<Rightarrow> string" where
  "record_path s i = PathJoin [InstancesDir s, i @ ''.json'']"

definition lease_path :: "Store \<Rightarrow> string \<Rightarrow> string" where
  "lease_path s i = PathJoin [s_RuntimeRoot s, i @ ''.lease'']"

definition err_id :: "string \<Rightarrow> gerror" where
  "err_id i = Msgf ''invalid instance ID %q'' [i]"

definition mkdirPrivate :: "string \<Rightarrow> ('c world, unit) io" where
  "mkdirPrivate path =
     bindE (wrapErr ''create private directory: '' (MkdirAll path)) (\<lambda>_ w.
       case Lstat path w of
         Inl e \<Rightarrow> (Inl e, w)
       | Inr n \<Rightarrow>
           if \<not> is_dir n then (Inl (Msg ''private path is not a regular directory''), w)
           else wrapErr ''protect private directory: '' (Chmod path) w)"

section \<open>Leases\<close>

record Lease =
  l_file :: "nat option"

definition AcquireLease :: "Store \<Rightarrow> string \<Rightarrow> ('c world, Lease) io" where
  "AcquireLease s i =
     bindE (guardE (idPattern i) (err_id i)) (\<lambda>_.
     bindE (guardE (s_RuntimeRoot s \<noteq> []) (Msg ''instance runtime root is required'')) (\<lambda>_.
     bindE (mkdirPrivate (s_RuntimeRoot s)) (\<lambda>_ w.
     let path = lease_path s i;
         opened = bindE (wrapErr ''open instance lease: '' (OpenCreate path)) (\<lambda>inode.
           bindE (wrapErr ''inspect open instance lease: '' fault) (\<lambda>_.
           bindE (wrapErr ''lock instance lease: '' (FlockNB inode)) (\<lambda>locked.
           if locked then returnE \<lparr>l_file = Some inode\<rparr> else failE (Sentinel ErrLeaseHeld))))
     in case Lstat path w of
          Inr n \<Rightarrow>
            if \<not> is_regular n then (Inl (Msg ''instance lease is not a regular file''), w) else opened w
        | Inl e \<Rightarrow>
            if \<not> errors_is e ErrNotExist then (Inl (Wrapf ''inspect instance lease: '' e), w) else opened w)))"

definition LeaseHeld :: "Store \<Rightarrow> string \<Rightarrow> ('c world, bool) io" where
  "LeaseHeld s i =
     bindE (guardE (idPattern i) (err_id i)) (\<lambda>_ w.
     let path = lease_path s i in
     case Lstat path w of
       Inl e \<Rightarrow> if errors_is e ErrNotExist then (Inr False, w)
                else (Inl (Wrapf ''inspect instance lease: '' e), w)
     | Inr n \<Rightarrow>
         if \<not> is_regular n then (Inl (Msg ''instance lease is not a regular file''), w)
         else bindE (wrapErr ''open instance lease: '' (OpenRead path)) (\<lambda>inode.
              bindE (wrapErr ''probe instance lease: '' (FlockNB inode)) (\<lambda>locked.
              if \<not> locked then returnE True
              else bindE (Unlock inode) (\<lambda>_. returnE False))) w)"

definition Lease_Close :: "Lease \<Rightarrow> ('c world, unit) io" where
  "Lease_Close l w =
     (case l_file l of
        None \<Rightarrow> (Inr (), w)
      | Some inode \<Rightarrow>
          (case Unlock inode w of (unlockErr, w) \<Rightarrow>
           case CloseFile w of (closeErr, w) \<Rightarrow>
             (case errors_join [case unlockErr of Inl e \<Rightarrow> Some e | _ \<Rightarrow> None,
                                case closeErr of Inl e \<Rightarrow> Some e | _ \<Rightarrow> None] of
                None \<Rightarrow> (Inr (), w) | Some e \<Rightarrow> (Inl e, w))))"

section \<open>Reading records\<close>

definition readRecord :: "'c decoder \<Rightarrow> (rune \<Rightarrow> bool) \<Rightarrow> string \<Rightarrow> 'c world \<Rightarrow> gerror + Record" where
  "readRecord dec up path w =
     (case ReadFile path w of
        Inl e \<Rightarrow> Inl e
      | Inr data \<Rightarrow>
          (case dec data of
             Inl e \<Rightarrow> Inl (Wrapf ''decode instance record: '' e)
           | Inr (r, rest) \<Rightarrow>
               (case rest of
                  TrailingValue \<Rightarrow> Inl (Msg ''instance record contains trailing JSON'')
                | TrailingError e \<Rightarrow> Inl e
                | AtEOF \<Rightarrow> (case Record_Validate up r of Some e \<Rightarrow> Inl e | None \<Rightarrow> Inr r))))"

definition read_entry :: "'c decoder \<Rightarrow> (rune \<Rightarrow> bool) \<Rightarrow> Store \<Rightarrow> 'c world \<Rightarrow> string \<Rightarrow> gerror + Record" where
  "read_entry dec up s w name =
     (let path = PathJoin [InstancesDir s, name] in
      case Lstat path w of
        Inl e \<Rightarrow> Inl e
      | Inr n \<Rightarrow>
          if \<not> is_regular n then Inl (Msg ''instance record is not a regular file'')
          else case readRecord dec up path w of
            Inl e \<Rightarrow> Inl e
          | Inr r \<Rightarrow>
              if TrimSuffix name ''.json'' \<noteq> r_ID r
              then Inl (Msg ''record ID does not match filename'') else Inr r)"

definition record_name :: "string \<Rightarrow> bool" where
  "record_name name \<longleftrightarrow> \<not> HasPrefix name ''.'' \<and> HasSuffix name ''.json''"

fun collect_entries ::
    "(string \<Rightarrow> gerror + Record) \<Rightarrow> string list \<Rightarrow> Record list \<times> (string \<times> gerror) list" where
  "collect_entries f [] = ([], [])"
| "collect_entries f (name # names) =
     (case collect_entries f names of (rs, ps) \<Rightarrow>
      if \<not> record_name name then (rs, ps)
      else case f name of Inl e \<Rightarrow> (rs, (name, e) # ps) | Inr r \<Rightarrow> (r # rs, ps))"

definition readAllUnlocked ::
    "'c decoder \<Rightarrow> (rune \<Rightarrow> bool) \<Rightarrow> Store \<Rightarrow> 'c world \<Rightarrow> gerror + Record list \<times> (string \<times> gerror) list" where
  "readAllUnlocked dec up s w =
     (case ReadDir (InstancesDir s) w of
        Inl e \<Rightarrow> Inl (Wrapf ''list instance records: '' e)
      | Inr names \<Rightarrow>
          (case collect_entries (read_entry dec up s w) names of (rs, ps) \<Rightarrow>
             Inr (sort_key (\<lambda>r. (r_Name r, r_ID r)) rs, ps)))"

section \<open>Operations under the lock\<close>

definition store_lock :: "Store \<Rightarrow> ('c world, unit) io" where
  "store_lock s =
     bindE (guardE (s_StateRoot s \<noteq> []) (Msg ''instance state root is required'')) (\<lambda>_.
     bindE (mkdirPrivate (s_StateRoot s)) (\<lambda>_.
     bindE (mkdirPrivate (InstancesDir s)) (\<lambda>_.
     bindE (if s_RuntimeRoot s \<noteq> [] then mkdirPrivate (s_RuntimeRoot s) else returnE ()) (\<lambda>_.
     bindE (wrapErr ''open instance lock: '' (OpenCreate (PathJoin [InstancesDir s, ''.lock'']))) (\<lambda>_.
     wrapErr ''lock instances: '' fault)))))"

text \<open>Releasing the lock: unlock and close, their errors dropped.\<close>

definition locked :: "Store \<Rightarrow> ('c world, 'a) io \<Rightarrow> ('c world, 'a) io" where
  "locked s m = bindE (store_lock s) (\<lambda>_. tryE m (\<lambda>r. tryE fault (\<lambda>_. tryE CloseFile (\<lambda>_. liftE r))))"

definition reading :: "('c world \<Rightarrow> gerror + 'a) \<Rightarrow> ('c world, 'a) io" where
  "reading f w = (f w, w)"

text \<open>
  \<open>writeAtomic\<close>: the record is written to a temporary file, which is renamed to its final
  name; a failure removes the temporary file.
\<close>

definition orRemove :: "string \<Rightarrow> ('c world, unit) io \<Rightarrow> ('c world, unit) io" where
  "orRemove tempPath m = tryE m (\<lambda>r. case r of
     Inr _ \<Rightarrow> returnE () | Inl e \<Rightarrow> tryE (Remove tempPath) (\<lambda>_. failE e))"

definition orClose :: "('c world, unit) io \<Rightarrow> ('c world, unit) io" where
  "orClose m = tryE m (\<lambda>r. case r of Inr _ \<Rightarrow> returnE () | Inl e \<Rightarrow> tryE CloseFile (\<lambda>_. failE e))"

definition fillTemp :: "'c encoder \<Rightarrow> Record \<Rightarrow> string \<Rightarrow> ('c world, unit) io" where
  "fillTemp enc r tempPath =
     bindE (orClose (Chmod tempPath)) (\<lambda>_.
     bindE (orClose (wrapErr ''encode instance record: '' (bindE (liftE (enc r)) (WriteFile tempPath)))) (\<lambda>_.
     bindE (orClose (wrapErr ''sync instance record: '' Sync)) (\<lambda>_.
     wrapErr ''close instance record: '' CloseFile)))"

definition installTemp :: "string \<Rightarrow> string \<Rightarrow> ('c world, unit) io" where
  "installTemp tempPath path =
     bindE (wrapErr ''install instance record: '' (Rename tempPath path)) (\<lambda>_.
     bindE (wrapErr ''open instance directory: '' fault) (\<lambda>_.
     tryE (wrapErr ''sync instance directory: '' Sync) (\<lambda>r.
     tryE CloseFile (\<lambda>_. liftE r))))"

definition writeAtomic :: "'c encoder \<Rightarrow> Store \<Rightarrow> Record \<Rightarrow> bool \<Rightarrow> ('c world, unit) io" where
  "writeAtomic enc s r replace =
     (let path = record_path s (r_ID r);
          write = bindE (wrapErr ''create temporary instance record: '' (CreateTemp (InstancesDir s) (r_ID r)))
            (\<lambda>tempPath. orRemove tempPath (bindE (fillTemp enc r tempPath) (\<lambda>_. installTemp tempPath path)))
      in (\<lambda>w. case Lstat path w of
           Inr n \<Rightarrow>
             if \<not> replace then (Inl (Msg ''instance record path already exists''), w)
             else if \<not> is_regular n then (Inl (Msg ''instance record is not a regular file''), w)
             else write w
         | Inl e \<Rightarrow>
             if \<not> errors_is e ErrNotExist
             then (Inl (Wrapf ''inspect instance record destination: '' e), w) else write w))"

definition collision :: "(Target \<Rightarrow> string) \<Rightarrow> Record \<Rightarrow> Record \<Rightarrow> gerror option" where
  "collision key r existing =
     (if r_ID existing = r_ID r then Some (Msgf ''instance ID %q already exists'' [r_ID r])
      else if r_Name existing = r_Name r then Some (Msgf ''instance name %q already exists'' [r_Name r])
      else if r_ID existing = r_Name r
      then Some (Msgf ''instance selector %q collides with an existing name or ID'' [r_Name r])
      else if r_Name existing = r_ID r
      then Some (Msgf ''instance selector %q collides with an existing name or ID'' [r_ID r])
      else if key (r_Target existing) = key (r_Target r)
      then Some (Msgf ''tmux target already belongs to Wrap %q'' [r_Name existing])
      else None)"

fun first_error :: "('a \<Rightarrow> gerror option) \<Rightarrow> 'a list \<Rightarrow> gerror option" where
  "first_error f [] = None"
| "first_error f (x # xs) = (case f x of Some e \<Rightarrow> Some e | None \<Rightarrow> first_error f xs)"

definition Store_Create ::
    "'c encoder \<Rightarrow> 'c decoder \<Rightarrow> (rune \<Rightarrow> bool) \<Rightarrow> (Target \<Rightarrow> string) \<Rightarrow> Store \<Rightarrow> Record \<Rightarrow> ('c world, unit) io" where
  "Store_Create enc dec up key s r =
     (case Record_Validate up r of
        Some e \<Rightarrow> failE e
      | None \<Rightarrow>
          locked s (bindE (reading (readAllUnlocked dec up s)) (\<lambda>(records, _).
            case first_error (collision key r) records of
              Some e \<Rightarrow> failE e
            | None \<Rightarrow> writeAtomic enc s r False)))"

definition rename_clash :: "string \<Rightarrow> string \<Rightarrow> Record \<Rightarrow> gerror option" where
  "rename_clash i name r =
     (if r_Name r = name \<and> r_ID r \<noteq> i then Some (Msgf ''instance name %q already exists'' [name])
      else if r_ID r = name \<and> r_ID r \<noteq> i
      then Some (Msgf ''instance selector %q collides with an existing ID'' [name])
      else None)"

text \<open>The last record with this ID and process, as the loop leaves it in \<open>current\<close>.\<close>

definition find_current :: "string \<Rightarrow> int \<Rightarrow> Record list \<Rightarrow> Record option" where
  "find_current i pid records = find (\<lambda>r. r_ID r = i \<and> r_PID r = pid) (rev records)"

definition RenameIfPID ::
    "'c encoder \<Rightarrow> 'c decoder \<Rightarrow> (rune \<Rightarrow> bool) \<Rightarrow> Store \<Rightarrow> string \<Rightarrow> int \<Rightarrow> string \<Rightarrow> ('c world, bool) io" where
  "RenameIfPID enc dec up s i pid name =
     bindE (guardE (\<not> (\<not> idPattern i \<or> pid \<le> 0)) (Msg ''valid instance ID and PID are required'')) (\<lambda>_.
     case ValidateName up name of
       Some e \<Rightarrow> failE e
     | None \<Rightarrow>
         locked s (bindE (reading (readAllUnlocked dec up s)) (\<lambda>(records, _).
           case first_error (rename_clash i name) records of
             Some e \<Rightarrow> failE e
           | None \<Rightarrow>
               (case find_current i pid records of
                  None \<Rightarrow> returnE False
                | Some current \<Rightarrow>
                    bindE (writeAtomic enc s (current\<lparr>r_Name := name\<rparr>) True) (\<lambda>_. returnE True)))))"

definition ReadAll ::
    "'c decoder \<Rightarrow> (rune \<Rightarrow> bool) \<Rightarrow> Store \<Rightarrow> ('c world, Record list \<times> (string \<times> gerror) list) io" where
  "ReadAll dec up s = locked s (reading (readAllUnlocked dec up s))"

definition Inspect ::
    "'c decoder \<Rightarrow> (rune \<Rightarrow> bool) \<Rightarrow> Store \<Rightarrow> 'c world \<Rightarrow> gerror + Record list \<times> (string \<times> gerror) list" where
  "Inspect dec up s w =
     (if s_StateRoot s = [] then Inl (Msg ''instance state root is required'')
      else case Lstat (InstancesDir s) w of
        Inl e \<Rightarrow> if errors_is e ErrNotExist then Inr ([], []) else Inl (Wrapf ''inspect instance directory: '' e)
      | Inr n \<Rightarrow>
          if \<not> is_dir n then Inl (Msg ''instance path is not a regular directory'')
          else readAllUnlocked dec up s w)"

definition resolve_in :: "string \<Rightarrow> Record list \<Rightarrow> gerror + Record" where
  "resolve_in selector records =
     (case filter (\<lambda>r. r_Name r = selector \<or> r_ID r = selector) records of
        [r] \<Rightarrow> Inr r
      | _ # _ # _ \<Rightarrow> Inl (Wrapv (Sentinel ErrAmbiguous) selector)
      | [] \<Rightarrow>
          (case filter (\<lambda>r. HasPrefix (r_ID r) selector) records of
             [] \<Rightarrow> Inl (Wrapv (Sentinel ErrNotFound) selector)
           | [r] \<Rightarrow> Inr r
           | _ # _ # _ \<Rightarrow> Inl (Wrapv (Sentinel ErrAmbiguous) selector)))"

definition Resolve :: "'c decoder \<Rightarrow> (rune \<Rightarrow> bool) \<Rightarrow> Store \<Rightarrow> string \<Rightarrow> ('c world, Record) io" where
  "Resolve dec up s selector =
     bindE (ReadAll dec up s) (\<lambda>(records, _). liftE (resolve_in selector records))"

definition removeRecord :: "string \<Rightarrow> ('c world, unit) io" where
  "removeRecord path = tryE (Remove path) (\<lambda>r. case r of
     Inl e \<Rightarrow> if errors_is e ErrNotExist then returnE () else failE (Wrapf ''remove instance record: '' e)
   | Inr _ \<Rightarrow> returnE ())"

definition Store_Remove :: "Store \<Rightarrow> string \<Rightarrow> ('c world, unit) io" where
  "Store_Remove s i =
     bindE (guardE (idPattern i) (err_id i)) (\<lambda>_. locked s (removeRecord (record_path s i)))"

definition RemoveIfPID ::
    "'c decoder \<Rightarrow> (rune \<Rightarrow> bool) \<Rightarrow> Store \<Rightarrow> string \<Rightarrow> int \<Rightarrow> ('c world, bool) io" where
  "RemoveIfPID dec up s i pid =
     bindE (guardE (idPattern i) (err_id i)) (\<lambda>_.
     bindE (guardE (\<not> pid \<le> 0) (Msg ''instance PID must be positive'')) (\<lambda>_.
     locked s (\<lambda>w.
       let path = record_path s i in
       case Lstat path w of
         Inl e \<Rightarrow> if errors_is e ErrNotExist then (Inr False, w)
                  else (Inl (Wrapf ''inspect instance record: '' e), w)
       | Inr n \<Rightarrow>
           if \<not> is_regular n then (Inl (Msg ''instance record is not a regular file''), w)
           else (case readRecord dec up path w of
             Inl e \<Rightarrow> (Inl e, w)
           | Inr r \<Rightarrow>
               if r_ID r \<noteq> i \<or> r_PID r \<noteq> pid then (Inr False, w)
               else bindE (removeRecord path) (\<lambda>_. returnE True) w))))"

section \<open>Pruning the artifacts of finished instances\<close>

definition diagnosticArtifactID :: "string \<Rightarrow> string" where
  "diagnosticArtifactID name =
     (if HasSuffix name ''.jsonl.1'' then TrimSuffix name ''.jsonl.1''
      else if HasSuffix name ''.jsonl'' then TrimSuffix name ''.jsonl'' else [])"

definition leaseArtifactID :: "string \<Rightarrow> string" where
  "leaseArtifactID name = (if \<not> HasSuffix name ''.lease'' then [] else TrimSuffix name ''.lease'')"

definition diagnostic_path :: "Store \<Rightarrow> string \<Rightarrow> string \<Rightarrow> string" where
  "diagnostic_path s i suffix = PathJoin [DiagnosticsDir s, i @ suffix]"

definition mod_time :: "'c node \<Rightarrow> nat" where
  "mod_time n = (case n of Regular _ m _ _ \<Rightarrow> m | _ \<Rightarrow> 0)"

text \<open>The latest modification time per instance ID, in order of first appearance.\<close>

definition note_candidate :: "(string \<times> nat) list \<Rightarrow> string \<Rightarrow> nat \<Rightarrow> (string \<times> nat) list" where
  "note_candidate cs i m =
     (case map_of cs i of
        None \<Rightarrow> cs @ [(i, m)]
      | Some current \<Rightarrow> if m > current then map (\<lambda>(j, n). if j = i then (j, m) else (j, n)) cs else cs)"

fun collect_names ::
    "'c world \<Rightarrow> string \<Rightarrow> (string \<Rightarrow> string) \<Rightarrow> string list \<Rightarrow> (string \<times> nat) list \<Rightarrow> gerror + (string \<times> nat) list" where
  "collect_names w d idForName [] cs = Inr cs"
| "collect_names w d idForName (name # names) cs =
     (let i = idForName name in
      if \<not> idPattern i then collect_names w d idForName names cs
      else case Lstat (PathJoin [d, name]) w of
        Inl e \<Rightarrow> Inl e
      | Inr n \<Rightarrow> collect_names w d idForName names (note_candidate cs i (mod_time n)))"

definition collect_artifacts ::
    "'c world \<Rightarrow> string \<Rightarrow> (string \<Rightarrow> string) \<Rightarrow> (string \<times> nat) list \<Rightarrow> gerror + (string \<times> nat) list" where
  "collect_artifacts w d idForName cs =
     (case ReadDir d w of
        Inl e \<Rightarrow> if errors_is e ErrNotExist then Inr cs else Inl e
      | Inr names \<Rightarrow> collect_names w d idForName names cs)"

definition removeRegularArtifact :: "string \<Rightarrow> ('c world, unit) io" where
  "removeRegularArtifact path w =
     (case Lstat path w of
        Inl e \<Rightarrow> if errors_is e ErrNotExist then (Inr (), w) else (Inl e, w)
      | Inr n \<Rightarrow>
          if \<not> is_regular n then (Inl (Msg ''completed artifact is not a regular file''), w)
          else Remove path w)"

definition err_of :: "gerror + 'a \<Rightarrow> gerror option" where
  "err_of r = (case r of Inl e \<Rightarrow> Some e | Inr _ \<Rightarrow> None)"

definition result_of :: "gerror option \<Rightarrow> gerror + unit" where
  "result_of e = (case e of None \<Rightarrow> Inr () | Some e \<Rightarrow> Inl e)"

definition inode_of :: "'c node \<Rightarrow> nat option" where
  "inode_of n = (case n of Regular inode _ _ _ \<Rightarrow> Some inode | _ \<Rightarrow> None)"

text \<open>
  The end of \<open>pruneCompletedArtifact\<close>: the lease file is removed only while the path still
  names the file whose lock is held.
\<close>

definition removeLeaseFile :: "string \<Rightarrow> Lease \<Rightarrow> ('c world, unit) io" where
  "removeLeaseFile path lease =
     bindE fault (\<lambda>_ w.
       case Lstat path w of
         Inl e \<Rightarrow> if errors_is e ErrNotExist then (Inr (), w) else (Inl e, w)
       | Inr n \<Rightarrow>
           if inode_of n \<noteq> l_file lease then (Inl (Msg ''completed instance lease identity changed''), w)
           else Remove path w)"

definition pruneCompletedArtifact :: "Store \<Rightarrow> string \<Rightarrow> ('c world, unit) io" where
  "pruneCompletedArtifact s i =
     tryE (AcquireLease s i) (\<lambda>r. case r of
       Inl e \<Rightarrow> if errors_is e ErrLeaseHeld then returnE () else failE (Wrapf ''lock completed instance: '' e)
     | Inr lease \<Rightarrow>
         tryE (removeRegularArtifact (diagnostic_path s i ''.jsonl'')) (\<lambda>e1.
         tryE (removeRegularArtifact (diagnostic_path s i ''.jsonl.1'')) (\<lambda>e2.
         tryE (removeLeaseFile (lease_path s i) lease) (\<lambda>e3.
         tryE (Lease_Close lease) (\<lambda>e4.
         liftE (result_of (errors_join [errors_join [errors_join [err_of e1, err_of e2], err_of e3], err_of e4])))))))"

fun prune_all :: "Store \<Rightarrow> string list \<Rightarrow> gerror option \<Rightarrow> ('c world, unit) io" where
  "prune_all s [] pruneErr = liftE (result_of pruneErr)"
| "prune_all s (i # is) pruneErr =
     tryE (pruneCompletedArtifact s i) (\<lambda>r.
       prune_all s is (case err_of r of None \<Rightarrow> pruneErr | Some e \<Rightarrow> errors_join [pruneErr, Some e]))"

definition protected_ids :: "Record list \<Rightarrow> (string \<times> gerror) list \<Rightarrow> string list" where
  "protected_ids records problems =
     map r_ID records @
     filter idPattern (map (\<lambda>(name, _). TrimSuffix name ''.json'') problems)"

definition newest_first :: "(string \<times> nat) list \<Rightarrow> string list" where
  "newest_first cs = map fst (rev (sort_key (\<lambda>(i, m). (m, i)) cs))"

text \<open>The IDs \<open>PruneCompletedArtifacts\<close> goes through.\<close>

definition prune_victims ::
    "'c decoder \<Rightarrow> (rune \<Rightarrow> bool) \<Rightarrow> Store \<Rightarrow> nat \<Rightarrow> 'c world \<Rightarrow> gerror + string list" where
  "prune_victims dec up s retain w =
     (case readAllUnlocked dec up s w of
        Inl e \<Rightarrow> Inl e
      | Inr (records, problems) \<Rightarrow>
          (case collect_artifacts w (DiagnosticsDir s) diagnosticArtifactID [] of
             Inl e \<Rightarrow> Inl (Wrapf ''inspect completed diagnostics: '' e)
           | Inr cs \<Rightarrow>
               (case collect_artifacts w (s_RuntimeRoot s) leaseArtifactID cs of
                  Inl e \<Rightarrow> Inl (Wrapf ''inspect completed leases: '' e)
                | Inr cs \<Rightarrow>
                    Inr (drop retain (newest_first
                      (filter (\<lambda>(i, _). i \<notin> set (protected_ids records problems)) cs))))))"

definition PruneCompletedArtifacts ::
    "'c decoder \<Rightarrow> (rune \<Rightarrow> bool) \<Rightarrow> Store \<Rightarrow> int \<Rightarrow> ('c world, unit) io" where
  "PruneCompletedArtifacts dec up s retain =
     bindE (guardE (\<not> retain < 0) (Msg ''completed artifact retention must not be negative'')) (\<lambda>_.
     locked s (bindE (reading (prune_victims dec up s (nat retain))) (\<lambda>is. prune_all s is None)))"

end
