(* ===== verification/Control_Protocol.thy ===== *)
theory Control_Protocol
  imports Instance_Store
begin

text \<open>
  The control socket of an instance, \<open>internal/control\<close>: requests and their validation
  (\<open>protocol.go\<close>), one call of a client (\<open>client.go\<close>) and the handling of one connection
  (\<open>server.go\<close>). The JSON codec, the connection and the handler's operations are
  parameters; \<open>'h\<close> is the state of the handler. Operations that change it run under the
  server's mutex, so handling a connection is one atomic step on \<open>'h\<close>.
\<close>

definition ActionStatus :: string where "ActionStatus = ''status''"
definition ActionRename :: string where "ActionRename = ''rename''"
definition ActionRotate :: string where "ActionRotate = ''rotate''"
definition ActionShutdown :: string where "ActionShutdown = ''shutdown''"

definition CodeNotFound :: string where "CodeNotFound = ''not_found''"
definition CodeInvalidRequest :: string where "CodeInvalidRequest = ''invalid_request''"
definition CodeNotReady :: string where "CodeNotReady = ''not_ready''"
definition CodeInternal :: string where "CodeInternal = ''internal''"

definition MaxRequestBytes :: nat where "MaxRequestBytes = 65536"

record Request =
  q_InstanceID :: string
  q_Action :: string
  q_Name :: string

definition Request_validate :: "Request \<Rightarrow> gerror option" where
  "Request_validate r =
     (if \<not> idPattern (q_InstanceID r) then Some (Msg ''invalid instance ID'')
      else if q_Action r \<in> {ActionStatus, ActionRotate, ActionShutdown} then
        (if q_Name r \<noteq> [] then Some (Msg ''request name is only valid for rename'') else None)
      else if q_Action r = ActionRename then
        (if q_Name r = [] then Some (Msg ''rename requires a name'') else None)
      else Some (Msgf ''unknown action %q'' [q_Action r]))"

record Status =
  st_ID :: string
  st_Name :: string
  st_State :: string
  st_PairingURL :: string
  st_QR :: string
  st_Directory :: string
  st_Clients :: nat
  st_StartedAt :: nat
  st_Target :: Target
  st_Warning :: string

record CtlError =
  ce_Code :: string
  ce_Message :: string

datatype response = RespStatus Status | RespError CtlError

text \<open>The interface \<open>Handler\<close>.\<close>

record 'h Handler =
  hd_Status :: "'h \<Rightarrow> Status"
  hd_Rename :: "string \<Rightarrow> ('h, Status) io"
  hd_Rotate :: "('h, Status) io"
  hd_Shutdown :: "('h, unit) io"

definition responseError :: "gerror \<Rightarrow> CtlError" where
  "responseError e =
     (if errors_is e ErrNotReady then \<lparr>ce_Code = CodeNotReady, ce_Message = ''wrap is not ready''\<rparr>
      else \<lparr>ce_Code = CodeInternal, ce_Message = ''Wrap operation failed''\<rparr>)"

text \<open>
  \<open>readRequest\<close>: one line of at most \<open>MaxRequestBytes\<close> bytes, newline included, from what
  the peer sends; then one JSON value and nothing after it.
\<close>

definition read_line :: "nat \<Rightarrow> string \<Rightarrow> string \<times> bool" where
  "read_line limit input =
     (let d = take limit input in
      case IndexByte d newline of Some n \<Rightarrow> (take (Suc n) d, True) | None \<Rightarrow> (d, False))"

definition readRequest :: "(string \<Rightarrow> gerror + Request \<times> trailing) \<Rightarrow> string \<Rightarrow> gerror + Request" where
  "readRequest dec input =
     (case read_line (MaxRequestBytes + 1) input of (data, complete) \<Rightarrow>
        if length data > MaxRequestBytes then Inl (Msg ''control request is too large'')
        else if \<not> complete then Inl (Msg ''control request must end with a newline'')
        else case dec data of
          Inl e \<Rightarrow> Inl (Wrapf ''invalid control request: '' e)
        | Inr (request, rest) \<Rightarrow>
            if rest \<noteq> AtEOF then Inl (Msg ''control request contains trailing JSON'')
            else case Request_validate request of Some e \<Rightarrow> Inl e | None \<Rightarrow> Inr request)"

text \<open>One connection: the response, whether the server stops, and the handler's new state.\<close>

definition respond :: "(gerror + Status) \<times> 'h \<Rightarrow> response \<times> bool \<times> 'h" where
  "respond x = (case x of (Inl e, h) \<Rightarrow> (RespError (responseError e), False, h)
                        | (Inr st, h) \<Rightarrow> (RespStatus st, False, h))"

definition Server_handle ::
    "(string \<Rightarrow> gerror + Request \<times> trailing) \<Rightarrow> 'h Handler \<Rightarrow> string \<Rightarrow> string \<Rightarrow> 'h \<Rightarrow> response \<times> bool \<times> 'h" where
  "Server_handle dec hnd instanceID input h =
     (case readRequest dec input of
        Inl e \<Rightarrow> (RespError \<lparr>ce_Code = CodeInvalidRequest, ce_Message = error_text e\<rparr>, False, h)
      | Inr r \<Rightarrow>
          if q_InstanceID r \<noteq> instanceID
          then (RespError \<lparr>ce_Code = CodeNotFound, ce_Message = ''Wrap instance not found''\<rparr>, False, h)
          else if q_Action r = ActionStatus then (RespStatus (hd_Status hnd h), False, h)
          else if q_Action r = ActionRename then respond (hd_Rename hnd (q_Name r) h)
          else if q_Action r = ActionRotate then respond (hd_Rotate hnd h)
          else (case hd_Shutdown hnd h of
                  (Inl e, h') \<Rightarrow> (RespError (responseError e), False, h')
                | (Inr _, h') \<Rightarrow> (RespStatus (hd_Status hnd h'), True, h')))"

text \<open>
  \<open>Call\<close>: the request is checked before anything is sent. \<open>exchange\<close> stands for the
  connection: it gives the decoded reply, or the error of dialling, writing or decoding.
\<close>

datatype reply = Reply "Status option" "CtlError option"

definition Call ::
    "(Request \<Rightarrow> gerror + string) \<Rightarrow> (string \<Rightarrow> string \<Rightarrow> gerror + reply) \<Rightarrow> string \<Rightarrow> Request \<Rightarrow> (gerror + CtlError) + Status" where
  "Call enc exchange socketPath request =
     (if \<not> IsAbs socketPath then Inl (Inl (Msg ''control socket path must be absolute''))
      else case Request_validate request of
        Some e \<Rightarrow> Inl (Inr \<lparr>ce_Code = CodeInvalidRequest, ce_Message = error_text e\<rparr>)
      | None \<Rightarrow>
          (case enc request of
             Inl e \<Rightarrow> Inl (Inl (Wrapf ''encode control request: '' e))
           | Inr payload \<Rightarrow>
               if length payload > MaxRequestBytes
               then Inl (Inr \<lparr>ce_Code = CodeInvalidRequest, ce_Message = ''control request is too large''\<rparr>)
               else case exchange socketPath payload of
                 Inl e \<Rightarrow> Inl (Inl e)
               | Inr (Reply _ (Some e)) \<Rightarrow> Inl (Inr e)
               | Inr (Reply None None) \<Rightarrow> Inl (Inl (Msg ''control response contains no status''))
               | Inr (Reply (Some st) None) \<Rightarrow> Inr st))"

text \<open>\<open>prepareSocketDirectory\<close>, on the file system of the instance store.\<close>

definition prepareSocketDirectory :: "string \<Rightarrow> ('c world, unit) io" where
  "prepareSocketDirectory path =
     bindE (wrapErr ''create control socket directory: '' (MkdirAll path)) (\<lambda>_ w.
       case Lstat path w of
         Inl e \<Rightarrow> (Inl (Wrapf ''inspect control socket directory: '' e), w)
       | Inr n \<Rightarrow>
           if \<not> is_dir n then (Inl (Msg ''control socket directory is not a regular directory''), w)
           else wrapErr ''protect control socket directory: '' (Chmod path) w)"

section \<open>What a connection can do\<close>

lemma read_line_prefix: "read_line n input = (data, c) \<Longrightarrow> length data \<le> n \<and> (\<exists>t. input = data @ t)"
  by (auto simp: read_line_def Let_def split: option.splits) (metis append_take_drop_id)+

text \<open>Only a request that is complete, at most \<open>MaxRequestBytes\<close> bytes long, well formed and
  addressed to this instance reaches the handler: in every other case its state is
  unchanged and the server goes on; only a shutdown that succeeded stops the server.\<close>

theorem handle_guarded:
  assumes "Server_handle dec hnd instanceID input h = (resp, stop, h')" and "h' \<noteq> h \<or> stop"
  shows "\<exists>r line rest. readRequest dec input = Inr r \<and> q_InstanceID r = instanceID \<and> Request_validate r = None
    \<and> input = line @ rest \<and> length line \<le> MaxRequestBytes \<and> dec line = Inr (r, AtEOF)
    \<and> q_Action r \<in> {ActionRename, ActionRotate, ActionShutdown}
    \<and> (stop \<longrightarrow> q_Action r = ActionShutdown \<and> hd_Shutdown hnd h = (Inr (), h'))"
proof -
  obtain r where r: "readRequest dec input = Inr r" and i: "q_InstanceID r = instanceID"
    using assms by (auto simp: Server_handle_def split: sum.splits if_splits)
  obtain line c where l: "read_line (MaxRequestBytes + 1) input = (line, c)" by (rule prod.exhaust)
  have q: "length line \<le> MaxRequestBytes" "dec line = Inr (r, AtEOF)" "Request_validate r = None"
    using r l by (auto simp: readRequest_def split: if_splits sum.splits option.splits prod.splits)
  have a: "q_Action r \<in> {ActionStatus, ActionRotate, ActionShutdown, ActionRename}"
    using q(3) by (auto simp: Request_validate_def split: if_splits)
  have "q_Action r \<noteq> ActionStatus" using assms r i by (auto simp: Server_handle_def)
  moreover have "stop \<Longrightarrow> q_Action r = ActionShutdown \<and> hd_Shutdown hnd h = (Inr (), h')"
    using assms(1) r i a
    by (auto simp: Server_handle_def respond_def ActionStatus_def ActionRename_def ActionRotate_def
        ActionShutdown_def split: sum.splits prod.splits if_splits)
  moreover obtain rest where "input = line @ rest" using read_line_prefix [OF l] by blast
  ultimately show ?thesis using r i q a by auto
qed

definition demo_request :: Request where
  "demo_request = \<lparr>q_InstanceID = ''abcdef01'', q_Action = ''shutdown'', q_Name = []\<rparr>"

definition demo_status :: Status where
  "demo_status = \<lparr>st_ID = ''abcdef01'', st_Name = ''proj'', st_State = ''ready'', st_PairingURL = [], st_QR = [],
     st_Directory = ''/home/u/proj'', st_Clients = 0, st_StartedAt = 5, st_Target = sample_target, st_Warning = []\<rparr>"

definition demo_handler :: "bool Handler" where
  "demo_handler = \<lparr>hd_Status = (\<lambda>_. demo_status), hd_Rename = (\<lambda>_. failE (Msg ''no'')), hd_Rotate = failE (Msg ''no''),
     hd_Shutdown = (\<lambda>_. (Inr (), True))\<rparr>"

theorem handle_guarded_witness:
  "hd_Shutdown demo_handler False = (Inr (), True)
   \<and> (\<exists>r. readRequest (\<lambda>_. Inr (demo_request, AtEOF)) [newline] = Inr r \<and> q_InstanceID r = ''abcdef01'')"
proof -
  have v: "Request_validate demo_request = None"
    by (simp add: Request_validate_def demo_request_def refusing_run_facts ActionShutdown_def)
  have rd: "readRequest (\<lambda>_. Inr (demo_request, AtEOF)) [newline] = Inr demo_request"
    by (simp add: readRequest_def read_line_def v MaxRequestBytes_def)
  have "Server_handle (\<lambda>_. Inr (demo_request, AtEOF)) demo_handler ''abcdef01'' [newline] False =
      (RespStatus demo_status, True, True)"
    unfolding Server_handle_def rd
    by (simp add: demo_request_def demo_handler_def ActionStatus_def ActionRename_def ActionRotate_def)
  from handle_guarded [OF this] show ?thesis by auto
qed

text \<open>What goes wrong inside an operation is not disclosed to the peer: the response to a
  failed operation says only whether the instance is not ready yet.\<close>

theorem handle_errors_opaque:
  assumes "readRequest dec input = Inr r" and "q_InstanceID r = instanceID"
    and "Server_handle dec hnd instanceID input h = (RespError e, stop, h')"
  shows "e \<in> {\<lparr>ce_Code = CodeNotReady, ce_Message = ''wrap is not ready''\<rparr>,
              \<lparr>ce_Code = CodeInternal, ce_Message = ''Wrap operation failed''\<rparr>} \<and> \<not> stop"
  using assms
  by (auto simp: Server_handle_def respond_def responseError_def split: sum.splits prod.splits if_splits)

theorem handle_errors_opaque_witness:
  "fst (Server_handle (\<lambda>_. Inr (demo_request\<lparr>q_Action := ''rotate''\<rparr>, AtEOF)) demo_handler ''abcdef01'' [newline] False)
     = RespError \<lparr>ce_Code = CodeInternal, ce_Message = ''Wrap operation failed''\<rparr>"
proof -
  let ?r = "demo_request\<lparr>q_Action := ''rotate''\<rparr>"
  have v: "Request_validate ?r = None"
    by (simp add: Request_validate_def demo_request_def refusing_run_facts ActionRotate_def ActionStatus_def ActionShutdown_def)
  have rd: "readRequest (\<lambda>_. Inr (?r, AtEOF)) [newline] = Inr ?r"
    by (simp add: readRequest_def read_line_def v MaxRequestBytes_def)
  have h: "Server_handle (\<lambda>_. Inr (?r, AtEOF)) demo_handler ''abcdef01'' [newline] False =
      (RespError (responseError (Msg ''no'')), False, False)"
    unfolding Server_handle_def rd
    by (simp add: demo_request_def demo_handler_def ActionStatus_def ActionRename_def ActionRotate_def respond_def failE_apply)
  have "responseError (Msg ''no'') \<noteq> \<lparr>ce_Code = CodeNotReady, ce_Message = ''wrap is not ready''\<rparr>"
    by (simp add: responseError_def CodeInternal_def CodeNotReady_def)
  with handle_errors_opaque [OF rd _ h] show ?thesis unfolding h by (simp add: demo_request_def)
qed

end
