(* ===== verification/Instance_Invariant.thy ===== *)
theory Instance_Invariant
  imports Instance_Store
begin

text \<open>
  The invariant of the instance store: over any sequence of store and lease operations, by
  any number of processes and with any faults, the readable records have pairwise different
  IDs, names and tmux targets, and no name is another record's ID, so that a selector that
  names an instance exactly is never ambiguous.
\<close>

section \<open>What an operation keeps\<close>

text \<open>\<open>keeps v m\<close>: the operation \<open>m\<close> does not change the observation \<open>v\<close>, whatever it returns.\<close>

definition keeps :: "('w \<Rightarrow> 'v) \<Rightarrow> ('w, 'a) io \<Rightarrow> bool" where
  "keeps v m \<longleftrightarrow> (\<forall>w. v (snd (m w)) = v w)"

named_theorems keeps_intros \<open>operations that keep an observation\<close>

lemma keeps_returnE [keeps_intros]: "keeps v (returnE x)"
  and keeps_failE [keeps_intros]: "keeps v (failE e)"
  and keeps_liftE [keeps_intros]: "keeps v (liftE r)"
  and keeps_guardE [keeps_intros]: "keeps v (guardE b e)"
  by (simp_all add: keeps_def io_simps)

lemma keeps_reading [keeps_intros]: "keeps v (reading f)"
  by (simp add: keeps_def reading_def)

lemma keeps_bindE [keeps_intros]: "keeps v m \<Longrightarrow> (\<And>x. keeps v (f x)) \<Longrightarrow> keeps v (bindE m f)"
  unfolding keeps_def bindE_apply by (auto split: prod.splits sum.splits) (metis snd_conv)+

lemma keeps_tryE [keeps_intros]: "keeps v m \<Longrightarrow> (\<And>r. keeps v (f r)) \<Longrightarrow> keeps v (tryE m f)"
  unfolding keeps_def tryE_apply by (auto split: prod.splits) (metis snd_conv)

lemma keeps_wrapErr [keeps_intros]: "keeps v m \<Longrightarrow> keeps v (wrapErr s m)"
  unfolding wrapErr_def by (intro keeps_tryE) (auto split: sum.splits intro: keeps_failE keeps_returnE)

lemma keepsD: "keeps v m \<Longrightarrow> m w = (r, w') \<Longrightarrow> v w' = v w"
  unfolding keeps_def by (metis snd_conv)

text \<open>Observations of the files alone, and observations that do not depend on one path.\<close>

definition file_view :: "('c world \<Rightarrow> 'v) \<Rightarrow> bool" where
  "file_view v \<longleftrightarrow> (\<forall>w w'. lookup w = lookup w' \<longrightarrow> v w = v w')"

definition path_free :: "('c world \<Rightarrow> 'v) \<Rightarrow> string \<Rightarrow> bool" where
  "path_free v p \<longleftrightarrow> (\<forall>w w'. (\<forall>q. q \<noteq> p \<longrightarrow> lookup w q = lookup w' q) \<longrightarrow> v w = v w')"

lemma path_free_file_view: "path_free v p \<Longrightarrow> file_view v"
  by (auto simp: path_free_def file_view_def)

lemma path_free_put: "path_free v p \<Longrightarrow> v (put p n w) = v w"
  unfolding path_free_def by (metis lookup_put)

lemma path_free_del: "path_free v p \<Longrightarrow> v (del p w) = v w"
  unfolding path_free_def by (metis lookup_del)

lemma file_view_more:
  assumes "file_view v"
  shows "v (w_next_update f w) = v w" "v (w_locks_update g w) = v w" "v (w_faults_update h w) = v w"
    "v (w_now_update k w) = v w"
  using assms unfolding file_view_def by (metis (no_types, lifting) ext lookup_more)+

lemma keeps_fault [keeps_intros]: "file_view v \<Longrightarrow> keeps v fault"
  by (auto simp: keeps_def fault_def file_view_more split: list.splits option.splits)

lemma keeps_files [keeps_intros]:
  assumes "file_view v"
  shows "keeps v (Chmod p)" "keeps v CloseFile" "keeps v Sync" "keeps v (OpenRead p)" "keeps v (FlockNB i)"
    "keeps v (Unlock i)"
proof -
  note f = keeps_fault [OF assms] and m = file_view_more [OF assms]
  show "keeps v (Chmod p)" "keeps v CloseFile" "keeps v Sync"
    using f by (simp_all add: Chmod_def CloseFile_def Sync_def)
  show "keeps v (OpenRead p)" unfolding OpenRead_def
    by (rule keeps_bindE [OF f]) (auto simp: keeps_def split: option.splits node.splits)
  show "keeps v (FlockNB i)" unfolding FlockNB_def
    by (rule keeps_bindE [OF f]) (auto simp: keeps_def m)
  show "keeps v (Unlock i)"
    using f by (auto simp: keeps_def Unlock_def m split: prod.splits) (metis snd_conv)
qed

lemma keeps_path [keeps_intros]:
  assumes "path_free v p"
  shows "keeps v (OpenCreate p)" "keeps v (Remove p)" "keeps v (WriteFile p c)" "keeps v (MkdirAll p)"
proof -
  note f = keeps_fault [OF path_free_file_view [OF assms]]
    and m = path_free_put [OF assms] path_free_del [OF assms] file_view_more [OF path_free_file_view [OF assms]]
  show "keeps v (OpenCreate p)" unfolding OpenCreate_def
    by (rule keeps_bindE [OF f]) (auto simp: keeps_def m split: option.splits node.splits)
  show "keeps v (Remove p)" unfolding Remove_def
    by (rule keeps_bindE [OF f]) (auto simp: keeps_def m split: option.splits)
  show "keeps v (WriteFile p c)" unfolding WriteFile_def
    by (rule keeps_bindE [OF f]) (auto simp: keeps_def m split: option.splits node.splits)
  show "keeps v (MkdirAll p)" unfolding MkdirAll_def
    by (rule keeps_bindE [OF f]) (auto simp: keeps_def m split: option.splits node.splits)
qed

text \<open>Making a directory where nothing was.\<close>

definition mkdir_free :: "('c world \<Rightarrow> 'v) \<Rightarrow> bool" where
  "mkdir_free v \<longleftrightarrow> file_view v \<and> (\<forall>w p. lookup w p = None \<longrightarrow> v (put p Directory w) = v w)"

lemma keeps_MkdirAll: "mkdir_free v \<Longrightarrow> keeps v (MkdirAll p)"
  unfolding MkdirAll_def mkdir_free_def
  by (rule keeps_bindE, rule keeps_fault) (auto simp: keeps_def split: option.splits node.splits)

lemma keeps_mkdirPrivate [keeps_intros]: "mkdir_free v \<Longrightarrow> keeps v (mkdirPrivate p)"
proof -
  assume v: "mkdir_free v"
  then have f: "file_view v" by (simp add: mkdir_free_def)
  have "keeps v (\<lambda>w. case Lstat p w of Inl e \<Rightarrow> (Inl e, w)
      | Inr n \<Rightarrow> if \<not> is_dir n then (Inl (Msg ''private path is not a regular directory''), w)
                 else wrapErr ''protect private directory: '' (Chmod p) w)"
    using keeps_wrapErr [OF keeps_files(1) [OF f], of _ p]
    by (auto simp: keeps_def split: sum.splits)
  then show ?thesis unfolding mkdirPrivate_def
    by (intro keeps_bindE keeps_wrapErr keeps_MkdirAll v)
qed

section \<open>The records of a world\<close>

lemma idPattern_chars: "idPattern i \<Longrightarrow> c \<in> set i \<Longrightarrow> alnum c \<or> c = CHR ''_'' \<or> c = CHR ''-''"
  by (auto simp: idPattern_def list_all_iff split: list.splits)

lemma idPattern_no_sep: "idPattern i \<Longrightarrow> CHR ''/'' \<notin> set i \<and> CHR ''.'' \<notin> set i"
  using idPattern_chars [of i "CHR ''/''"] idPattern_chars [of i "CHR ''.''"]
  by (auto simp: alnum_def is_digit_def)

lemma idPattern_proper: "idPattern i \<Longrightarrow> CHR ''/'' \<notin> set t \<Longrightarrow> proper (i @ t)"
  using idPattern_no_sep [of i] idPattern_nonempty [of i] by (cases i) (auto simp: proper_def)

lemma InstancesDir_nonempty: "s_StateRoot s \<noteq> [] \<Longrightarrow> InstancesDir s \<noteq> []"
proof -
  assume "s_StateRoot s \<noteq> []"
  then have "Base (InstancesDir s) = ''instances''"
    unfolding InstancesDir_def by (rule Base_PathJoin) (simp add: proper_def)
  then show ?thesis by (auto simp: Base_def)
qed

lemma Base_record_path: "s_StateRoot s \<noteq> [] \<Longrightarrow> idPattern i \<Longrightarrow> Base (record_path s i) = i @ ''.json''"
  unfolding record_path_def
  by (rule Base_PathJoin) (simp_all add: InstancesDir_nonempty idPattern_proper)

lemma record_path_inj:
  "s_StateRoot s \<noteq> [] \<Longrightarrow> idPattern i \<Longrightarrow> idPattern j \<Longrightarrow> record_path s i = record_path s j \<Longrightarrow> i = j"
  by (metis Base_record_path append_same_eq)

text \<open>The record that is stored under an ID: what \<open>readAllUnlocked\<close> makes of its file.\<close>

definition stored :: "'c decoder \<Rightarrow> (rune \<Rightarrow> bool) \<Rightarrow> Store \<Rightarrow> 'c world \<Rightarrow> string \<Rightarrow> Record option" where
  "stored dec up s w i =
     (if idPattern i then case read_entry dec up s w (i @ ''.json'') of Inr r \<Rightarrow> Some r | Inl _ \<Rightarrow> None
      else None)"

definition decoded :: "'c decoder \<Rightarrow> (rune \<Rightarrow> bool) \<Rightarrow> string \<Rightarrow> 'c node option \<Rightarrow> Record option" where
  "decoded dec up i n =
     (case n of
        Some (Regular _ _ readable c) \<Rightarrow>
          if readable then
            (case dec c of
               Inr (r, AtEOF) \<Rightarrow> if Record_Validate up r = None \<and> r_ID r = i then Some r else None
             | _ \<Rightarrow> None)
          else None
      | _ \<Rightarrow> None)"

lemma stored_decoded:
  "stored dec up s w i = (if idPattern i then decoded dec up i (lookup w (record_path s i)) else None)"
  by (auto simp: stored_def decoded_def read_entry_def record_path_def Lstat_def ReadFile_def readRecord_def
      is_regular_def Let_def TrimSuffix_append split: option.splits node.splits sum.splits trailing.splits
      prod.splits if_splits)

lemma stored_ID: "stored dec up s w i = Some r \<Longrightarrow> r_ID r = i \<and> idPattern i \<and> Record_Validate up r = None"
  by (auto simp: stored_decoded decoded_def
      split: option.splits node.splits sum.splits trailing.splits prod.splits if_splits)

lemma stored_same_root:
  "s_StateRoot s = s_StateRoot s' \<Longrightarrow> stored dec up s w i = stored dec up s' w i"
  by (simp add: stored_decoded record_path_def InstancesDir_def)

definition record_file :: "string \<Rightarrow> bool" where
  "record_file p \<longleftrightarrow> (\<exists>i. idPattern i \<and> Base p = i @ ''.json'')"

lemma stored_path_free:
  assumes "s_StateRoot s \<noteq> []" and "\<not> record_file p"
  shows "path_free (stored dec up s) p"
proof -
  have "p \<noteq> record_path s i" if "idPattern i" for i
    using assms that by (auto simp: record_file_def Base_record_path)
  then show ?thesis unfolding path_free_def stored_decoded by (metis (mono_tags, lifting) ext)
qed

lemma stored_mkdir_free: "mkdir_free (stored dec up s)"
  by (auto simp: mkdir_free_def file_view_def stored_decoded decoded_def fun_eq_iff)

lemma stored_file_view: "file_view (stored dec up s)"
  using stored_mkdir_free by (auto simp: mkdir_free_def)

section \<open>Reading all records\<close>

lemma record_name_json: "idPattern i \<Longrightarrow> record_name (i @ ''.json'')"
  using idPattern_no_sep [of i] idPattern_nonempty [of i] HasSuffix_append [of i "''.json''"]
  by (cases i) (auto simp: record_name_def HasPrefix_def simp del: HasSuffix_append)

lemma read_entry_name:
  "record_name name \<Longrightarrow> read_entry dec up s w name = Inr r \<Longrightarrow> name = r_ID r @ ''.json'' \<and> idPattern (r_ID r)"
proof -
  assume n: "record_name name" and r: "read_entry dec up s w name = Inr r"
  then have "TrimSuffix name ''.json'' = r_ID r" "Record_Validate up r = None"
    by (auto simp: read_entry_def Let_def readRecord_def
        split: sum.splits if_splits option.splits trailing.splits prod.splits)
  moreover obtain t where "name = t @ ''.json''" using n by (auto simp: record_name_def HasSuffix_iff)
  ultimately show ?thesis by (auto simp: Record_Validate_def split: if_splits)
qed

lemma collect_entries_set:
  "r \<in> set (fst (collect_entries f names)) \<longleftrightarrow> (\<exists>name \<in> set names. record_name name \<and> f name = Inr r)"
  by (induction names) (auto split: prod.splits sum.splits)

lemma collect_entries_distinct:
  assumes "\<And>name r. record_name name \<Longrightarrow> f name = Inr r \<Longrightarrow> name = g (r_ID r)" and "distinct names"
  shows "distinct (map r_ID (fst (collect_entries f names)))"
  using assms(2)
proof (induction names)
  case (Cons name names)
  obtain rs ps where c: "collect_entries f names = (rs, ps)" by (rule prod.exhaust)
  have "r_ID r \<notin> r_ID ` set rs" if "record_name name" "f name = Inr r" for r
  proof
    assume "r_ID r \<in> r_ID ` set rs"
    then obtain q where q: "q \<in> set rs" "r_ID q = r_ID r" by auto
    then obtain n where "n \<in> set names" "record_name n" "f n = Inr q"
      using collect_entries_set [of q f names] c by auto
    then have "n = name" using assms(1) that q(2) by metis
    with \<open>n \<in> set names\<close> Cons.prems show False by simp
  qed
  with Cons c show ?case by (auto split: sum.splits)
qed simp

lemma readAll_stored:
  assumes "readAllUnlocked dec up s w = Inr (rs, ps)" and "s_StateRoot s \<noteq> []"
  shows "r \<in> set rs \<longleftrightarrow> stored dec up s w (r_ID r) = Some r" and "distinct (map r_ID rs)"
proof -
  let ?f = "read_entry dec up s w" and ?names = "child_names (InstancesDir s) w"
  obtain rs' where c: "collect_entries ?f ?names = (rs', ps)" and rs: "rs = sort_key (\<lambda>r. (r_Name r, r_ID r)) rs'"
    using assms(1) by (auto simp: readAllUnlocked_def ReadDir_def split: option.splits node.splits prod.splits)
  have "stored dec up s w (r_ID r) = Some r" if "n \<in> set ?names" "record_name n" "?f n = Inr r" for n
    using read_entry_name [OF that(2,3)] that(3) by (auto simp: stored_def)
  moreover have "\<exists>n \<in> set ?names. record_name n \<and> ?f n = Inr r" if st: "stored dec up s w (r_ID r) = Some r"
  proof -
    have i: "idPattern (r_ID r)" and f: "?f (r_ID r @ ''.json'') = Inr r"
      using st by (auto simp: stored_def split: if_splits sum.splits)
    have "lookup w (record_path s (r_ID r)) \<noteq> None"
      using st i by (auto simp: stored_decoded decoded_def split: option.splits)
    then have "r_ID r @ ''.json'' \<in> set ?names"
      using i InstancesDir_nonempty [OF assms(2)] idPattern_proper [OF i, of "''.json''"]
      by (simp add: set_child_names record_path_def)
    with i f record_name_json show ?thesis by blast
  qed
  ultimately show "r \<in> set rs \<longleftrightarrow> stored dec up s w (r_ID r) = Some r"
    using collect_entries_set [of r ?f ?names] c rs by auto
  have "distinct (map r_ID rs')"
    using collect_entries_distinct [of ?f "\<lambda>i. i @ ''.json''" ?names] read_entry_name c distinct_child_names
    by (metis fst_conv)
  then show "distinct (map r_ID rs)"
    using rs by (simp add: distinct_map)
qed

section \<open>Writing a record\<close>

lemma keeps_orClose [keeps_intros]: "file_view v \<Longrightarrow> keeps v m \<Longrightarrow> keeps v (orClose m)"
  unfolding orClose_def
  by (intro keeps_tryE) (auto split: sum.splits intro: keeps_tryE keeps_returnE keeps_failE keeps_files)

lemma temp_not_record:
  assumes "s_StateRoot s \<noteq> []" and "idPattern i"
  shows "\<not> record_file (PathJoin [InstancesDir s, temp_name i n])"
proof -
  have "CHR ''/'' \<notin> set (temp_name i n)"
    using idPattern_no_sep [OF assms(2)] itoa_not_sign [of "CHR ''/''" n] by (auto simp: temp_name_def)
  then have "proper (temp_name i n)" by (auto simp: proper_def temp_name_def)
  then have "Base (PathJoin [InstancesDir s, temp_name i n]) = temp_name i n"
    using InstancesDir_nonempty [OF assms(1)] by (intro Base_PathJoin)
  moreover have "temp_name i n \<noteq> j @ ''.json''" if "idPattern j" for j
    using that idPattern_no_sep [OF that] idPattern_nonempty [OF that] by (cases j) (auto simp: temp_name_def)
  ultimately show ?thesis by (auto simp: record_file_def)
qed

lemma lookup_file_view: "file_view (\<lambda>w. lookup w p)"
  by (simp add: file_view_def)

lemma fillTemp_content:
  assumes "fillTemp enc r p w = (Inr (), w')" and "lookup w p = Some (Regular a b True x)"
  shows "\<exists>a b c. enc r = Inr c \<and> lookup w' p = Some (Regular a b True (Some c))"
proof -
  let ?v = "\<lambda>w. lookup w p"
  note k = keeps_orClose [OF lookup_file_view keeps_files(1) [OF lookup_file_view]]
    keeps_orClose [OF lookup_file_view keeps_wrapErr [OF keeps_files(3) [OF lookup_file_view]]]
    keeps_wrapErr [OF keeps_files(2) [OF lookup_file_view]]
  let ?enc = "orClose (wrapErr ''encode instance record: '' (bindE (liftE (enc r)) (WriteFile p)))"
  obtain w1 where w1: "orClose (Chmod p) w = (Inr (), w1)"
    using assms(1) by (auto simp: fillTemp_def bindE_apply split: prod.splits sum.splits)
  obtain w2 where w2: "?enc w1 = (Inr (), w2)"
    using assms(1) w1 by (auto simp: fillTemp_def bindE_apply split: prod.splits sum.splits)
  obtain w3 where w3: "orClose (wrapErr ''sync instance record: '' Sync) w2 = (Inr (), w3)"
    using assms(1) w1 w2 by (auto simp: fillTemp_def bindE_apply split: prod.splits sum.splits)
  have w4: "wrapErr ''close instance record: '' CloseFile w3 = (Inr (), w')"
    using assms(1) w1 w2 w3 by (auto simp: fillTemp_def bindE_apply)
  have l1: "?v w1 = Some (Regular a b True x)" using keepsD [OF k(1) w1] assms(2) by simp
  obtain fr w1' where f: "fault w1 = (fr, w1')" by (rule prod.exhaust)
  then have "?v w1' = Some (Regular a b True x)" using l1 fault_lookup [of w1 p] by simp
  then obtain c where c: "enc r = Inr c" and "w2 = put p (Regular a (w_now w1') True (Some c)) w1'"
    using w2 f
    by (auto simp: orClose_def wrapErr_def WriteFile_def io_simps split: sum.splits prod.splits)
  then have "?v w2 = Some (Regular a (w_now w1') True (Some c))" by simp
  moreover have "?v w' = ?v w2" using keepsD [OF k(2) w3] keepsD [OF k(3) w4] by simp
  ultimately show ?thesis using c by auto
qed

lemma keeps_fillTemp: "path_free v p \<Longrightarrow> keeps v (fillTemp enc r p)"
  unfolding fillTemp_def
  by (intro keeps_bindE keeps_orClose keeps_wrapErr keeps_files keeps_liftE keeps_path)
     (simp_all add: path_free_file_view)

lemma Rename_view:
  assumes "s_StateRoot s \<noteq> []" "Record_Validate up r = None" "\<not> record_file p"
    and "lookup w p = Some (Regular a b True (Some c))" "dec (Some c) = Inr (r, AtEOF)"
    and "Rename p (record_path s (r_ID r)) w = (Inr (), w')"
  shows "stored dec up s w' = (stored dec up s w)(r_ID r \<mapsto> r)"
proof -
  obtain w1 where w1: "fault w = (Inr (), w1)"
    using assms(6) by (auto simp: Rename_def bindE_apply split: prod.splits sum.splits)
  then have l: "lookup w1 q = lookup w q" for q using fault_lookup [of w q] by simp
  have w': "w' = put (record_path s (r_ID r)) (Regular a b True (Some c)) (del p w1)"
    using assms(4,6) w1 l by (simp add: Rename_def bindE_apply)
  have i: "idPattern (r_ID r)" using assms(2) by (auto simp: Record_Validate_def split: if_splits)
  have ne: "record_path s j \<noteq> p" if "idPattern j" for j
    using assms(1,3) that by (auto simp: record_file_def Base_record_path)
  show ?thesis
  proof
    fix j
    show "stored dec up s w' j = ((stored dec up s w)(r_ID r \<mapsto> r)) j"
    proof (cases "j = r_ID r")
      case True
      with assms i show ?thesis by (simp add: stored_decoded decoded_def w')
    next
      case False
      with ne [of j] record_path_inj [OF assms(1), of j "r_ID r"] i l show ?thesis
        by (auto simp: stored_decoded w')
    qed
  qed
qed

lemma Rename_fails: "Rename p q w = (Inl e, w') \<Longrightarrow> file_view v \<Longrightarrow> v w' = v w"
proof -
  assume r: "Rename p q w = (Inl e, w')" and v: "file_view v"
  then have "w' = snd (fault w)"
    by (auto simp: Rename_def bindE_apply split: prod.splits sum.splits option.splits)
  then show ?thesis using keeps_fault [OF v] by (simp add: keeps_def)
qed

lemma installTemp_view:
  assumes "s_StateRoot s \<noteq> []" "Record_Validate up r = None" "\<not> record_file p"
    and "lookup w p = Some (Regular a b True (Some c))" "dec (Some c) = Inr (r, AtEOF)"
  shows "stored dec up s (snd (installTemp p (record_path s (r_ID r)) w)) \<in>
    {stored dec up s w, (stored dec up s w)(r_ID r \<mapsto> r)}"
proof -
  let ?v = "stored dec up s"
  let ?rest = "bindE (wrapErr ''open instance directory: '' fault) (\<lambda>_.
     tryE (wrapErr ''sync instance directory: '' Sync) (\<lambda>r. tryE CloseFile (\<lambda>_. liftE r)))"
  have k: "keeps ?v ?rest"
    by (intro keeps_bindE keeps_tryE keeps_wrapErr keeps_fault keeps_files keeps_liftE stored_file_view)
  obtain res w' where r: "Rename p (record_path s (r_ID r)) w = (res, w')" by (rule prod.exhaust)
  show ?thesis
  proof (cases res)
    case (Inl e)
    then show ?thesis using Rename_fails [OF r [unfolded Inl] stored_file_view] r
      by (simp add: installTemp_def wrapErr_def io_simps)
  next
    case (Inr u)
    then have "?v w' = (?v w)(r_ID r \<mapsto> r)" using Rename_view [where dec = dec, OF assms] r by simp
    moreover have "?v (snd (installTemp p (record_path s (r_ID r)) w)) = ?v w'"
      using k r Inr by (simp add: installTemp_def wrapErr_def bindE_apply tryE_apply returnE_apply keeps_def)
    ultimately show ?thesis by simp
  qed
qed

lemma CreateTemp_result:
  assumes "CreateTemp d i w = (Inr p, w')"
  shows "\<exists>n a b. p = PathJoin [d, temp_name i n] \<and> lookup w' p = Some (Regular a b True None)"
  using assms by (auto simp: CreateTemp_def bindE_apply Let_def split: prod.splits sum.splits option.splits)

lemma CreateTemp_view:
  assumes "\<And>n. path_free v (PathJoin [d, temp_name i n])"
  shows "keeps v (CreateTemp d i)"
proof -
  have f: "file_view v" using assms path_free_file_view by blast
  show ?thesis unfolding CreateTemp_def
    by (rule keeps_bindE [OF keeps_fault [OF f]])
       (auto simp: keeps_def Let_def path_free_put [OF assms] file_view_more [OF f] split: option.splits)
qed

lemma orRemove_view: "path_free v p \<Longrightarrow> v (snd (orRemove p m w)) = v (snd (m w))"
proof -
  assume "path_free v p"
  then have k: "keeps v (tryE (Remove p) (\<lambda>_. failE e))" for e
    by (intro keeps_tryE keeps_path keeps_failE)
  show ?thesis
    using k by (auto simp: orRemove_def tryE_apply [of m] keeps_def returnE_apply split: prod.splits sum.splits)
qed

lemma writeAtomic_view:
  assumes "s_StateRoot s \<noteq> []" "Record_Validate up r = None"
    and "\<And>c. enc r = Inr c \<Longrightarrow> dec (Some c) = Inr (r, AtEOF)"
  shows "stored dec up s (snd (writeAtomic enc s r replace w)) \<in>
    {stored dec up s w, (stored dec up s w)(r_ID r \<mapsto> r)}"
proof -
  let ?v = "stored dec up s" and ?path = "record_path s (r_ID r)"
  define wr where "wr = bindE (wrapErr ''create temporary instance record: ''
    (CreateTemp (InstancesDir s) (r_ID r)))
    (\<lambda>tempPath. orRemove tempPath (bindE (fillTemp enc r tempPath) (\<lambda>_. installTemp tempPath ?path)))"
  have i: "idPattern (r_ID r)" using assms(2) by (auto simp: Record_Validate_def split: if_splits)
  have free: "path_free ?v (PathJoin [InstancesDir s, temp_name (r_ID r) n])" for n
    by (rule stored_path_free [OF assms(1) temp_not_record [OF assms(1) i]])
  have "?v (snd (wr w)) \<in> {?v w, (?v w)(r_ID r \<mapsto> r)}" for w
  proof -
    obtain res w1 where c: "CreateTemp (InstancesDir s) (r_ID r) w = (res, w1)" by (rule prod.exhaust)
    have v1: "?v w1 = ?v w" by (rule keepsD [OF CreateTemp_view [OF free] c])
    show ?thesis
    proof (cases res)
      case (Inl e)
      then show ?thesis using c v1 by (simp add: wr_def wrapErr_def io_simps)
    next
      case (Inr p)
      obtain n a b where p: "p = PathJoin [InstancesDir s, temp_name (r_ID r) n]"
          "lookup w1 p = Some (Regular a b True None)"
        using CreateTemp_result [OF c [unfolded Inr]] by blast
      have fp: "path_free ?v p" "\<not> record_file p"
        using free temp_not_record [OF assms(1) i] p(1) by auto
      obtain fr w2 where f: "fillTemp enc r p w1 = (fr, w2)" by (rule prod.exhaust)
      have v2: "?v w2 = ?v w1" by (rule keepsD [OF keeps_fillTemp [OF fp(1)] f])
      have "?v (snd (wr w)) = ?v (snd (bindE (fillTemp enc r p) (\<lambda>_. installTemp p ?path) w1))"
        using c Inr orRemove_view [OF fp(1)] by (simp add: wr_def wrapErr_def bindE_apply [of "tryE _ _"]
            tryE_apply returnE_apply)
      also have "\<dots> \<in> {?v w, (?v w)(r_ID r \<mapsto> r)}"
      proof (cases fr)
        case Inl
        then show ?thesis using f v1 v2 by (simp add: bindE_apply)
      next
        case (Inr u)
        then have "fillTemp enc r p w1 = (Inr (), w2)" using f by simp
        from fillTemp_content [OF this p(2)] assms(3) obtain a b c where
          "lookup w2 p = Some (Regular a b True (Some c))" "dec (Some c) = Inr (r, AtEOF)" by auto
        from installTemp_view [where dec = dec, OF assms(1,2) fp(2) this] show ?thesis
          using f Inr v1 v2 by (simp add: bindE_apply)
      qed
      finally show ?thesis .
    qed
  qed
  then show ?thesis
    unfolding writeAtomic_def Let_def wr_def [symmetric] by (auto split: sum.splits)
qed

section \<open>Locked operations\<close>

lemma lock_not_record: "s_StateRoot s \<noteq> [] \<Longrightarrow> \<not> record_file (PathJoin [InstancesDir s, ''.lock''])"
proof -
  assume "s_StateRoot s \<noteq> []"
  then have "Base (PathJoin [InstancesDir s, ''.lock'']) = ''.lock''"
    by (intro Base_PathJoin InstancesDir_nonempty) (simp_all add: proper_def)
  moreover have "''.lock'' \<noteq> j @ ''.json''" for j :: string
    by (auto simp: append_eq_Cons_conv Cons_eq_append_conv)
  ultimately show ?thesis by (auto simp: record_file_def)
qed

lemma keeps_store_lock: "keeps (stored dec up s) (store_lock s)"
proof (cases "s_StateRoot s = []")
  case True
  then show ?thesis by (simp add: store_lock_def keeps_def io_simps)
next
  case False
  then have "path_free (stored dec up s) (PathJoin [InstancesDir s, ''.lock''])"
    by (intro stored_path_free lock_not_record)
  moreover have "keeps (stored dec up s) (if b then mkdirPrivate p else returnE ())" for b p
    by (simp add: keeps_mkdirPrivate [OF stored_mkdir_free] keeps_returnE)
  ultimately show ?thesis unfolding store_lock_def
    by (intro keeps_bindE keeps_guardE keeps_mkdirPrivate keeps_wrapErr keeps_path keeps_fault
        stored_mkdir_free stored_file_view)
qed

lemma locked_view:
  fixes m :: "('c world, 'b) io"
  shows "stored dec up s (snd (locked s m w)) = stored dec up s w \<or>
   (\<exists>w1. s_StateRoot s \<noteq> [] \<and> stored dec up s w1 = stored dec up s w
      \<and> stored dec up s (snd (locked s m w)) = stored dec up s (snd (m w1)))"
proof -
  let ?v = "stored dec up s"
  obtain r w1 where l: "store_lock s w = (r, w1)" by (rule prod.exhaust)
  have v1: "?v w1 = ?v w" by (rule keepsD [OF keeps_store_lock l])
  show ?thesis
  proof (cases r)
    case Inl
    then show ?thesis using l v1 by (simp add: locked_def bindE_apply)
  next
    case (Inr u)
    have "s_StateRoot s \<noteq> []"
      using l Inr by (auto simp: store_lock_def io_simps)
    moreover have "keeps ?v (tryE fault (\<lambda>_. tryE CloseFile (\<lambda>_. liftE x)))" for x :: "gerror + 'b"
      by (intro keeps_tryE keeps_fault keeps_files keeps_liftE stored_file_view)
    then have "?v (snd (locked s m w)) = ?v (snd (m w1))"
      using l Inr by (simp add: locked_def bindE_apply tryE_apply [of m] keeps_def split: prod.splits)
    ultimately show ?thesis using v1 by blast
  qed
qed

lemma keeps_locked: "keeps (stored dec up s) m \<Longrightarrow> keeps (stored dec up s) (locked s m)"
  unfolding keeps_def using locked_view [of dec up s m] by metis

section \<open>The invariant\<close>

text \<open>Pairwise different names and targets, and no name is another record's ID.\<close>

definition unique_view :: "(Target \<Rightarrow> string) \<Rightarrow> (string \<Rightarrow> Record option) \<Rightarrow> bool" where
  "unique_view key v \<longleftrightarrow> (\<forall>i j r q. v i = Some r \<longrightarrow> v j = Some q \<longrightarrow> i \<noteq> j \<longrightarrow>
     r_Name r \<noteq> r_Name q \<and> r_Name r \<noteq> j \<and> key (r_Target r) \<noteq> key (r_Target q))"

lemma first_error_None: "first_error f xs = None \<longleftrightarrow> (\<forall>x \<in> set xs. f x = None)"
  by (induction xs) (auto split: option.splits)

text \<open>
  What the store relies on from \<open>encoding/json\<close>: a record whose strings are valid UTF-8 is
  decoded to itself with nothing after it, and decoded strings are valid UTF-8.
\<close>

definition utf8_record :: "Record \<Rightarrow> bool" where
  "utf8_record r \<longleftrightarrow> list_all ValidString
     [r_ID r, r_Name r, r_ControlSocket r, r_Directory r, tg_SocketPath (r_Target r),
      tg_Generation (r_Target r), tg_SessionID (r_Target r), tg_WindowID (r_Target r),
      tg_SessionName (r_Target r), tg_WindowName (r_Target r), tg_Directory (r_Target r)]"

definition json_codec :: "'c encoder \<Rightarrow> 'c decoder \<Rightarrow> bool" where
  "json_codec enc dec \<longleftrightarrow>
     (\<forall>r c. utf8_record r \<longrightarrow> enc r = Inr c \<longrightarrow> dec (Some c) = Inr (r, AtEOF)) \<and>
     (\<forall>x r rest. dec x = Inr (r, rest) \<longrightarrow> utf8_record r)"

lemma stored_utf8: "json_codec enc dec \<Longrightarrow> stored dec up s w i = Some r \<Longrightarrow> utf8_record r"
  unfolding stored_decoded decoded_def json_codec_def
  by (auto split: option.splits node.splits sum.splits trailing.splits prod.splits if_splits) blast

lemma find_SomeD: "find P xs = Some x \<Longrightarrow> x \<in> set xs \<and> P x"
  by (induction xs) (auto split: if_splits)

lemma Create_view:
  assumes "json_codec enc dec" and "utf8_record r" and "unique_view key (stored dec up s w)"
  shows "unique_view key (stored dec up s (snd (Store_Create enc dec up key s r w)))"
proof -
  let ?v = "stored dec up s"
  let ?m = "bindE (reading (readAllUnlocked dec up s)) (\<lambda>(records, _).
    case first_error (collision key r) records of Some e \<Rightarrow> failE e | None \<Rightarrow> writeAtomic enc s r False)"
  have "unique_view key (?v (snd (?m w1)))"
    if valid: "Record_Validate up r = None" and s: "s_StateRoot s \<noteq> []" and v1: "?v w1 = ?v w" for w1
  proof (cases "readAllUnlocked dec up s w1")
    case (Inl e)
    then show ?thesis using assms(3) v1 by (simp add: bindE_apply reading_def)
  next
    case (Inr rp)
    obtain rs ps where rp: "rp = (rs, ps)" by (rule prod.exhaust)
    show ?thesis
    proof (cases "first_error (collision key r) rs")
      case (Some e)
      then show ?thesis using Inr rp assms(3) v1 by (simp add: bindE_apply reading_def failE_apply)
    next
      case None
      have read: "q \<in> set rs" if "?v w1 j = Some q" for j q
        using readAll_stored(1) [OF Inr [unfolded rp] s, of q] that stored_ID [OF that] by simp
      have apart: "r_Name q \<noteq> r_Name r \<and> j \<noteq> r_Name r \<and> r_Name q \<noteq> r_ID r
          \<and> key (r_Target q) \<noteq> key (r_Target r)" if "?v w1 j = Some q" for j q
        using None read [OF that] stored_ID [OF that]
        by (auto simp: first_error_None collision_def split: if_splits)
      have "?v (snd (writeAtomic enc s r False w1)) \<in> {?v w1, (?v w1)(r_ID r \<mapsto> r)}"
        using assms(1,2) by (intro writeAtomic_view s valid) (auto simp: json_codec_def)
      moreover have "unique_view key ((?v w1)(r_ID r \<mapsto> r))"
        using assms(3) [folded v1] apart unfolding unique_view_def by (auto split: if_splits) metis+
      ultimately have "unique_view key (?v (snd (writeAtomic enc s r False w1)))"
        using assms(3) v1 by auto
      then show ?thesis using None Inr rp by (simp add: bindE_apply reading_def)
    qed
  qed
  then show ?thesis
    using locked_view [of dec up s ?m w] assms(3)
    by (cases "Record_Validate up r") (auto simp: Store_Create_def failE_apply)
qed

lemma ValidateName_Validate:
  "Record_Validate up r = None \<Longrightarrow> ValidateName up n = None \<Longrightarrow> Record_Validate up (r\<lparr>r_Name := n\<rparr>) = None"
  by (auto simp: Record_Validate_def split: if_splits option.splits)

lemma utf8_rename: "utf8_record r \<Longrightarrow> ValidateName up n = None \<Longrightarrow> utf8_record (r\<lparr>r_Name := n\<rparr>)"
  by (auto simp: utf8_record_def ValidateName_def split: if_splits)

lemma Rename_op_view:
  assumes "json_codec enc dec" and "unique_view key (stored dec up s w)"
  shows "unique_view key (stored dec up s (snd (RenameIfPID enc dec up s i pid name w)))"
proof -
  let ?v = "stored dec up s"
  let ?m = "bindE (reading (readAllUnlocked dec up s)) (\<lambda>(records, _).
    case first_error (rename_clash i name) records of Some e \<Rightarrow> failE e
    | None \<Rightarrow> (case find_current i pid records of None \<Rightarrow> returnE False
       | Some current \<Rightarrow> bindE (writeAtomic enc s (current\<lparr>r_Name := name\<rparr>) True) (\<lambda>_. returnE True)))"
  have "unique_view key (?v (snd (?m w1)))"
    if valid: "ValidateName up name = None" and s: "s_StateRoot s \<noteq> []" and v1: "?v w1 = ?v w" for w1
  proof (cases "readAllUnlocked dec up s w1")
    case (Inl e)
    then show ?thesis using assms(2) v1 by (simp add: bindE_apply reading_def)
  next
    case (Inr rp)
    obtain rs ps where rp: "rp = (rs, ps)" by (rule prod.exhaust)
    note rd = readAll_stored(1) [OF Inr [unfolded rp] s]
    show ?thesis
    proof (cases "first_error (rename_clash i name) rs = None \<and> (\<exists>c. find_current i pid rs = Some c)")
      case False
      then show ?thesis using Inr rp assms(2) v1
        by (auto simp: bindE_apply reading_def failE_apply returnE_apply split: option.splits)
    next
      case True
      then obtain c where none: "first_error (rename_clash i name) rs = None" and c: "find_current i pid rs = Some c"
        by blast
      then have cs: "c \<in> set rs" "r_ID c = i" by (auto simp: find_current_def dest!: find_SomeD)
      then have vc: "?v w1 i = Some c" using rd [of c] by simp
      have apart: "r_Name q \<noteq> name \<and> j \<noteq> name" if "?v w1 j = Some q" "j \<noteq> i" for j q
        using none rd [of q] stored_ID [OF that(1)] that
        by (auto simp: first_error_None rename_clash_def split: if_splits)
      let ?c = "c\<lparr>r_Name := name\<rparr>"
      have u: "utf8_record ?c" "Record_Validate up ?c = None"
        using stored_utf8 [OF assms(1) vc] stored_ID [OF vc] utf8_rename valid ValidateName_Validate by blast+
      have "?v (snd (writeAtomic enc s ?c True w1)) \<in> {?v w1, (?v w1)(r_ID ?c \<mapsto> ?c)}"
        using assms(1) u by (intro writeAtomic_view s) (auto simp: json_codec_def)
      moreover have "unique_view key ((?v w1)(i \<mapsto> ?c))"
        using assms(2) [folded v1] apart vc unfolding unique_view_def by (auto split: if_splits) metis+
      ultimately have "unique_view key (?v (snd (writeAtomic enc s ?c True w1)))"
        using assms(2) v1 cs(2) by auto
      then show ?thesis using none c Inr rp
        by (auto simp: bindE_apply reading_def returnE_apply split: prod.splits sum.splits)
    qed
  qed
  then show ?thesis
    using locked_view [of dec up s ?m w] assms(2)
    by (cases "ValidateName up name") (auto simp: RenameIfPID_def failE_apply bindE_apply guardE_apply)
qed

section \<open>Removal, leases and pruning\<close>

lemma removeRecord_view:
  assumes "s_StateRoot s \<noteq> []" and "idPattern i"
  shows "stored dec up s (snd (removeRecord (record_path s i) w)) \<in>
    {stored dec up s w, (stored dec up s w)(i := None)}"
proof -
  let ?v = "stored dec up s" and ?p = "record_path s i"
  have gone: "?v (del ?p w) = (?v w)(i := None)" for w
  proof
    fix j
    show "?v (del ?p w) j = ((?v w)(i := None)) j"
      using record_path_inj [OF assms(1), of j i] assms(2) by (auto simp: stored_decoded decoded_def)
  qed
  obtain r w1 where f: "fault w = (r, w1)" by (rule prod.exhaust)
  have "?v w1 = ?v w" by (rule keepsD [OF keeps_fault [OF stored_file_view] f])
  then show ?thesis using f gone [of w1]
    by (auto simp: removeRecord_def Remove_def io_simps split: sum.splits option.splits)
qed

lemma unique_view_remove: "unique_view key v \<Longrightarrow> unique_view key (v(i := None))"
  unfolding unique_view_def by (auto split: if_splits)

lemma Remove_op_view:
  assumes "unique_view key (stored dec up s w)"
  shows "unique_view key (stored dec up s (snd (Store_Remove s i w)))"
proof (cases "idPattern i")
  case True
  then show ?thesis
    using locked_view [of dec up s "removeRecord (record_path s i)" w] assms
      removeRecord_view [of s i dec up] unique_view_remove [OF assms, of i]
    by (auto simp: Store_Remove_def bindE_apply guardE_apply) (metis insertE singletonD)+
qed (use assms in \<open>simp add: Store_Remove_def io_simps\<close>)

lemma RemoveIfPID_view:
  assumes "unique_view key (stored dec up s w)"
  shows "unique_view key (stored dec up s (snd (RemoveIfPID dec up s i pid w)))"
proof (cases "idPattern i \<and> \<not> pid \<le> 0")
  case True
  define m :: "('a world, bool) io" where "m = (\<lambda>w.
       let path = record_path s i in
       case Lstat path w of
         Inl e \<Rightarrow> if errors_is e ErrNotExist then (Inr False, w)
                  else (Inl (Wrapf ''inspect instance record: '' e), w)
       | Inr n \<Rightarrow>
           if \<not> is_regular n then (Inl (Msg ''instance record is not a regular file''), w)
           else (case readRecord dec up path w of
             Inl e \<Rightarrow> (Inl e, w)
           | Inr r \<Rightarrow>
               if r_ID r \<noteq> i \<or> r_PID r \<noteq> pid then (Inr False, w)
               else bindE (removeRecord path) (\<lambda>_. returnE True) w))"
  have "snd (bindE (removeRecord p) (\<lambda>_. returnE True) w1) = snd (removeRecord p w1)" for p and w1 :: "'a world"
    by (auto simp: bindE_apply returnE_apply split: prod.splits sum.splits)
  then have "snd (m w1) = w1 \<or> snd (m w1) = snd (removeRecord (record_path s i) w1)" for w1
    by (auto simp: m_def Let_def split: sum.splits)
  then have "s_StateRoot s \<noteq> [] \<Longrightarrow> stored dec up s (snd (m w1)) \<in>
      {stored dec up s w1, (stored dec up s w1)(i := None)}" for w1
    using removeRecord_view [of s i dec up w1] True by (metis insertI1)
  moreover have "RemoveIfPID dec up s i pid w = locked s m w"
    using True by (simp add: RemoveIfPID_def bindE_apply guardE_apply m_def)
  ultimately show ?thesis
    using locked_view [of dec up s m w] assms unique_view_remove [OF assms, of i]
    by auto (metis insertE singletonD)+
qed (use assms in \<open>auto simp: RemoveIfPID_def io_simps\<close>)

lemma Base_lease_path: "s_RuntimeRoot s \<noteq> [] \<Longrightarrow> idPattern i \<Longrightarrow> Base (lease_path s i) = i @ ''.lease''"
  unfolding lease_path_def by (rule Base_PathJoin) (simp_all add: idPattern_proper)

lemma suffix_not_json:
  assumes "Base p = i @ t" and "t \<noteq> []" and "last t \<noteq> CHR ''n''"
  shows "\<not> record_file p"
proof
  assume "record_file p"
  then obtain j where "Base p = j @ ''.json''" by (auto simp: record_file_def)
  with assms(1) have "last (i @ t) = last (j @ ''.json'')" by simp
  with assms(2,3) show False by simp
qed

lemma lease_not_record: "s_RuntimeRoot s \<noteq> [] \<Longrightarrow> idPattern i \<Longrightarrow> \<not> record_file (lease_path s i)"
  by (rule suffix_not_json [OF Base_lease_path]) simp_all

lemma diagnostic_not_record:
  assumes "s_StateRoot s \<noteq> []" and "idPattern i" and "t \<in> {''.jsonl'', ''.jsonl.1''}"
  shows "\<not> record_file (diagnostic_path s i t)"
proof -
  have "Base (DiagnosticsDir s) = ''diagnostics''"
    unfolding DiagnosticsDir_def using assms(1) by (intro Base_PathJoin) (simp_all add: proper_def)
  then have "DiagnosticsDir s \<noteq> []" by (auto simp: Base_def)
  then have "Base (diagnostic_path s i t) = i @ t"
    unfolding diagnostic_path_def using assms by (intro Base_PathJoin idPattern_proper) auto
  then show ?thesis by (rule suffix_not_json) (use assms(3) in auto)
qed

lemma keeps_AcquireLease:
  fixes dec :: "'a decoder"
  shows "s_StateRoot s \<noteq> [] \<Longrightarrow> keeps (stored dec up s) (AcquireLease s i)"
proof (cases "idPattern i \<and> s_RuntimeRoot s \<noteq> []")
  case True
  assume s: "s_StateRoot s \<noteq> []"
  have p: "path_free (stored dec up s) (lease_path s i)"
    using True by (intro stored_path_free s lease_not_record) simp_all
  define opened :: "('a world, Lease) io" where "opened = bindE (wrapErr ''open instance lease: '' (OpenCreate (lease_path s i))) (\<lambda>inode.
           bindE (wrapErr ''inspect open instance lease: '' fault) (\<lambda>_.
           bindE (wrapErr ''lock instance lease: '' (FlockNB inode)) (\<lambda>locked.
           if locked then returnE \<lparr>l_file = Some inode\<rparr> else failE (Sentinel ErrLeaseHeld))))"
  have br: "keeps (stored dec up s) (if b then returnE x else failE e)" for b x e
    by (simp add: keeps_returnE keeps_failE)
  have k: "keeps (stored dec up s) opened" unfolding opened_def
    by (intro keeps_bindE keeps_wrapErr keeps_path p keeps_fault keeps_files stored_file_view br)
  have "keeps (stored dec up s) (\<lambda>w. case Lstat (lease_path s i) w of
          Inr n \<Rightarrow> if \<not> is_regular n then (Inl (Msg ''instance lease is not a regular file''), w) else opened w
        | Inl e \<Rightarrow> if \<not> errors_is e ErrNotExist then (Inl (Wrapf ''inspect instance lease: '' e), w) else opened w)"
    using k by (auto simp: keeps_def split: sum.splits)
  then show ?thesis unfolding AcquireLease_def Let_def opened_def [symmetric]
    by (intro keeps_bindE keeps_guardE keeps_mkdirPrivate stored_mkdir_free)
qed (auto simp: AcquireLease_def keeps_def io_simps)

lemma keeps_Lease_Close: "keeps (stored dec up s) (Lease_Close l)"
  using keeps_files(2,6) [OF stored_file_view, where ?dec1 = dec and ?up1 = up and ?s1 = s]
  by (auto simp: keeps_def Lease_Close_def split: option.splits prod.splits) (metis snd_conv)+

lemma keeps_LeaseHeld:
  fixes dec :: "'a decoder"
  shows "keeps (stored dec up s) (LeaseHeld s i)"
proof -
  define probe :: "('a world, bool) io" where "probe = bindE (wrapErr ''open instance lease: '' (OpenRead (lease_path s i))) (\<lambda>inode.
              bindE (wrapErr ''probe instance lease: '' (FlockNB inode)) (\<lambda>locked.
              if \<not> locked then returnE True
              else bindE (Unlock inode) (\<lambda>_. returnE False)))"
  have br: "keeps (stored dec up s) (if b then returnE True else bindE (Unlock n) (\<lambda>_. returnE False))" for b n
    by (cases b) (simp_all add: keeps_returnE, intro keeps_bindE keeps_files stored_file_view keeps_returnE)
  have "keeps (stored dec up s) probe" unfolding probe_def
    by (intro keeps_bindE keeps_wrapErr keeps_files stored_file_view br)
  then show ?thesis unfolding LeaseHeld_def Let_def probe_def [symmetric]
    by (intro keeps_bindE keeps_guardE) (auto simp: keeps_def split: sum.splits)
qed

lemma keeps_removeRegularArtifact: "path_free v p \<Longrightarrow> keeps v (removeRegularArtifact p)"
  using keeps_path(2) by (auto simp: keeps_def removeRegularArtifact_def split: sum.splits)

lemma keeps_removeLeaseFile: "path_free v p \<Longrightarrow> keeps v (removeLeaseFile p l)"
proof -
  assume p: "path_free v p"
  then have "keeps v (\<lambda>w. case Lstat p w of
       Inl e \<Rightarrow> if errors_is e ErrNotExist then (Inr (), w) else (Inl e, w)
     | Inr n \<Rightarrow> if inode_of n \<noteq> l_file l then (Inl (Msg ''completed instance lease identity changed''), w)
                else Remove p w)"
    using keeps_path(2) by (auto simp: keeps_def split: sum.splits)
  with p show ?thesis unfolding removeLeaseFile_def by (intro keeps_bindE keeps_fault path_free_file_view)
qed

lemma AcquireLease_ok: "AcquireLease s i w = (Inr l, w') \<Longrightarrow> idPattern i \<and> s_RuntimeRoot s \<noteq> []"
  by (auto simp: AcquireLease_def io_simps split: if_splits)

lemma keeps_prune: "s_StateRoot s \<noteq> [] \<Longrightarrow> keeps (stored dec up s) (pruneCompletedArtifact s i)"
proof -
  assume s: "s_StateRoot s \<noteq> []"
  let ?v = "stored dec up s"
  have lift: "keeps ?v (liftE x)" for x :: "gerror + unit" by (rule keeps_liftE)
  have "?v (snd (pruneCompletedArtifact s i w)) = ?v w" for w
  proof -
    obtain r w1 where a: "AcquireLease s i w = (r, w1)" by (rule prod.exhaust)
    have v1: "?v w1 = ?v w" by (rule keepsD [OF keeps_AcquireLease [OF s] a])
    show ?thesis
    proof (cases r)
      case (Inl e)
      then show ?thesis using a v1 by (simp add: pruneCompletedArtifact_def io_simps)
    next
      case (Inr lease)
      with a have ok: "idPattern i" "s_RuntimeRoot s \<noteq> []" using AcquireLease_ok by blast+
      have p: "path_free ?v (diagnostic_path s i ''.jsonl'')" "path_free ?v (diagnostic_path s i ''.jsonl.1'')"
          "path_free ?v (lease_path s i)"
        using ok by (intro stored_path_free s diagnostic_not_record lease_not_record; simp)+
      let ?rest = "tryE (removeRegularArtifact (diagnostic_path s i ''.jsonl'')) (\<lambda>e1.
         tryE (removeRegularArtifact (diagnostic_path s i ''.jsonl.1'')) (\<lambda>e2.
         tryE (removeLeaseFile (lease_path s i) lease) (\<lambda>e3.
         tryE (Lease_Close lease) (\<lambda>e4.
         liftE (result_of (errors_join [errors_join [errors_join [err_of e1, err_of e2], err_of e3], err_of e4]))))))"
      have "keeps ?v ?rest"
        by (intro keeps_tryE keeps_removeRegularArtifact keeps_removeLeaseFile keeps_Lease_Close lift p)
      then show ?thesis using a Inr v1
        by (simp add: pruneCompletedArtifact_def tryE_apply [of "AcquireLease s i"] keeps_def)
    qed
  qed
  then show ?thesis by (simp add: keeps_def)
qed

lemma keeps_prune_all: "s_StateRoot s \<noteq> [] \<Longrightarrow> keeps (stored dec up s) (prune_all s is e)"
  by (induction "is" arbitrary: e) (auto intro: keeps_liftE keeps_tryE keeps_prune)

lemma keeps_PruneCompletedArtifacts:
  "s_StateRoot s \<noteq> [] \<Longrightarrow> keeps (stored dec up s) (PruneCompletedArtifacts dec up s n)"
  unfolding PruneCompletedArtifacts_def
  by (intro keeps_bindE keeps_guardE keeps_locked keeps_reading keeps_prune_all)

lemma keeps_ReadAll: "keeps (stored dec up s) (ReadAll dec up s)"
  unfolding ReadAll_def by (intro keeps_locked keeps_reading)

lemma keeps_Resolve: "keeps (stored dec up s) (Resolve dec up s sel)"
  unfolding Resolve_def by (intro keeps_bindE keeps_ReadAll) (auto intro: keeps_liftE)

section \<open>Any sequence of operations\<close>

text \<open>
  One step: an operation of some process, whose store has the same state root and any
  runtime root, or a change of the environment (time passes, faults come up, processes
  end and their locks with them). A record that is created has UTF-8 strings.
\<close>

inductive store_step ::
    "'c encoder \<Rightarrow> 'c decoder \<Rightarrow> (rune \<Rightarrow> bool) \<Rightarrow> (Target \<Rightarrow> string) \<Rightarrow> string \<Rightarrow> 'c world \<Rightarrow> 'c world \<Rightarrow> bool"
  for enc dec up key root where
  step_create: "s_StateRoot s = root \<Longrightarrow> utf8_record r \<Longrightarrow>
     store_step enc dec up key root w (snd (Store_Create enc dec up key s r w))"
| step_rename: "s_StateRoot s = root \<Longrightarrow>
     store_step enc dec up key root w (snd (RenameIfPID enc dec up s i pid name w))"
| step_read: "s_StateRoot s = root \<Longrightarrow> store_step enc dec up key root w (snd (ReadAll dec up s w))"
| step_resolve: "s_StateRoot s = root \<Longrightarrow> store_step enc dec up key root w (snd (Resolve dec up s sel w))"
| step_remove: "s_StateRoot s = root \<Longrightarrow> store_step enc dec up key root w (snd (Store_Remove s i w))"
| step_remove_pid: "s_StateRoot s = root \<Longrightarrow>
     store_step enc dec up key root w (snd (RemoveIfPID dec up s i pid w))"
| step_prune: "s_StateRoot s = root \<Longrightarrow>
     store_step enc dec up key root w (snd (PruneCompletedArtifacts dec up s n w))"
| step_acquire: "s_StateRoot s = root \<Longrightarrow> store_step enc dec up key root w (snd (AcquireLease s i w))"
| step_held: "s_StateRoot s = root \<Longrightarrow> store_step enc dec up key root w (snd (LeaseHeld s i w))"
| step_close: "store_step enc dec up key root w (snd (Lease_Close l w))"
| step_environment:
    "store_step enc dec up key root w (w\<lparr>w_now := t, w_locks := ls, w_faults := fs\<rparr>)"

definition at_root :: "string \<Rightarrow> Store" where
  "at_root root = \<lparr>s_StateRoot = root, s_RuntimeRoot = []\<rparr>"

definition store_init :: "'c decoder \<Rightarrow> (rune \<Rightarrow> bool) \<Rightarrow> string \<Rightarrow> 'c world \<Rightarrow> bool" where
  "store_init dec up root w \<longleftrightarrow> (\<forall>i. stored dec up (at_root root) w i = None)"

definition store_inv ::
    "'c encoder \<Rightarrow> 'c decoder \<Rightarrow> (rune \<Rightarrow> bool) \<Rightarrow> (Target \<Rightarrow> string) \<Rightarrow> string \<Rightarrow> 'c world \<Rightarrow> bool" where
  "store_inv enc dec up key root w \<longleftrightarrow>
     (json_codec enc dec \<and> root \<noteq> [] \<longrightarrow> unique_view key (stored dec up (at_root root) w))"

lemma stored_at_root: "s_StateRoot s = root \<Longrightarrow> stored dec up s = stored dec up (at_root root)"
  by (rule ext, rule ext, rule stored_same_root) (simp add: at_root_def)

lemma store_step_inv:
  assumes "store_step enc dec up key root w w'" and "store_inv enc dec up key root w"
  shows "store_inv enc dec up key root w'"
proof (unfold store_inv_def, intro impI)
  assume j: "json_codec enc dec \<and> root \<noteq> []"
  let ?v = "stored dec up (at_root root)"
  have u: "unique_view key (?v w)" using assms(2) j by (simp add: store_inv_def)
  have keep: "keeps ?v m \<Longrightarrow> unique_view key (?v (snd (m w)))" for m :: "('a world, 'b) io"
    using u by (simp add: keeps_def)
  show "unique_view key (?v w')"
    using assms(1)
  proof cases
    case (step_create s r)
    then show ?thesis using Create_view [of enc dec r key up s w] j u stored_at_root by metis
  next
    case (step_rename s i pid name)
    then show ?thesis using Rename_op_view [of enc dec key up s w] j u stored_at_root by metis
  next
    case (step_read s)
    then show ?thesis using keeps_ReadAll [of dec up s] u stored_at_root unfolding keeps_def by metis
  next
    case (step_resolve s sel)
    then show ?thesis using keeps_Resolve [of dec up s sel] u stored_at_root unfolding keeps_def by metis
  next
    case (step_remove s i)
    then show ?thesis using Remove_op_view [of key dec up s w] u stored_at_root by metis
  next
    case (step_remove_pid s i pid)
    then show ?thesis using RemoveIfPID_view [of key dec up s w] u stored_at_root by metis
  next
    case (step_prune s n)
    then show ?thesis using keeps_PruneCompletedArtifacts [of s dec up n] j u stored_at_root
      unfolding keeps_def by metis
  next
    case (step_acquire s i)
    then show ?thesis using keeps_AcquireLease [of s dec up i] j u stored_at_root unfolding keeps_def by metis
  next
    case (step_held s i)
    then show ?thesis using keeps_LeaseHeld [of dec up s i] u stored_at_root unfolding keeps_def by metis
  next
    case (step_close l)
    then show ?thesis using keeps_Lease_Close [of dec up "at_root root" l] u by (simp add: keeps_def)
  next
    case (step_environment t ls fs)
    have "lookup w' = lookup w" unfolding step_environment by (simp add: lookup_def fun_eq_iff)
    then have "?v w' = ?v w" using stored_file_view unfolding file_view_def by metis
    then show ?thesis using u by simp
  qed
qed

interpretation store: invariant_system "store_init dec up root" "store_step enc dec up key root"
  "store_inv enc dec up key root" for enc dec up key root
proof
  show "store_inv enc dec up key root s" if "store_init dec up root s" for s
    using that by (simp add: store_init_def store_inv_def unique_view_def)
qed (rule store_step_inv)

lemma filter_unique:
  assumes "distinct xs" "r \<in> set xs" "P r" "\<forall>q \<in> set xs. P q \<longrightarrow> q = r"
  shows "filter P xs = [r]"
proof -
  obtain ys zs where xs: "xs = ys @ r # zs" using assms(2) by (metis split_list)
  have "\<forall>q \<in> set ys \<union> set zs. \<not> P q" using assms(1,4) unfolding xs by auto
  then have "filter P ys = []" "filter P zs = []" by (simp_all add: filter_empty_conv)
  then show ?thesis using assms(3) by (simp add: xs)
qed

lemma reachable_records:
  assumes "json_codec enc dec" and "reachable (store_init dec up root) (store_step enc dec up key root) w"
    and "s_StateRoot s = root" "root \<noteq> []" "readAllUnlocked dec up s w = Inr (records, problems)"
    and "r \<in> set records" "q \<in> set records" "r \<noteq> q"
  shows "r_ID r \<noteq> r_ID q \<and> r_Name r \<noteq> r_Name q \<and> r_Name r \<noteq> r_ID q \<and> key (r_Target r) \<noteq> key (r_Target q)"
proof -
  have u: "unique_view key (stored dec up s w)"
    unfolding stored_at_root [OF assms(3)]
    using store.reachable_inv [OF assms(2)] assms(1,4) by (simp add: store_inv_def)
  have st: "stored dec up s w (r_ID x) = Some x" if "x \<in> set records" for x
    using readAll_stored(1) [OF assms(5)] assms(3,4) that by simp
  have "r_ID r \<noteq> r_ID q"
    using st [OF assms(6)] st [OF assms(7)] assms(8) by auto
  with u st [OF assms(6)] st [OF assms(7)] show ?thesis unfolding unique_view_def by blast
qed


text \<open>In every reachable state a selector that is exactly an instance's name or ID is
  resolved to this instance, never to another one and never as ambiguous.\<close>

theorem resolve_exact_selector:
  assumes "json_codec enc dec" and "reachable (store_init dec up root) (store_step enc dec up key root) w"
    and "s_StateRoot s = root" and "root \<noteq> []"
    and "readAllUnlocked dec up s w = Inr (records, problems)"
    and "r \<in> set records" and "selector = r_Name r \<or> selector = r_ID r"
  shows "resolve_in selector records = Inr r"
proof -
  have "distinct records"
    using readAll_stored(2) [OF assms(5)] assms(3,4) by (simp add: distinct_map)
  moreover have "q = r" if "q \<in> set records" "r_Name q = selector \<or> r_ID q = selector" for q
    using reachable_records [OF assms(1-5)] assms(6,7) that by metis
  ultimately have "filter (\<lambda>q. r_Name q = selector \<or> r_ID q = selector) records = [r]"
    using assms(6,7) by (intro filter_unique) metis+
  then show ?thesis by (simp add: resolve_in_def)
qed

section \<open>What a successful write has done\<close>

lemma installTemp_success:
  assumes "installTemp p q w = (Inr (), w')"
  shows "\<exists>w1. Rename p q w = (Inr (), w1)"
  using assms by (cases "Rename p q w") (auto simp: installTemp_def wrapErr_def io_simps split: sum.splits)

lemma orRemove_success: "orRemove p m w = (Inr (), w') \<Longrightarrow> m w = (Inr (), w')"
  by (auto simp: orRemove_def io_simps split: prod.splits sum.splits)

lemma writeAtomic_success:
  assumes "s_StateRoot s \<noteq> []" "Record_Validate up r = None"
    and "\<And>c. enc r = Inr c \<Longrightarrow> dec (Some c) = Inr (r, AtEOF)"
    and "writeAtomic enc s r replace w = (Inr (), w')"
  shows "stored dec up s w' = (stored dec up s w)(r_ID r \<mapsto> r)"
proof -
  let ?v = "stored dec up s" and ?path = "record_path s (r_ID r)"
  have i: "idPattern (r_ID r)" using assms(2) by (auto simp: Record_Validate_def split: if_splits)
  have free: "path_free ?v (PathJoin [InstancesDir s, temp_name (r_ID r) n])" for n
    by (rule stored_path_free [OF assms(1) temp_not_record [OF assms(1) i]])
  obtain p w1 where c: "CreateTemp (InstancesDir s) (r_ID r) w = (Inr p, w1)"
      and o: "orRemove p (bindE (fillTemp enc r p) (\<lambda>_. installTemp p ?path)) w1 = (Inr (), w')"
    using assms(4) unfolding writeAtomic_def Let_def
    by (auto simp: bindE_Inr [of "wrapErr _ _"] wrapErr_Inr split: sum.splits if_splits)
  have v1: "?v w1 = ?v w" by (rule keepsD [OF CreateTemp_view [OF free] c])
  obtain n a b where p: "p = PathJoin [InstancesDir s, temp_name (r_ID r) n]"
      "lookup w1 p = Some (Regular a b True None)"
    using CreateTemp_result [OF c] by blast
  have fp: "path_free ?v p" "\<not> record_file p"
    using free temp_not_record [OF assms(1) i] p(1) by auto
  obtain w2 where f: "fillTemp enc r p w1 = (Inr (), w2)" and ins: "installTemp p ?path w2 = (Inr (), w')"
    using orRemove_success [OF o] by (auto simp: bindE_apply split: prod.splits sum.splits)
  have v2: "?v w2 = ?v w" using keepsD [OF keeps_fillTemp [OF fp(1)] f] v1 by simp
  from fillTemp_content [OF f p(2)] assms(3) obtain a b c where
    l: "lookup w2 p = Some (Regular a b True (Some c))" "dec (Some c) = Inr (r, AtEOF)" by auto
  obtain w3 where r: "Rename p ?path w2 = (Inr (), w3)" using installTemp_success [OF ins] by blast
  have v3: "?v w3 = (?v w)(r_ID r \<mapsto> r)"
    using Rename_view [where dec = dec, OF assms(1,2) fp(2) l r] v2 by simp
  have "keeps ?v (bindE (wrapErr ''open instance directory: '' fault) (\<lambda>_.
     tryE (wrapErr ''sync instance directory: '' Sync) (\<lambda>r. tryE CloseFile (\<lambda>_. liftE r))))"
    by (intro keeps_bindE keeps_tryE keeps_wrapErr keeps_fault keeps_files keeps_liftE stored_file_view)
  then have "?v (snd (installTemp p ?path w2)) = ?v w3"
    using r by (simp add: installTemp_def wrapErr_def [of _ "Rename _ _"] bindE_apply [of "tryE _ _"]
        tryE_apply [of "Rename _ _"] returnE_apply keeps_def)
  with ins v3 show ?thesis by simp
qed

lemma locked_success:
  assumes "locked s m w = (Inr x, w')"
  shows "\<exists>w1 w2. s_StateRoot s \<noteq> [] \<and> stored dec up s w1 = stored dec up s w \<and> m w1 = (Inr x, w2)
    \<and> stored dec up s w' = stored dec up s w2"
proof -
  let ?v = "stored dec up s"
  obtain w1 where l: "store_lock s w = (Inr (), w1)"
    using assms by (auto simp: locked_def bindE_apply split: prod.splits sum.splits)
  have s: "s_StateRoot s \<noteq> []" using l by (auto simp: store_lock_def io_simps)
  obtain r w2 where m: "m w1 = (r, w2)" by (rule prod.exhaust)
  have *: "tryE fault (\<lambda>_. tryE CloseFile (\<lambda>_. liftE r)) w2 = (Inr x, w')"
    using assms l m by (simp add: locked_def bindE_apply tryE_apply [of m])
  then have r: "r = Inr x"
    by (auto simp: io_simps split: prod.splits)
  have "keeps ?v (tryE fault (\<lambda>_. tryE CloseFile (\<lambda>_. liftE r)))"
    by (intro keeps_tryE keeps_fault keeps_files keeps_liftE stored_file_view)
  then have "?v w' = ?v w2" using * by (metis keepsD)
  with s l m r keepsD [OF keeps_store_lock l] show ?thesis by blast
qed

text \<open>A successful \<open>Create\<close> has stored exactly the given record: it was not there, it is
  read back unchanged afterwards, and every other record is as before.\<close>

theorem Create_success_stores:
  assumes "json_codec enc dec" and "utf8_record r"
    and "Store_Create enc dec up key s r w = (Inr (), w')"
  shows "stored dec up s w (r_ID r) = None \<and> stored dec up s w' = (stored dec up s w)(r_ID r \<mapsto> r)"
proof -
  let ?m = "bindE (reading (readAllUnlocked dec up s)) (\<lambda>(records, _).
    case first_error (collision key r) records of Some e \<Rightarrow> failE e | None \<Rightarrow> writeAtomic enc s r False)"
  have valid: "Record_Validate up r = None" and l: "locked s ?m w = (Inr (), w')"
    using assms(3) by (auto simp: Store_Create_def failE_apply split: option.splits)
  from locked_success [OF l, of dec up] obtain w1 w2 where s: "s_StateRoot s \<noteq> []"
      and v1: "stored dec up s w1 = stored dec up s w" and m: "?m w1 = (Inr (), w2)"
      and v2: "stored dec up s w' = stored dec up s w2" by blast
  from m obtain rs ps where rd: "readAllUnlocked dec up s w1 = Inr (rs, ps)"
      and none: "first_error (collision key r) rs = None" and wr: "writeAtomic enc s r False w1 = (Inr (), w2)"
    by (auto simp: bindE_apply reading_def failE_apply split: sum.splits prod.splits option.splits)
  have "stored dec up s w1 (r_ID r) = None"
  proof (rule ccontr)
    assume "stored dec up s w1 (r_ID r) \<noteq> None"
    then obtain q where q: "stored dec up s w1 (r_ID r) = Some q" by blast
    then have "q \<in> set rs" using readAll_stored(1) [OF rd s, of q] stored_ID [OF q] by simp
    with none stored_ID [OF q] show False by (auto simp: first_error_None collision_def)
  qed
  moreover have "stored dec up s w2 = (stored dec up s w1)(r_ID r \<mapsto> r)"
    using assms(1,2) by (intro writeAtomic_success [OF s valid _ wr]) (auto simp: json_codec_def)
  ultimately show ?thesis using v1 v2 by simp
qed

lemma RenameIfPID_result:
  assumes "json_codec enc dec" and "RenameIfPID enc dec up s i pid name w = (Inr done, w')"
  shows "if done then (\<exists>c. stored dec up s w i = Some c \<and> r_PID c = pid
            \<and> stored dec up s w' = (stored dec up s w)(i \<mapsto> c\<lparr>r_Name := name\<rparr>))
         else stored dec up s w' = stored dec up s w"
proof -
  let ?m = "bindE (reading (readAllUnlocked dec up s)) (\<lambda>(records, _).
    case first_error (rename_clash i name) records of Some e \<Rightarrow> failE e
    | None \<Rightarrow> (case find_current i pid records of None \<Rightarrow> returnE False
       | Some current \<Rightarrow> bindE (writeAtomic enc s (current\<lparr>r_Name := name\<rparr>) True) (\<lambda>_. returnE True)))"
  have valid: "ValidateName up name = None" and l: "locked s ?m w = (Inr done, w')"
    using assms(2) by (auto simp: RenameIfPID_def failE_apply bindE_apply guardE_apply split: option.splits if_splits)
  from locked_success [OF l, of dec up] obtain w1 w2 where s: "s_StateRoot s \<noteq> []"
      and v1: "stored dec up s w1 = stored dec up s w" and m: "?m w1 = (Inr done, w2)"
      and v2: "stored dec up s w' = stored dec up s w2" by blast
  from m obtain rs ps where rd: "readAllUnlocked dec up s w1 = Inr (rs, ps)"
      and none: "first_error (rename_clash i name) rs = None"
      and m': "(case find_current i pid rs of None \<Rightarrow> returnE False
       | Some current \<Rightarrow> bindE (writeAtomic enc s (current\<lparr>r_Name := name\<rparr>) True) (\<lambda>_. returnE True)) w1 = (Inr done, w2)"
    by (auto simp: bindE_apply [of "reading _"] reading_def failE_apply split: sum.splits prod.splits option.splits)
  show ?thesis
  proof (cases "find_current i pid rs")
    case None
    then show ?thesis using m' v1 v2 by (auto simp: returnE_apply)
  next
    case (Some c)
    then have c: "c \<in> set rs" "r_ID c = i" "r_PID c = pid" by (auto simp: find_current_def dest!: find_SomeD)
    then have vc: "stored dec up s w1 i = Some c" using readAll_stored(1) [OF rd s, of c] by simp
    let ?c = "c\<lparr>r_Name := name\<rparr>"
    have u: "utf8_record ?c" "Record_Validate up ?c = None"
      using stored_utf8 [OF assms(1) vc] stored_ID [OF vc] utf8_rename valid ValidateName_Validate by blast+
    from m' Some have d: "done" and wr: "writeAtomic enc s ?c True w1 = (Inr (), w2)"
      by (auto simp: bindE_apply returnE_apply split: sum.splits prod.splits)
    have "stored dec up s w2 = (stored dec up s w1)(r_ID ?c \<mapsto> ?c)"
      using assms(1) u by (intro writeAtomic_success [OF s u(2) _ wr]) (auto simp: json_codec_def)
    then show ?thesis using d c vc v1 v2 by auto
  qed
qed

text \<open>A successful rename changes the name of the record of this process and nothing else;
  when it reports that it did not rename, nothing has changed.\<close>

theorem RenameIfPID_success:
  assumes "json_codec enc dec" and "RenameIfPID enc dec up s i pid name w = (Inr done, w')"
  shows "if done then (\<exists>c. stored dec up s w i = Some c \<and> r_PID c = pid
            \<and> stored dec up s w' = (stored dec up s w)(i \<mapsto> c\<lparr>r_Name := name\<rparr>))
         else stored dec up s w' = stored dec up s w"
  using RenameIfPID_result [OF assms] .

section \<open>A concrete run\<close>

text \<open>An empty file system, one record, and a codec whose file contents are the records.\<close>


definition demo_record :: Record where
  "demo_record = \<lparr>r_Version = 1, r_ID = ''abcdef01'', r_Name = ''proj'', r_PID = 77,
     r_ControlSocket = ''/run/abcdef01.sock'', r_StartedAt = 5, r_Directory = ''/home/u/proj'',
     r_Target = sample_target\<rparr>"

definition demo_enc :: "Record encoder" where "demo_enc r = Inr r"

definition demo_dec :: "Record decoder" where
  "demo_dec c = (case c of None \<Rightarrow> Inl (Ext ''EOF'')
     | Some r \<Rightarrow> if utf8_record r then Inr (r, AtEOF) else Inl (Ext ''invalid''))"

definition demo_store :: Store where "demo_store = \<lparr>s_StateRoot = ''/s'', s_RuntimeRoot = []\<rparr>"

definition demo_world :: "Record world" where
  "demo_world = \<lparr>w_files = [], w_next = 1, w_now = 1, w_locks = [], w_faults = []\<rparr>"

lemma demo_dir: "InstancesDir demo_store = ''/s/instances''" by code_simp

lemma demo_path: "record_path demo_store ''abcdef01'' = ''/s/instances/abcdef01.json''" by code_simp

lemma demo_lock: "PathJoin [''/s/instances'', ''.lock''] = ''/s/instances/.lock''" by code_simp

lemma demo_temp: "PathJoin [''/s/instances'', temp_name ''abcdef01'' 0] = ''/s/instances/.abcdef01.0.tmp''" by code_simp

lemma demo_utf8: "utf8_record demo_record"
  by (simp add: utf8_record_def demo_record_def sample_target_def ValidString_ascii)

lemma demo_valid: "Record_Validate (\<lambda>_. False) demo_record = None"
proof -
  have "safe_runes (\<lambda>_. False) (map code ''proj'') \<and> encode_runes (map code ''proj'') = ''proj''"
    by (rule safe_ascii) (simp add: alnum_def)
  then have "ValidateName (\<lambda>_. False) ''proj'' = None"
    by (intro ValidateName_safe [where rs = "map code ''proj''"]) (simp_all add: TrimSpace_ascii space_runes_def)
  then show ?thesis
    by (simp add: Record_Validate_def demo_record_def RecordVersion_def refusing_run_facts IsAbs_def
        HasPrefix_def sample_target_def)
qed

lemma demo_children:
  "map fst (w_files w) = [''/s/instances/.lock'', ''/s/instances'', ''/s''] \<Longrightarrow>
     child_names ''/s/instances'' w = [''.lock'']"
  "map fst (w_files w) = [''/s/instances/abcdef01.json'', ''/s/instances/.lock'', ''/s/instances'', ''/s''] \<Longrightarrow>
     child_names ''/s/instances'' w = [''.lock'', ''abcdef01.json'']"
  unfolding child_names_def by (simp_all only:) code_simp+

lemma demo_names: "\<not> record_name ''.lock''" "record_name ''abcdef01.json''" "TrimSuffix ''abcdef01.json'' ''.json'' = ''abcdef01''"
  by code_simp+

lemma demo_root: "s_StateRoot demo_store = ''/s''" "s_RuntimeRoot demo_store = []" by (simp_all add: demo_store_def)

lemmas demo_fs = fault_def lookup_def put_def del_def Lstat_def is_dir_def is_regular_def Chmod_def
  CloseFile_def Sync_def wrapErr_def io_simps

definition demo_mid :: "Record world" where
  "demo_mid = \<lparr>w_files = [(''/s/instances/.lock'', Regular 1 1 True None), (''/s/instances'', Directory),
     (''/s'', Directory)], w_next = 2, w_now = 1, w_locks = [], w_faults = []\<rparr>"

definition demo_final :: "Record world" where
  "demo_final = \<lparr>w_files = [(''/s/instances/abcdef01.json'', Regular 2 1 True (Some demo_record)),
     (''/s/instances/.lock'', Regular 1 1 True None), (''/s/instances'', Directory), (''/s'', Directory)],
     w_next = 3, w_now = 1, w_locks = [], w_faults = []\<rparr>"

lemma demo_locked: "store_lock demo_store demo_world = (Inr (), demo_mid)"
  by (simp add: store_lock_def demo_world_def demo_mid_def Let_def mkdirPrivate_def MkdirAll_def OpenCreate_def
      demo_fs demo_dir demo_lock demo_root)

lemma demo_id: "r_ID demo_record = ''abcdef01''" by (simp add: demo_record_def)

lemma demo_read_mid: "readAllUnlocked demo_dec (\<lambda>_. False) demo_store demo_mid = Inr ([], [])"
  by (simp add: readAllUnlocked_def ReadDir_def demo_children demo_mid_def lookup_def demo_dir demo_names)

lemma demo_write: "writeAtomic demo_enc demo_store demo_record False demo_mid = (Inr (), demo_final)"
  by (simp add: writeAtomic_def Let_def demo_mid_def demo_final_def demo_fs demo_path demo_dir demo_id CreateTemp_def demo_temp orRemove_def fillTemp_def
      orClose_def WriteFile_def installTemp_def Rename_def demo_enc_def)

lemma demo_create:
  "Store_Create demo_enc demo_dec (\<lambda>_. False) key_text demo_store demo_record demo_world = (Inr (), demo_final)"
  by (simp add: Store_Create_def locked_def bindE_apply demo_locked demo_valid reading_def demo_read_mid tryE_apply demo_write)
     (simp add: demo_final_def demo_fs)

lemma demo_path': "PathJoin [''/s/instances'', ''abcdef01.json''] = ''/s/instances/abcdef01.json''" by code_simp

lemma demo_entry: "read_entry demo_dec (\<lambda>_. False) demo_store demo_final ''abcdef01.json'' = Inr demo_record"
  by (simp add: read_entry_def Let_def demo_dir demo_path' Lstat_def lookup_def demo_final_def is_regular_def readRecord_def ReadFile_def demo_dec_def demo_utf8 demo_valid demo_names demo_id)

lemma demo_read: "readAllUnlocked demo_dec (\<lambda>_. False) demo_store demo_final = Inr ([demo_record], [])"
proof -
  have "child_names ''/s/instances'' demo_final = [''.lock'', ''abcdef01.json'']"
    by (rule demo_children(2)) (simp add: demo_final_def)
  moreover have "lookup demo_final ''/s/instances'' = Some Directory"
    by (simp add: demo_final_def lookup_def)
  ultimately show ?thesis
    by (simp add: readAllUnlocked_def ReadDir_def demo_dir demo_names demo_entry)
qed

lemma demo_codec: "json_codec demo_enc demo_dec"
  by (auto simp: json_codec_def demo_enc_def demo_dec_def split: option.splits if_splits)

lemma demo_init: "store_init demo_dec (\<lambda>_. False) ''/s'' demo_world"
  by (simp add: store_init_def stored_decoded decoded_def lookup_def demo_world_def)

lemma demo_reachable:
  "reachable (store_init demo_dec (\<lambda>_. False) ''/s'') (store_step demo_enc demo_dec (\<lambda>_. False) key_text ''/s'') demo_final"
proof -
  have "store_step demo_enc demo_dec (\<lambda>_. False) key_text ''/s'' demo_world
    (snd (Store_Create demo_enc demo_dec (\<lambda>_. False) key_text demo_store demo_record demo_world))"
    by (rule step_create) (simp_all add: demo_root demo_utf8)
  then have "store_step demo_enc demo_dec (\<lambda>_. False) key_text ''/s'' demo_world demo_final"
    by (simp add: demo_create)
  with demo_init show ?thesis by (blast intro: reach_init reach_step)
qed


theorem resolve_exact_selector_witness:
  "resolve_in ''proj'' [demo_record] = Inr demo_record"
  by (rule resolve_exact_selector [OF demo_codec demo_reachable demo_root(1) _ demo_read])
     (simp_all add: demo_record_def)

theorem Create_success_stores_witness:
  "stored demo_dec (\<lambda>_. False) demo_store demo_final ''abcdef01'' = Some demo_record"
  using Create_success_stores [OF demo_codec demo_utf8 demo_create] by (simp add: demo_id)


lemma demo_name: "ValidateName (\<lambda>_. False) ''web'' = None"
proof -
  have "safe_runes (\<lambda>_. False) (map code ''web'') \<and> encode_runes (map code ''web'') = ''web''"
    by (rule safe_ascii) (simp add: alnum_def)
  then show ?thesis
    by (intro ValidateName_safe [where rs = "map code ''web''"]) (simp_all add: TrimSpace_ascii space_runes_def)
qed

definition demo_renamed :: "Record world" where
  "demo_renamed = \<lparr>w_files = [(''/s/instances/abcdef01.json'', Regular 3 1 True (Some (demo_record\<lparr>r_Name := ''web''\<rparr>))),
     (''/s/instances/.lock'', Regular 1 1 True None), (''/s/instances'', Directory), (''/s'', Directory)],
     w_next = 4, w_now = 1, w_locks = [], w_faults = []\<rparr>"

lemma demo_locked': "store_lock demo_store demo_final = (Inr (), demo_final)"
  by (simp add: store_lock_def demo_final_def Let_def mkdirPrivate_def MkdirAll_def OpenCreate_def
      demo_fs demo_dir demo_lock demo_root)

lemma demo_rewrite:
  "writeAtomic demo_enc demo_store (demo_record\<lparr>r_Name := ''web''\<rparr>) True demo_final = (Inr (), demo_renamed)"
  by (simp add: writeAtomic_def Let_def demo_renamed_def demo_final_def demo_fs demo_path demo_dir demo_id
      CreateTemp_def demo_temp orRemove_def fillTemp_def orClose_def WriteFile_def installTemp_def
      Rename_def demo_enc_def)

lemma demo_rename:
  "RenameIfPID demo_enc demo_dec (\<lambda>_. False) demo_store ''abcdef01'' 77 ''web'' demo_final = (Inr True, demo_renamed)"
proof -
  have "first_error (rename_clash ''abcdef01'' ''web'') [demo_record] = None"
      "find_current ''abcdef01'' 77 [demo_record] = Some demo_record" "idPattern ''abcdef01''"
    by (simp_all add: rename_clash_def demo_record_def find_current_def refusing_run_facts)
  then show ?thesis
    by (simp add: RenameIfPID_def locked_def demo_name io_simps demo_locked' reading_def demo_read demo_rewrite)
       (simp add: demo_renamed_def demo_fs)
qed

theorem RenameIfPID_success_witness:
  "stored demo_dec (\<lambda>_. False) demo_store demo_renamed ''abcdef01'' = Some (demo_record\<lparr>r_Name := ''web''\<rparr>)"
proof -
  have st: "stored demo_dec (\<lambda>_. False) demo_store demo_final ''abcdef01'' = Some demo_record"
    by (simp add: stored_def demo_entry refusing_run_facts)
  from RenameIfPID_success [OF demo_codec demo_rename] st show ?thesis by auto
qed

definition demo_faulty :: "Record world" where
  "demo_faulty = demo_world\<lparr>w_faults := replicate 13 None @ [Some (Ext ''input/output error'')]\<rparr>"

text \<open>
  A \<open>Create\<close> that reports an error may still have installed the record: here only the
  final \<open>Sync\<close> of the directory fails.
\<close>

theorem Create_error_after_install:
  "\<exists>e w'. Store_Create demo_enc demo_dec (\<lambda>_. False) key_text demo_store demo_record demo_faulty = (Inl e, w')
     \<and> stored demo_dec (\<lambda>_. False) demo_store w' ''abcdef01'' = Some demo_record"
proof -
  have r: "replicate 13 None @ [Some x] = [None, None, None, None, None, None, None, None, None, None, None, None, None, Some x]"
    for x :: gerror by (simp add: numeral_eq_Suc)
  let ?mid = "demo_mid\<lparr>w_faults := [None, None, None, None, None, None, None, Some (Ext ''input/output error'')]\<rparr>"
  have l: "store_lock demo_store demo_faulty = (Inr (), ?mid)"
    by (simp add: store_lock_def demo_faulty_def demo_world_def demo_mid_def r Let_def mkdirPrivate_def MkdirAll_def
        OpenCreate_def demo_fs demo_dir demo_lock demo_root)
  have rd: "readAllUnlocked demo_dec (\<lambda>_. False) demo_store ?mid = Inr ([], [])"
    by (simp add: readAllUnlocked_def ReadDir_def demo_children demo_mid_def lookup_def demo_dir demo_names)
  have wr: "writeAtomic demo_enc demo_store demo_record False ?mid =
      (Inl (Wrapf ''sync instance directory: '' (Ext ''input/output error'')), demo_final)"
    by (simp add: writeAtomic_def Let_def demo_mid_def demo_final_def demo_fs demo_path demo_dir demo_id
      CreateTemp_def demo_temp orRemove_def fillTemp_def orClose_def WriteFile_def installTemp_def
      Rename_def Remove_def demo_enc_def)
  have "Store_Create demo_enc demo_dec (\<lambda>_. False) key_text demo_store demo_record demo_faulty =
      (Inl (Wrapf ''sync instance directory: '' (Ext ''input/output error'')), demo_final)"
    by (simp add: Store_Create_def locked_def bindE_apply l demo_valid reading_def rd tryE_apply wr)
       (simp add: demo_final_def demo_fs)
  moreover have "stored demo_dec (\<lambda>_. False) demo_store demo_final ''abcdef01'' = Some demo_record"
    by (simp add: stored_def demo_entry refusing_run_facts)
  ultimately show ?thesis by blast
qed

end
