(* ===== verification/Control_Server.thy ===== *)
theory Control_Server
  imports Control_Protocol Instance_Invariant
begin

text \<open>
  The control server of an instance, \<open>Serve\<close> of \<open>internal/control/server.go\<close>: creating the socket,
  the accept loop and removing the socket again. The file system is the one of the instance store;
  \<open>others\<close> stands for what other processes did to it while the server was running.
\<close>

section \<open>The socket\<close>

definition is_socket :: "'c node \<Rightarrow> bool" where
  "is_socket n \<longleftrightarrow> (case n of Socket _ \<Rightarrow> True | _ \<Rightarrow> False)"

text \<open>\<open>os.SameFile\<close>, on the nodes that have an inode in the model.\<close>

definition inode_of :: "'c node \<Rightarrow> nat option" where
  "inode_of n = (case n of Socket i \<Rightarrow> Some i | Regular i _ _ _ \<Rightarrow> Some i | _ \<Rightarrow> None)"

definition SameFile :: "'c node \<Rightarrow> 'c node \<Rightarrow> bool" where
  "SameFile a b \<longleftrightarrow> inode_of a \<noteq> None \<and> inode_of a = inode_of b"

text \<open>\<open>net.ListenUnix\<close> binds a new socket; it fails when there is a file.\<close>

definition ListenUnix :: "string \<Rightarrow> ('c world, unit) io" where
  "ListenUnix p = bindE fault (\<lambda>_ w.
     case lookup w p of
       None \<Rightarrow> (Inr (), put p (Socket (w_next w)) (w\<lparr>w_next := Suc (w_next w)\<rparr>))
     | Some _ \<Rightarrow> (Inl (Ext ''address already in use''), w))"

definition removeOwnedSocket :: "string \<Rightarrow> 'c node option \<Rightarrow> ('c world, unit) io" where
  "removeOwnedSocket path owned w =
     (case Lstat path w of
        Inl e \<Rightarrow> if errors_is e ErrNotExist then (Inr (), w)
                 else (Inl (Wrapf ''inspect control socket during cleanup: '' e), w)
      | Inr current \<Rightarrow>
          if (case owned of Some o' \<Rightarrow> \<not> SameFile o' current | None \<Rightarrow> \<not> is_socket current) then (Inr (), w)
          else (case Remove path w of
                  (Inl e, w) \<Rightarrow> if errors_is e ErrNotExist then (Inr (), w) else (Inl (Wrapf ''remove control socket: '' e), w)
                | (Inr _, w) \<Rightarrow> (Inr (), w)))"

section \<open>The accept loop\<close>

text \<open>
  What \<open>AcceptUnix\<close> returns: a connection with what its client sends, or an error together with the
  value of \<open>ctx.Err()\<close> then. The loop has not returned when no event is left. Connections are
  handled concurrently, but what they do to the handler is serialised by its mutex; the order of
  the events is that order.
\<close>

datatype acceptEvent = Conn string | AcceptError gerror "gerror option"

fun accept_loop ::
    "(string \<Rightarrow> gerror + Request \<times> trailing) \<Rightarrow> 'h Handler \<Rightarrow> string \<Rightarrow> acceptEvent list \<Rightarrow> bool \<Rightarrow> 'h
     \<Rightarrow> gerror option option \<times> response list \<times> 'h" where
  "accept_loop dec hnd instanceID [] stopped h = (None, [], h)"
| "accept_loop dec hnd instanceID (AcceptError e ctxErr # _) stopped h =
     (Some (if stopped then None
            else case ctxErr of Some c \<Rightarrow> Some c | None \<Rightarrow> Some (Wrapf ''accept control connection: '' e)), [], h)"
| "accept_loop dec hnd instanceID (Conn input # events) stopped h =
     (case Server_handle dec hnd instanceID input h of
        (resp, stop, h1) \<Rightarrow>
          (case accept_loop dec hnd instanceID events (stopped \<or> stop) h1 of (r, resps, h2) \<Rightarrow> (r, resp # resps, h2)))"

section \<open>Serving\<close>

text \<open>Creating the socket at a free path: the node that was created.\<close>

definition createSocket :: "string \<Rightarrow> ('c world, 'c node) io" where
  "createSocket socketPath =
     bindE (wrapErr ''listen on control socket: '' (ListenUnix socketPath)) (\<lambda>_.
     tryE (Chmod socketPath) (\<lambda>r.
     case r of
       Inl e \<Rightarrow> tryE (removeOwnedSocket socketPath None) (\<lambda>_. failE (Wrapf ''protect control socket: '' e))
     | Inr _ \<Rightarrow> (\<lambda>w. case Lstat socketPath w of
           Inl e \<Rightarrow> (Inl (Wrapf ''inspect created control socket: '' e), w)
         | Inr owned \<Rightarrow> (Inr owned, w))))"

text \<open>Everything up to the loop.\<close>

definition openSocket :: "string \<Rightarrow> string \<Rightarrow> ('c world, 'c node) io" where
  "openSocket socketPath instanceID =
     bindE (guardE (IsAbs socketPath) (Msg ''control socket path must be absolute'')) (\<lambda>_.
     case Request_validate \<lparr>q_InstanceID = instanceID, q_Action = ActionStatus, q_Name = []\<rparr> of
       Some e \<Rightarrow> failE e
     | None \<Rightarrow>
         bindE (prepareSocketDirectory (Dir socketPath)) (\<lambda>_ w.
         case Lstat socketPath w of
           Inr _ \<Rightarrow> (Inl (Msgf ''control socket path already exists: %s'' [socketPath]), w)
         | Inl e \<Rightarrow>
             if \<not> errors_is e ErrNotExist then (Inl (Wrapf ''inspect control socket path: '' e), w)
             else createSocket socketPath w))"

text \<open>
  \<open>Serve\<close>: the result (\<open>None\<close>: still serving), the responses, the handler and the file system. The
  deferred removal reports its error only when there is no other.
\<close>

definition Serve ::
    "(string \<Rightarrow> gerror + Request \<times> trailing) \<Rightarrow> 'h Handler \<Rightarrow> string \<Rightarrow> string \<Rightarrow> acceptEvent list
     \<Rightarrow> ('c world \<Rightarrow> 'c world) \<Rightarrow> 'h \<Rightarrow> 'c world \<Rightarrow> gerror option option \<times> response list \<times> 'h \<times> 'c world" where
  "Serve dec hnd socketPath instanceID events others h w =
     (case openSocket socketPath instanceID w of
        (Inl e, w1) \<Rightarrow> (Some (Some e), [], h, w1)
      | (Inr owned, w1) \<Rightarrow>
          (case accept_loop dec hnd instanceID events False h of
             (None, resps, h') \<Rightarrow> (None, resps, h', others w1)
           | (Some r, resps, h') \<Rightarrow>
               (case removeOwnedSocket socketPath (Some owned) (others w1) of
                  (rm, w2) \<Rightarrow>
                    (Some (if r = None then (case rm of Inl e \<Rightarrow> Some e | Inr _ \<Rightarrow> None) else r), resps, h', w2))))"

section \<open>Only its own socket\<close>

lemma keeps_Lstat [keeps_intros]: "keeps v (\<lambda>w. case Lstat p w of Inl e \<Rightarrow> (f e, w) | Inr n \<Rightarrow> (g n, w))"
  by (auto simp: keeps_def split: sum.splits)

lemma keeps_ListenUnix [keeps_intros]: "path_free v p \<Longrightarrow> keeps v (ListenUnix p)"
  unfolding ListenUnix_def
  by (rule keeps_bindE, rule keeps_fault, erule path_free_file_view)
     (auto simp: keeps_def path_free_put file_view_more [OF path_free_file_view] split: option.splits)

lemma removeOwnedSocket_keeps: "path_free v p \<Longrightarrow> keeps v (removeOwnedSocket p owned)"
  using keeps_path(2) [of v p]
  unfolding keeps_def removeOwnedSocket_def
  by (auto split: sum.splits prod.splits option.splits) (metis snd_conv)+

text \<open>A file at the path that is not the owned one stays; the owned one goes unless an error says so.\<close>

lemma removeOwnedSocket_spares:
  assumes "removeOwnedSocket p (Some owned) w = (r, w')"
  shows "lookup w p = Some n \<Longrightarrow> \<not> SameFile owned n \<Longrightarrow> lookup w' p = Some n"
    and "\<forall>e. Some e \<in> set (w_faults w) \<longrightarrow> \<not> errors_is e ErrNotExist \<Longrightarrow> r = Inr () \<Longrightarrow>
      lookup w' p = Some n \<Longrightarrow> \<not> SameFile owned n"
  using assms
  by (auto simp: removeOwnedSocket_def Lstat_def Remove_def bindE_apply fault_def
      split: option.splits node.splits list.splits if_splits sum.splits prod.splits)

lemma path_free_lookup: "q \<noteq> p \<Longrightarrow> path_free (\<lambda>w. lookup w q) p"
  by (simp add: path_free_def)

lemma keeps_prepareSocketDirectory: "path_free v d \<Longrightarrow> keeps v (prepareSocketDirectory d)"
  unfolding prepareSocketDirectory_def
proof (intro keeps_bindE keeps_wrapErr keeps_path)
  assume v: "path_free v d"
  have "keeps v (wrapErr ''protect control socket directory: '' (Chmod d))"
    by (intro keeps_wrapErr keeps_files path_free_file_view [OF v])
  then show "keeps v (\<lambda>w. case Lstat d w of
       Inl e \<Rightarrow> (Inl (Wrapf ''inspect control socket directory: '' e), w)
     | Inr n \<Rightarrow> if \<not> is_dir n then (Inl (Msg ''control socket directory is not a regular directory''), w)
         else wrapErr ''protect control socket directory: '' (Chmod d) w)"
    by (auto simp: keeps_def split: sum.splits)
qed

text \<open>Creating the socket touches no other path, and an existing file stops it.\<close>

lemma keeps_createSocket: "path_free v p \<Longrightarrow> keeps v (createSocket p)"
  unfolding createSocket_def
  by (intro keeps_bindE keeps_wrapErr keeps_tryE keeps_ListenUnix keeps_files path_free_file_view)
     (auto split: sum.splits intro!: keeps_tryE removeOwnedSocket_keeps keeps_failE keeps_Lstat)

lemma openSocket_other:
  assumes "openSocket p i w = (r, w')" and "q \<noteq> p" and "q \<noteq> Dir p"
  shows "lookup w' q = lookup w q"
proof -
  have "keeps (\<lambda>w. lookup w q) (openSocket p i)"
    using keeps_createSocket [OF path_free_lookup [OF assms(2)]]
    unfolding openSocket_def
    by (intro keeps_bindE keeps_guardE)
       (auto simp: keeps_def split: option.splits sum.splits
         intro!: keeps_bindE [unfolded keeps_def, rule_format] keeps_failE [unfolded keeps_def, rule_format]
           keeps_prepareSocketDirectory [unfolded keeps_def, rule_format] path_free_lookup assms(3))
  from keepsD [OF this assms(1)] show ?thesis .
qed

lemma createSocket_new:
  assumes "createSocket p w = (Inr n, w')" and "lookup w p = None"
  shows "\<exists>i. n = Socket i \<and> lookup w' p = Some (Socket i)"
  using assms
  by (auto simp: createSocket_def success_simps tryE_apply ListenUnix_def Chmod_def Lstat_def failE_apply bindE_apply
      split: prod.splits sum.splits option.splits node.splits) (auto simp: fault_def split: list.splits option.splits)

lemma openSocket_result:
  assumes "openSocket p i w = (r, w')" and "Dir p \<noteq> p"
  shows "lookup w p = Some n \<Longrightarrow> (\<exists>e. r = Inl e) \<and> lookup w' p = Some n"
    and "lookup w p = None \<Longrightarrow> r = Inr m \<Longrightarrow> \<exists>j. m = Socket j \<and> lookup w' p = Some (Socket j)"
proof -
  obtain r1 w1 where p: "prepareSocketDirectory (Dir p) w = (r1, w1)" by (rule prod.exhaust)
  have k: "lookup w1 p = lookup w p"
    by (rule keepsD [OF keeps_prepareSocketDirectory p]) (use assms(2) in \<open>auto intro: path_free_lookup\<close>)
  show "lookup w p = Some n \<Longrightarrow> (\<exists>e. r = Inl e) \<and> lookup w' p = Some n"
    using assms(1) p k
    by (auto simp: openSocket_def bindE_apply guardE_apply failE_apply Lstat_def
        split: option.splits sum.splits if_splits node.splits)
  show "lookup w p = None \<Longrightarrow> r = Inr m \<Longrightarrow> \<exists>j. m = Socket j \<and> lookup w' p = Some (Socket j)"
    using assms(1) p k createSocket_new [of p w1 m w']
    by (auto simp: openSocket_def bindE_apply guardE_apply failE_apply Lstat_def
        split: option.splits sum.splits if_splits node.splits)
qed


definition foreign_socket :: "unit world" where
  "foreign_socket = \<lparr>w_files = [(''/r/abcdef01.sock'', Socket 3)], w_next = 7, w_now = 0, w_locks = [], w_faults = []\<rparr>"


end
