(* ===== verification/Bounded_Tail.thy ===== *)
theory Bounded_Tail
  imports Wrap_Prelude
begin

text \<open>
  The contract of a writer that keeps the last bytes it was given. Two components have one of
  their own: the output of \<open>cloudflared\<close> (\<open>diagnosticTail\<close>) and the standard error of a starting
  worker (\<open>boundedTailWriter\<close>).
\<close>

definition last_n :: "nat \<Rightarrow> 'a list \<Rightarrow> 'a list" where
  "last_n n xs = drop (length xs - n) xs"

lemma last_n_length [simp]: "length (last_n n xs) = min n (length xs)"
  by (simp add: last_n_def)

lemma last_n_id: "length xs \<le> n \<Longrightarrow> last_n n xs = xs"
  by (simp add: last_n_def)

lemma last_n_append: "last_n n (last_n n xs @ ys) = last_n n (xs @ ys)"
  by (cases "length xs \<le> n") (auto simp: last_n_def add.commute)

locale tail_writer =
  fixes wr :: "'s \<Rightarrow> 'a list \<Rightarrow> 's"
    and content :: "'s \<Rightarrow> 'a list"
    and limit :: nat
  assumes wr_content: "length (content s) \<le> limit \<Longrightarrow> content (wr s p) = last_n limit (content s @ p)"
begin

lemma wr_bound: "length (content s) \<le> limit \<Longrightarrow> length (content (wr s p)) \<le> limit"
  by (simp add: wr_content)

text \<open>After any sequence of writes the writer holds the end of all that was written.\<close>

lemma writes_content:
  "length (content s) \<le> limit \<Longrightarrow> content (foldl wr s ps) = last_n limit (content s @ concat ps)"
proof (induction ps arbitrary: s)
  case Nil
  then show ?case by (simp add: last_n_id)
next
  case (Cons p ps)
  have "content (foldl wr (wr s p) ps) = last_n limit (content (wr s p) @ concat ps)"
    by (rule Cons.IH) (rule wr_bound [OF Cons.prems])
  also have "\<dots> = last_n limit ((content s @ p) @ concat ps)"
    by (simp add: wr_content [OF Cons.prems] last_n_append del: append_assoc)
  finally show ?case by simp
qed

end

text \<open>The in-place algorithm both writers use: make room at the front, then append.\<close>

definition tail_write :: "nat \<Rightarrow> 'a list \<Rightarrow> 'a list \<Rightarrow> 'a list" where
  "tail_write limit buf p =
     (if length p \<ge> limit then drop (length p - limit) p
      else let overflow = length buf + length p - limit
           in (if 0 < overflow then take (length buf - overflow) (drop overflow buf @ drop (length buf - overflow) buf)
               else buf) @ p)"

lemma tail_write_last: "length buf \<le> limit \<Longrightarrow> tail_write limit buf p = last_n limit (buf @ p)"
  by (auto simp: tail_write_def last_n_def Let_def)

end
