(* ===== verification/Share_Process.thy ===== *)
theory Share_Process
  imports Control_Server Bounded_Tail Target_Model
begin

text \<open>
  Starting the detached worker of an instance, \<open>internal/share/process.go\<close>: the launch record and the
  readiness message that pass between the two processes, and what is done when the worker does not
  become ready. The JSON codec, the pipes and the process are parameters. The state is a pair of the
  file system and the state of the tmux runner.
\<close>

definition onFiles :: "('f, 'a) io \<Rightarrow> ('f \<times> 't, 'a) io" where
  "onFiles m w = (case m (fst w) of (r, f) \<Rightarrow> (r, (f, snd w)))"

definition onTmux :: "('t, 'a) io \<Rightarrow> ('f \<times> 't, 'a) io" where
  "onTmux m w = (case m (snd w) of (r, t) \<Rightarrow> (r, (fst w, t)))"

definition MaxLaunchBytes :: nat where "MaxLaunchBytes = 64 * 1024"
definition maxReadyBytes :: nat where "maxReadyBytes = 1024 * 1024"
definition maxStartupStderrBytes :: int where "maxStartupStderrBytes = 8 * 1024"

section \<open>The end of the worker's standard error\<close>

record boundedTailWriter =
  bt_limit :: int
  bt_data :: string

definition newBoundedTailWriter :: "int \<Rightarrow> boundedTailWriter" where
  "newBoundedTailWriter limit = \<lparr>bt_limit = limit, bt_data = []\<rparr>"

definition boundedTailWriter_Write :: "boundedTailWriter \<Rightarrow> string \<Rightarrow> boundedTailWriter" where
  "boundedTailWriter_Write w payload =
     (if bt_limit w \<le> 0 then w else w\<lparr>bt_data := tail_write (nat (bt_limit w)) (bt_data w) payload\<rparr>)"

interpretation bt: tail_writer "\<lambda>d p. bt_data (boundedTailWriter_Write \<lparr>bt_limit = int n, bt_data = d\<rparr> p)" "\<lambda>d. d" n for n
  by unfold_locales (auto simp: boundedTailWriter_Write_def tail_write_last last_n_def)

definition withStartupStderr :: "gerror \<Rightarrow> boundedTailWriter \<Rightarrow> gerror" where
  "withStartupStderr err stderr =
     (let detail = TrimSpace (bt_data stderr) in if detail = [] then err else Wrapv err ('': '' @ detail))"

section \<open>Launch record and readiness\<close>

definition EncodeLaunch :: "(Record \<Rightarrow> gerror + string) \<Rightarrow> (rune \<Rightarrow> bool) \<Rightarrow> Record \<Rightarrow> gerror + string" where
  "EncodeLaunch enc up r =
     (case Record_Validate up r of
        Some e \<Rightarrow> Inl e
      | None \<Rightarrow>
          (case enc r of
             Inl e \<Rightarrow> Inl (Wrapf ''encode worker launch record: '' e)
           | Inr output \<Rightarrow>
               if length output > MaxLaunchBytes then Inl (Msg ''worker launch record is too large'') else Inr output))"

text \<open>\<open>stream\<close> is what can be read from the pipe, or the error of reading it.\<close>

definition ReadLaunch ::
    "(string \<Rightarrow> gerror + Record \<times> trailing) \<Rightarrow> (rune \<Rightarrow> bool) \<Rightarrow> gerror + string \<Rightarrow> string \<Rightarrow> string \<Rightarrow> gerror + Record" where
  "ReadLaunch dec up stream expectedID expectedControlSocket =
     (case stream of
        Inl e \<Rightarrow> Inl (Wrapf ''read worker launch record: '' e)
      | Inr input \<Rightarrow>
          let data = take (MaxLaunchBytes + 1) input in
          if length data > MaxLaunchBytes then Inl (Msg ''worker launch record is too large'')
          else case dec data of
            Inl e \<Rightarrow> Inl (Wrapf ''decode worker launch record: '' e)
          | Inr (r, rest) \<Rightarrow>
              if rest \<noteq> AtEOF then Inl (Msg ''worker launch record contains trailing JSON'')
              else case Record_Validate up r of
                Some e \<Rightarrow> Inl e
              | None \<Rightarrow>
                  if r_ID r \<noteq> expectedID \<or> r_ControlSocket r \<noteq> expectedControlSocket
                  then Inl (Msg ''worker launch identity does not match arguments'')
                  else Inr r)"

definition ready_incomplete :: "Status \<Rightarrow> bool" where
  "ready_incomplete st \<longleftrightarrow> st_ID st = [] \<or> st_Name st = [] \<or> st_State st \<noteq> ''ready'' \<or> st_PairingURL st = []"

text \<open>What \<open>WriteReady\<close> writes.\<close>

definition WriteReady :: "(Status \<Rightarrow> gerror + string) \<Rightarrow> Status \<Rightarrow> gerror + string" where
  "WriteReady enc st =
     (if ready_incomplete st then Inl (Msg ''worker readiness status is incomplete'')
      else case enc st of Inl e \<Rightarrow> Inl (Wrapf ''write worker readiness: '' e) | Inr s \<Rightarrow> Inr s)"

definition readReady :: "(string \<Rightarrow> gerror + Status) \<Rightarrow> string \<Rightarrow> gerror + Status" where
  "readReady dec input =
     (case dec (take (maxReadyBytes + 1) input) of
        Inl e \<Rightarrow> Inl (Wrapf ''read worker readiness: '' e)
      | Inr st \<Rightarrow> if ready_incomplete st then Inl (Msg ''worker returned incomplete readiness status'') else Inr st)"

section \<open>Removing what a worker left behind\<close>

definition removeStartedControlSocket :: "Record \<Rightarrow> ('c world, unit) io" where
  "removeStartedControlSocket r w =
     (let path = Clean (r_ControlSocket r) in
      if Base path \<noteq> r_ID r @ ''.sock''
      then (Inl (Msg ''started Wrap control socket is not derived from its instance ID''), w)
      else case Lstat path w of
        Inl e \<Rightarrow> if errors_is e ErrNotExist then (Inr (), w)
                 else (Inl (Wrapf ''inspect started Wrap control socket: '' e), w)
      | Inr n \<Rightarrow>
          if \<not> is_socket n then (Inl (Msg ''started Wrap control socket path is not a socket''), w)
          else (case Remove path w of
                  (Inl e, w) \<Rightarrow> if errors_is e ErrNotExist then (Inr (), w)
                                else (Inl (Wrapf ''remove started Wrap control socket: '' e), w)
                | (Inr _, w) \<Rightarrow> (Inr (), w)))"

text \<open>The results of two calls that are both made, joined.\<close>

definition joinE :: "('w, unit) io \<Rightarrow> ('w, unit) io \<Rightarrow> ('w, unit) io" where
  "joinE a b = tryE a (\<lambda>ra. tryE b (\<lambda>rb.
     case errors_join [case ra of Inl e \<Rightarrow> Some e | Inr _ \<Rightarrow> None, case rb of Inl e \<Rightarrow> Some e | Inr _ \<Rightarrow> None] of
       None \<Rightarrow> returnE () | Some e \<Rightarrow> failE e))"

definition cleanupStartedArtifacts :: "'t runner \<Rightarrow> Record \<Rightarrow> ('c world \<times> 't, unit) io" where
  "cleanupStartedArtifacts run r =
     joinE (onTmux (CleanupHelper run (r_Target r) (r_ID r))) (onFiles (removeStartedControlSocket r))"

definition cleanupReapedWorkerArtifacts :: "'t runner \<Rightarrow> Record \<Rightarrow> ('c world \<times> 't, unit) io" where
  "cleanupReapedWorkerArtifacts run r =
     (case ForRecord \<lparr>s_StateRoot = [], s_RuntimeRoot = []\<rparr> r of
        Inl e \<Rightarrow> failE e
      | Inr store \<Rightarrow>
          bindE (wrapErr ''lock reaped Wrap worker cleanup: '' (onFiles (AcquireLease store (r_ID r)))) (\<lambda>lease.
            joinE (cleanupStartedArtifacts run r) (onFiles (Lease_Close lease))))"

section \<open>Stopping a worker\<close>

text \<open>What happens to the worker process.\<close>

datatype workerAct = Spawned | SentRecord | Terminated | KilledGroup | KilledProcess | WorkerReaped | Cleaned

text \<open>
  The answers of the system while a worker is stopped: \<open>pe_firstWait\<close> is \<open>None\<close> when the worker has not
  exited in \<open>workerStopTimeout\<close>, \<open>pe_secondWait\<close> when it has not after the kill. \<open>pe_done\<close> tells
  \<open>os.ErrProcessDone\<close>, \<open>pe_gone\<close> \<open>ESRCH\<close> and \<open>pe_exit\<close> an \<open>*exec.ExitError\<close>.
\<close>

record stopEnv =
  pe_signal :: "gerror option"
  pe_firstWait :: "gerror option option"
  pe_groupKill :: "gerror option"
  pe_processKill :: "gerror option"
  pe_secondWait :: "gerror option option"
  pe_done :: "gerror \<Rightarrow> bool"
  pe_gone :: "gerror \<Rightarrow> bool"
  pe_exit :: "gerror \<Rightarrow> bool"

definition unless :: "(gerror \<Rightarrow> bool) \<Rightarrow> gerror option \<Rightarrow> gerror option" where
  "unless p err = (case err of None \<Rightarrow> None | Some e \<Rightarrow> if p e then None else Some e)"

definition normalizedStopWaitError :: "(gerror \<Rightarrow> bool) \<Rightarrow> gerror option \<Rightarrow> gerror option" where
  "normalizedStopWaitError isExit err = unless isExit err"

definition errOf :: "gerror + 'a \<Rightarrow> gerror option" where
  "errOf r = (case r of Inl e \<Rightarrow> Some e | Inr _ \<Rightarrow> None)"

definition stopStartedProcess ::
    "'t runner \<Rightarrow> stopEnv \<Rightarrow> Record \<Rightarrow> 'c world \<times> 't \<Rightarrow> gerror option \<times> workerAct list \<times> 'c world \<times> 't" where
  "stopStartedProcess run env r w =
     (let signalErr = unless (pe_done env) (pe_signal env) in
      case pe_firstWait env of
        Some waitErr \<Rightarrow>
          (case cleanupReapedWorkerArtifacts run r w of (c, w') \<Rightarrow>
             (errors_join [signalErr, normalizedStopWaitError (pe_exit env) waitErr, errOf c],
              [Terminated, WorkerReaped, Cleaned], w'))
      | None \<Rightarrow>
          let groupKillErr = unless (pe_gone env) (pe_groupKill env);
              processKillErr = unless (pe_done env) (pe_processKill env);
              killed = [Terminated, KilledGroup, KilledProcess] in
          (case pe_secondWait env of
             Some waitErr \<Rightarrow>
               (case cleanupReapedWorkerArtifacts run r w of (c, w') \<Rightarrow>
                  (errors_join [signalErr, groupKillErr, processKillErr, normalizedStopWaitError (pe_exit env) waitErr, errOf c],
                   killed @ [WorkerReaped, Cleaned], w'))
           | None \<Rightarrow>
               (errors_join [signalErr, groupKillErr, processKillErr,
                  normalizedStopWaitError (pe_exit env) (Some (Msg ''detached Wrap worker did not exit after forced stop'')), None],
                killed, w)))"

section \<open>Starting a worker\<close>

definition workerEarlyExitError :: "gerror option \<Rightarrow> gerror" where
  "workerEarlyExitError waitErr =
     (case waitErr of
        None \<Rightarrow> Msg ''wrap worker exited before readiness''
      | Some e \<Rightarrow> Wrapf ''wrap worker exited before readiness: '' e)"

text \<open>
  What the parent sees first: the end of its patience, the end of the readiness pipe (with what was
  written to it and what a look at
  \<open>waitDone\<close> then finds: \<open>Some\<close> when the worker has exited) or the exit of the worker.
\<close>

datatype workerSignal = StartupOver gerror | ReadyRead string "gerror option option" | WorkerExit "gerror option"

record launchEnv =
  le_recordPipe :: "gerror option"
  le_readyPipe :: "gerror option"
  le_start :: "string list \<Rightarrow> gerror + int"
  le_write :: "gerror option"
  le_close :: "gerror option"
  le_signal :: workerSignal
  le_stderr :: "string list"
  le_stop :: stopEnv

definition serve_args :: "string \<Rightarrow> Record \<Rightarrow> string list" where
  "serve_args executable r =
     [executable, ''_serve'', ''--instance'', r_ID r, ''--control'', r_ControlSocket r, ''--record-fd'', ''3'', ''--ready-fd'', ''4'']"

text \<open>The parent after the launch record was sent: one \<open>select\<close>.\<close>

definition awaitReady ::
    "(string \<Rightarrow> gerror + Status) \<Rightarrow> 't runner \<Rightarrow> launchEnv \<Rightarrow> Record \<Rightarrow> 'c world \<times> 't \<Rightarrow> (gerror + Status) \<times> workerAct list \<times> 'c world \<times> 't" where
  "awaitReady dec run env r w =
     (let stderr = foldl boundedTailWriter_Write (newBoundedTailWriter maxStartupStderrBytes) (le_stderr env);
          stop = (\<lambda>err w. case stopStartedProcess run (le_stop env) r w of
                    (e, acts, w') \<Rightarrow> (errors_join [Some err, e], acts, w'));
          exited = (\<lambda>waitErr w. case cleanupReapedWorkerArtifacts run r w of
                    (c, w') \<Rightarrow> (errors_join [Some (workerEarlyExitError waitErr), errOf c], [WorkerReaped, Cleaned], w'));
          noted = (\<lambda>x. case x of (e, acts, w') \<Rightarrow> (Inl (withStartupStderr (the e) stderr), acts, w'))
      in case le_signal env of
           StartupOver e \<Rightarrow> (case stop e w of (e, acts, w') \<Rightarrow> (Inl (the e), acts, w'))
         | ReadyRead input exit \<Rightarrow>
             (case readReady dec input of
                Inl e \<Rightarrow> noted (stop (Wrapf ''wrap worker failed before readiness: '' e) w)
              | Inr st \<Rightarrow>
                  if st_ID st \<noteq> r_ID r then noted (stop (Msg ''worker returned mismatched instance ID'') w)
                  else (case exit of Some waitErr \<Rightarrow> noted (exited waitErr w) | None \<Rightarrow> (Inr st, [], w)))
         | WorkerExit waitErr \<Rightarrow> noted (exited waitErr w))"

definition Start ::
    "(Record \<Rightarrow> gerror + string) \<Rightarrow> (string \<Rightarrow> gerror + Status) \<Rightarrow> (rune \<Rightarrow> bool) \<Rightarrow> 't runner \<Rightarrow> launchEnv \<Rightarrow> string \<Rightarrow> Record \<Rightarrow> 'c world \<times> 't
     \<Rightarrow> (gerror + Status) \<times> workerAct list \<times> 'c world \<times> 't" where
  "Start enc dec up run env executable r w =
     (if \<not> IsAbs executable then (Inl (Msg ''worker executable path must be absolute''), [], w)
      else case Record_Validate up (r\<lparr>r_PID := 1\<rparr>) of
        Some e \<Rightarrow> (Inl (Wrapf ''validate worker launch: '' e), [], w)
      | None \<Rightarrow>
          (case le_recordPipe env of
             Some e \<Rightarrow> (Inl (Wrapf ''create worker record pipe: '' e), [], w)
           | None \<Rightarrow>
               (case le_readyPipe env of
                  Some e \<Rightarrow> (Inl (Wrapf ''create worker readiness pipe: '' e), [], w)
                | None \<Rightarrow>
                    (case le_start env (serve_args executable r) of
                       Inl e \<Rightarrow> (Inl (Wrapf ''start detached Wrap worker: '' e), [], w)
                     | Inr pid \<Rightarrow>
                         let r = r\<lparr>r_PID := pid\<rparr>;
                             stop = (\<lambda>err acts0. case stopStartedProcess run (le_stop env) r w of
                               (e, acts, w') \<Rightarrow> (Inl (the (errors_join [Some err, e])), acts0 @ acts, w')) in
                         (case EncodeLaunch enc up r of
                            Inl e \<Rightarrow> stop e [Spawned]
                          | Inr payload \<Rightarrow>
                              (case le_write env of
                                 Some e \<Rightarrow> stop (Wrapf ''send worker launch record: '' e) [Spawned]
                               | None \<Rightarrow>
                                   (case le_close env of
                                      Some e \<Rightarrow> stop (Wrapf ''close worker launch record: '' e) [Spawned, SentRecord]
                                    | None \<Rightarrow>
                                        (case awaitReady dec run env r w of
                                           (res, acts, w') \<Rightarrow> (res, [Spawned, SentRecord] @ acts, w')))))))))"

section \<open>What passes between the processes\<close>

text \<open>The launch record and the readiness message arrive as they were sent, given that JSON decodes what
  it has encoded: the worker reads exactly the record the parent encoded, and the parent the status
  the worker wrote, if it is at most a mebibyte long; and what the worker accepts is always a valid
  record for the instance and the socket on its command line.\<close>

theorem launch_roundtrip:
  assumes "\<forall>r s. enc r = Inr s \<longrightarrow> dec s = Inr (r, AtEOF)" and "\<forall>st s. encS st = Inr s \<longrightarrow> decS s = Inr st"
  shows "(EncodeLaunch enc up r = Inr payload \<longrightarrow> ReadLaunch dec up (Inr payload) (r_ID r) (r_ControlSocket r) = Inr r)
    \<and> (WriteReady encS st = Inr message \<and> length message \<le> maxReadyBytes \<longrightarrow> readReady decS message = Inr st)
    \<and> (ReadLaunch dec up stream i socket = Inr r' \<longrightarrow>
         Record_Validate up r' = None \<and> r_ID r' = i \<and> r_ControlSocket r' = socket)"
proof (intro conjI impI)
  assume "EncodeLaunch enc up r = Inr payload"
  then have "Record_Validate up r = None" "enc r = Inr payload" "length payload \<le> MaxLaunchBytes"
    by (auto simp: EncodeLaunch_def split: option.splits sum.splits if_splits)
  then show "ReadLaunch dec up (Inr payload) (r_ID r) (r_ControlSocket r) = Inr r"
    using assms(1) by (simp add: ReadLaunch_def)
next
  assume "WriteReady encS st = Inr message \<and> length message \<le> maxReadyBytes"
  then have "\<not> ready_incomplete st" "encS st = Inr message" "length message \<le> maxReadyBytes"
    by (auto simp: WriteReady_def split: sum.splits if_splits)
  then show "readReady decS message = Inr st" using assms(2) by (simp add: readReady_def)
next
  assume "ReadLaunch dec up stream i socket = Inr r'"
  then show "Record_Validate up r' = None" "r_ID r' = i" "r_ControlSocket r' = socket"
    by (auto simp: ReadLaunch_def Let_def split: option.splits sum.splits if_splits prod.splits)
qed

text \<open>C37: The error of a failed start carries the end of the worker's standard error: after any writes the
  writer holds exactly the last 8192 bytes of all that was written.\<close>

theorem startup_stderr_tail:
  "bt_data (foldl boundedTailWriter_Write (newBoundedTailWriter maxStartupStderrBytes) ps) = last_n 8192 (concat ps)"
proof -
  have "foldl boundedTailWriter_Write \<lparr>bt_limit = int n, bt_data = d\<rparr> ps =
      \<lparr>bt_limit = int n, bt_data = foldl (\<lambda>d p. bt_data (boundedTailWriter_Write \<lparr>bt_limit = int n, bt_data = d\<rparr> p)) d ps\<rparr>" for n d
  proof (induction ps arbitrary: d)
    case (Cons p ps)
    have "boundedTailWriter_Write \<lparr>bt_limit = int n, bt_data = d\<rparr> p =
        \<lparr>bt_limit = int n, bt_data = bt_data (boundedTailWriter_Write \<lparr>bt_limit = int n, bt_data = d\<rparr> p)\<rparr>"
      by (simp add: boundedTailWriter_Write_def)
    then show ?case using Cons by (metis foldl_Cons)
  qed simp
  from this [of 8192 "[]"] bt.writes_content [of "[]" 8192 ps] show ?thesis
    by (simp add: newBoundedTailWriter_def maxStartupStderrBytes_def)
qed

section \<open>What a failed start leaves behind\<close>

text \<open>Removing the control socket of a worker removes nothing but a socket at the cleaned path of the
  record, named after the instance.\<close>

theorem removeStartedControlSocket_safe:
  assumes "removeStartedControlSocket r w = (res, w')" and "lookup w' q \<noteq> lookup w q"
  shows "q = Clean (r_ControlSocket r) \<and> Base q = r_ID r @ ''.sock'' \<and> (\<exists>i. lookup w q = Some (Socket i)) \<and> lookup w' q = None
    \<and> res = Inr ()"
  using assms
  by (auto simp: removeStartedControlSocket_def Let_def Lstat_def is_socket_def Remove_def bindE_apply fault_def
      split: if_splits option.splits node.splits list.splits sum.splits prod.splits)

text \<open>How a worker that did not become ready ends.\<close>

definition stopped_acts :: "workerAct list set" where
  "stopped_acts = {[WorkerReaped, Cleaned], [Terminated, WorkerReaped, Cleaned],
     [Terminated, KilledGroup, KilledProcess, WorkerReaped, Cleaned]}"

definition survivor_acts :: "workerAct list" where
  "survivor_acts = [Terminated, KilledGroup, KilledProcess]"

lemma stopStartedProcess_acts:
  "stopStartedProcess run env r w = (x, acts, w') \<Longrightarrow> acts \<in> stopped_acts \<or> acts = survivor_acts \<and> w' = w"
  by (auto simp: stopStartedProcess_def stopped_acts_def survivor_acts_def Let_def split: option.splits prod.splits)

lemma awaitReady_acts:
  assumes "awaitReady dec run env r w = (res, acts, w')"
  shows "case res of
      Inr st \<Rightarrow> acts = [] \<and> w' = w \<and> st_ID st = r_ID r \<and> \<not> ready_incomplete st
    | Inl e \<Rightarrow> acts \<in> stopped_acts \<or> acts = survivor_acts \<and> w' = w"
proof -
  obtain x1 a1 w1 where 1: "stopStartedProcess run (le_stop env) r w = (x1, a1, w1)" by (rule prod_cases3)
  obtain c w2 where 2: "cleanupReapedWorkerArtifacts run r w = (c, w2)" by (rule prod.exhaust)
  have r: "[WorkerReaped, Cleaned] \<in> stopped_acts" by (simp add: stopped_acts_def)
  show ?thesis
  proof (cases "le_signal env")
    case (ReadyRead input exit)
    then show ?thesis using assms stopStartedProcess_acts [OF 1] r
      by (cases "readReady dec input"; cases exit)
         (auto simp: awaitReady_def 1 2 Let_def split: if_splits, auto simp: readReady_def split: sum.splits if_splits)
  qed (use assms stopStartedProcess_acts [OF 1] r in \<open>auto simp: awaitReady_def 1 2 Let_def\<close>)
qed

text \<open>C36: \<open>Start\<close> succeeds only with a complete readiness message for this instance while the worker is
  alive, and then has touched nothing. When it fails after the worker was started, either the
  worker was seen to exit and its helper session and socket were then cleaned up, or it survived
  the termination signal and both kills and nothing was removed under it; a worker whose exit was
  not seen has always been sent the signals.\<close>

theorem Start_outcome:
  assumes "Start enc dec up run env executable r w = (res, acts, w')"
  shows "case res of
      Inr st \<Rightarrow> acts = [Spawned, SentRecord] \<and> w' = w \<and> st_ID st = r_ID r \<and> \<not> ready_incomplete st
    | Inl e \<Rightarrow> acts = [] \<and> w' = w
        \<or> (\<exists>sent end. sent \<in> {[Spawned], [Spawned, SentRecord]} \<and> acts = sent @ end
             \<and> (end \<in> stopped_acts \<or> end = survivor_acts \<and> w' = w))"
proof (cases "\<not> IsAbs executable \<or> Record_Validate up (r\<lparr>r_PID := 1\<rparr>) \<noteq> None \<or> le_recordPipe env \<noteq> None
    \<or> le_readyPipe env \<noteq> None \<or> (\<exists>e. le_start env (serve_args executable r) = Inl e)")
  case True
  then show ?thesis using assms by (auto simp: Start_def split: if_splits option.splits)
next
  case False
  then obtain pid where pid: "le_start env (serve_args executable r) = Inr pid"
    by (cases "le_start env (serve_args executable r)") auto
  let ?r = "r\<lparr>r_PID := pid\<rparr>"
  obtain x1 a1 w1 where 1: "stopStartedProcess run (le_stop env) ?r w = (x1, a1, w1)" by (rule prod_cases3)
  obtain res2 a2 w2 where 2: "awaitReady dec run env ?r w = (res2, a2, w2)" by (rule prod_cases3)
  have "Start enc dec up run env executable r w =
      (case EncodeLaunch enc up ?r of
         Inl e \<Rightarrow> (Inl (the (errors_join [Some e, x1])), [Spawned] @ a1, w1)
       | Inr payload \<Rightarrow>
           (case le_write env of
              Some e \<Rightarrow> (Inl (the (errors_join [Some (Wrapf ''send worker launch record: '' e), x1])), [Spawned] @ a1, w1)
            | None \<Rightarrow>
                (case le_close env of
                   Some e \<Rightarrow> (Inl (the (errors_join [Some (Wrapf ''close worker launch record: '' e), x1])), [Spawned, SentRecord] @ a1, w1)
                 | None \<Rightarrow> (res2, [Spawned, SentRecord] @ a2, w2))))"
    using False pid by (simp add: Start_def Let_def 1 2 split: sum.split option.split)
  then consider (stopped) e sent where "res = Inl e" "sent \<in> {[Spawned], [Spawned, SentRecord]}" "acts = sent @ a1" "w' = w1"
    | (awaited) "res = res2" "acts = [Spawned, SentRecord] @ a2" "w' = w2"
    using assms by (auto split: sum.splits option.splits)
  then show ?thesis
  proof cases
    case stopped
    have "a1 \<in> stopped_acts \<or> a1 = survivor_acts \<and> w' = w" using stopStartedProcess_acts [OF 1] stopped(4) by blast
    with stopped(1-3) show ?thesis unfolding stopped(1) sum.case by blast
  next
    case awaited
    show ?thesis
    proof (cases res2)
      case (Inl e)
      then have "a2 \<in> stopped_acts \<or> a2 = survivor_acts \<and> w' = w" using awaitReady_acts [OF 2] awaited(3) by simp
      with awaited(2) show ?thesis unfolding awaited(1) Inl sum.case by blast
    qed (use awaitReady_acts [OF 2] awaited in simp)
  qed
qed

text \<open>A worker that never writes a readiness message and survives every signal.\<close>

definition demo_stop :: stopEnv where
  "demo_stop = \<lparr>pe_signal = None, pe_firstWait = None, pe_groupKill = None, pe_processKill = None, pe_secondWait = None,
     pe_done = (\<lambda>_. False), pe_gone = (\<lambda>_. False), pe_exit = (\<lambda>_. False)\<rparr>"

definition demo_launch :: launchEnv where
  "demo_launch = \<lparr>le_recordPipe = None, le_readyPipe = None, le_start = (\<lambda>_. Inr 77), le_write = None, le_close = None,
     le_signal = StartupOver (Sentinel ErrDeadlineExceeded), le_stderr = [], le_stop = demo_stop\<rparr>"

lemma Record_Validate_pid: "Record_Validate up r = None \<Longrightarrow> 0 < n \<Longrightarrow> Record_Validate up (r\<lparr>r_PID := n\<rparr>) = None"
  by (auto simp: Record_Validate_def split: if_splits option.splits)

lemma demo_launch_result:
  "\<exists>e. Start (\<lambda>_. Inr ''x'') (\<lambda>_. Inl (Msg [])) (\<lambda>_. False) (\<lambda>_. failE (Msg [])) demo_launch ''/wrap'' demo_record w
     = (Inl e, [Spawned, SentRecord] @ survivor_acts, w)"
proof -
  have "EncodeLaunch (\<lambda>_. Inr ''x'') (\<lambda>_. False) (demo_record\<lparr>r_PID := 77\<rparr>) = Inr ''x''"
    using Record_Validate_pid [OF demo_valid, of 77] by (simp add: EncodeLaunch_def MaxLaunchBytes_def)
  moreover have "IsAbs ''/wrap''" by code_simp
  ultimately show ?thesis
    using Record_Validate_pid [OF demo_valid, of 1]
    by (simp add: Start_def Let_def demo_launch_def awaitReady_def stopStartedProcess_def demo_stop_def survivor_acts_def)
qed

theorem Start_outcome_witness:
  "\<exists>e acts. Start (\<lambda>_. Inr ''x'') (\<lambda>_. Inl (Msg [])) (\<lambda>_. False) (\<lambda>_. failE (Msg [])) demo_launch ''/wrap'' demo_record (demo_final, ())
     = (Inl e, acts, (demo_final, ())) \<and> (\<exists>sent end. acts = sent @ end \<and> (end \<in> stopped_acts \<or> end = survivor_acts))"
proof -
  obtain e where e: "Start (\<lambda>_. Inr ''x'') (\<lambda>_. Inl (Msg [])) (\<lambda>_. False) (\<lambda>_. failE (Msg [])) demo_launch ''/wrap'' demo_record (demo_final, ())
     = (Inl e, [Spawned, SentRecord] @ survivor_acts, (demo_final, ()))"
    using demo_launch_result by blast
  from Start_outcome [OF e] have "\<exists>sent end. [Spawned, SentRecord] @ survivor_acts = sent @ end \<and> (end \<in> stopped_acts \<or> end = survivor_acts)"
    unfolding sum.case by (metis append_is_Nil_conv list.distinct(1))
  with e show ?thesis by blast
qed

text \<open>A codec on one record and one status.\<close>

theorem launch_roundtrip_witness:
  "ReadLaunch (\<lambda>_. Inr (demo_record, AtEOF)) (\<lambda>_. False) (Inr ''x'') ''abcdef01'' (r_ControlSocket demo_record) = Inr demo_record"
proof -
  let ?enc = "\<lambda>r. if r = demo_record then Inr ''x'' else Inl (Msg [])"
  let ?encS = "\<lambda>st. if st = demo_status then Inr ''x'' else Inl (Msg [])"
  have "EncodeLaunch ?enc (\<lambda>_. False) demo_record = Inr ''x''" by (simp add: EncodeLaunch_def demo_valid MaxLaunchBytes_def)
  moreover have "\<forall>r s. ?enc r = Inr s \<longrightarrow> (\<lambda>_. Inr (demo_record, AtEOF)) s = Inr (r, AtEOF)"
    "\<forall>st s. ?encS st = Inr s \<longrightarrow> (\<lambda>_. Inr demo_status) s = Inr st" by (auto split: if_splits)
  ultimately show ?thesis
    using launch_roundtrip [of ?enc "\<lambda>_. Inr (demo_record, AtEOF)" ?encS "\<lambda>_. Inr demo_status" "\<lambda>_. False" demo_record "''x''"]
    by (simp add: demo_id)
qed

theorem removeStartedControlSocket_safe_witness:
  "\<exists>res w'. removeStartedControlSocket (demo_record\<lparr>r_ControlSocket := ''/r/abcdef01.sock''\<rparr>) foreign_socket = (res, w')
     \<and> lookup foreign_socket ''/r/abcdef01.sock'' = Some (Socket 3) \<and> lookup w' ''/r/abcdef01.sock'' = None \<and> res = Inr ()"
proof -
  obtain res w' where r: "removeStartedControlSocket (demo_record\<lparr>r_ControlSocket := ''/r/abcdef01.sock''\<rparr>) foreign_socket = (res, w')"
    by (rule prod.exhaust)
  have c: "Clean ''/r/abcdef01.sock'' = ''/r/abcdef01.sock''" "Base ''/r/abcdef01.sock'' = ''abcdef01.sock''" by code_simp+
  have l: "lookup foreign_socket ''/r/abcdef01.sock'' = Some (Socket 3)" by (simp add: lookup_def foreign_socket_def)
  have "lookup w' ''/r/abcdef01.sock'' \<noteq> lookup foreign_socket ''/r/abcdef01.sock''"
    using r l c
    by (simp add: removeStartedControlSocket_def Lstat_def is_socket_def Remove_def bindE_apply fault_def foreign_socket_def
        demo_record_def Let_def split: prod.splits) auto
  from removeStartedControlSocket_safe [OF r this] r l show ?thesis by auto
qed

end
