(* ===== verification/Mirror_Diagnostics.thy ===== *)
theory Mirror_Diagnostics
  imports Instance_Invariant
begin

text \<open>
  The diagnostic log, \<open>internal/mirror/diagnostics.go\<close> with \<open>diagnostics_file_unix.go\<close>:
  the closed vocabulary of records, the sanitised path, the
  encoding of one line and the log file with its single rotated backup. The JSON encoding of a
  line and the clock are parameters. Go's iteration over the two-entry map of token fields has
  no fixed order: \<open>eventFirst\<close> says which one a run takes.
\<close>

section \<open>Records and lines\<close>

definition maxDiagnosticLogSize :: nat where "maxDiagnosticLogSize = 2 ^ 20"
definition maxDiagnosticEventSize :: nat where "maxDiagnosticEventSize = 4 * 2 ^ 10"
definition maxDiagnosticPathSize :: nat where "maxDiagnosticPathSize = 256"

definition diagnosticTokenPattern :: "string \<Rightarrow> bool" where
  "diagnosticTokenPattern v \<longleftrightarrow>
     (case v of [] \<Rightarrow> False
      | c # cs \<Rightarrow> in_range 97 122 c \<and> length cs \<le> 63 \<and>
          list_all (\<lambda>c. in_range 97 122 c \<or> is_digit c \<or> c = CHR ''_'') cs)"

definition diagnosticComponents :: "string list" where
  "diagnosticComponents = [''credential'', ''handshake'', ''server'', ''tunnel'', ''viewer'']"

definition diagnosticEvents :: "string list" where
  "diagnosticEvents =
     [''asset_missing'', ''authenticated'', ''closed'', ''ended'', ''exit'', ''geometry_corrected'',
      ''geometry_failed'', ''geometry_preparing'', ''geometry_verified'', ''open_failed'', ''opened'',
      ''preparing'', ''process_exit'', ''process_start_failed'', ''process_started'', ''ready'', ''rejected'',
      ''revoked'', ''rotated'', ''start_failed'', ''started'', ''starting'', ''stopped'']"

definition diagnosticCodes :: "string list" where
  "diagnosticCodes =
     [''authentication_failed'', ''automatic_target_unavailable'', ''client_asset_unavailable'',
      ''client_capacity'', ''cleanup_incomplete'', ''credential_expired'', ''origin_rejected'',
      ''process_unavailable'', ''server_busy'', ''server_starting'', ''server_unavailable'',
      ''session_list_failed'', ''terminal_ended'', ''terminal_unavailable'', ''tunnel_unavailable'',
      ''unexpected_exit'', ''upgrade_failed'']"

record ViewerGeometryDiagnostic =
  vg_CapturedColumns :: "16 word"
  vg_CapturedRows :: "16 word"
  vg_ClientColumns :: "16 word"
  vg_ClientRows :: "16 word"
  vg_WindowColumns :: "16 word"
  vg_WindowRows :: "16 word"
  vg_StatusRows :: "16 word"
  vg_Corrected :: bool

record DiagnosticRecord =
  d_Level :: string
  d_Component :: string
  d_Event :: string
  d_Code :: string
  d_Path :: string
  d_ViewerGeometry :: "ViewerGeometryDiagnostic option"

record diagnosticLine = DiagnosticRecord +
  l_Timestamp :: string

text \<open>\<open>strings.ToValidUTF8\<close> with an empty replacement: the bytes of the valid runes.\<close>

definition ToValidUTF8 :: "string \<Rightarrow> string" where
  "ToValidUTF8 s = encode_runes (map fst (filter (\<lambda>rw. rw \<noteq> (RuneError, 1)) (runes_w s)))"

fun dropInvalidEnd :: "string \<Rightarrow> string" where
  "dropInvalidEnd v = (if v = [] \<or> ValidString v then v else dropInvalidEnd (butlast v))"

declare dropInvalidEnd.simps [simp del]

definition sanitizeDiagnosticPath :: "string \<Rightarrow> string" where
  "sanitizeDiagnosticPath v =
     (let v = takeWhile (\<lambda>c. c \<noteq> CHR ''?'' \<and> c \<noteq> CHR ''#'') v;
          v = ToValidUTF8 v
      in if length v \<le> maxDiagnosticPathSize then v
         else dropInvalidEnd (take maxDiagnosticPathSize v))"

definition marshal ::
    "bool \<Rightarrow> (diagnosticLine \<Rightarrow> gerror + string) \<Rightarrow> string \<Rightarrow> DiagnosticRecord \<Rightarrow> gerror + string" where
  "marshal eventFirst encode now r =
     (let tokens = (if eventFirst then [(''event'', d_Event r), (''component'', d_Component r)]
                    else [(''component'', d_Component r), (''event'', d_Event r)])
      in if d_Level r \<noteq> ''info'' \<and> d_Level r \<noteq> ''warn'' \<and> d_Level r \<noteq> ''error''
         then Inl (Msg ''invalid mirror diagnostic level'')
         else case find (\<lambda>(name, v). \<not> diagnosticTokenPattern v) tokens of
           Some (name, v) \<Rightarrow> Inl (Msgf ''invalid mirror diagnostic %s'' [name])
         | None \<Rightarrow>
             if d_Component r \<notin> set diagnosticComponents
             then Inl (Msg ''unsupported mirror diagnostic component'')
             else if d_Event r \<notin> set diagnosticEvents
             then Inl (Msg ''unsupported mirror diagnostic event'')
             else if d_Code r \<noteq> [] \<and> d_Code r \<notin> set diagnosticCodes
             then Inl (Msg ''invalid mirror diagnostic code'')
             else case encode \<lparr>d_Level = d_Level r, d_Component = d_Component r, d_Event = d_Event r,
                      d_Code = d_Code r, d_Path = sanitizeDiagnosticPath (d_Path r),
                      d_ViewerGeometry = d_ViewerGeometry r, l_Timestamp = now\<rparr> of
               Inl e \<Rightarrow> Inl (Wrapf ''encode mirror diagnostic event: '' e)
             | Inr encoded \<Rightarrow>
                 let encoded = encoded @ [char_of (10::nat)] in
                 if length encoded > maxDiagnosticEventSize
                 then Inl (Msg ''mirror diagnostic event exceeds size limit'')
                 else Inr encoded)"

text \<open>\<open>emitDiagnostic\<close>: the record goes to the sink when there is one.\<close>

definition emitDiagnostic :: "('r \<Rightarrow> 'w \<Rightarrow> 'w) option \<Rightarrow> 'r \<Rightarrow> 'w \<Rightarrow> 'w" where
  "emitDiagnostic record event w = (case record of None \<Rightarrow> w | Some f \<Rightarrow> f event w)"

section \<open>The log file\<close>

definition node_size :: "string node \<Rightarrow> nat" where
  "node_size n = (case n of Regular _ _ _ (Some c) \<Rightarrow> length c | _ \<Rightarrow> 0)"

text \<open>\<open>openDiagnosticLog\<close>: opening for appending without following links; then the file is inspected.\<close>

definition openDiagnosticLog :: "string \<Rightarrow> (string world, unit) io" where
  "openDiagnosticLog p =
     bindE fault (\<lambda>_ w.
       case lookup w p of
         None \<Rightarrow> orClose fault
                   (put p (Regular (w_next w) (w_now w) True None) (w\<lparr>w_next := Suc (w_next w)\<rparr>))
       | Some (Regular _ _ _ _) \<Rightarrow> orClose fault w
       | Some Special \<Rightarrow>
           tryE CloseFile (\<lambda>_. failE (Msg ''mirror diagnostic log is not a regular file'')) w
       | Some _ \<Rightarrow> (Inl (Ext ''cannot open''), w))"

definition AppendFile :: "string \<Rightarrow> string \<Rightarrow> (string world, unit) io" where
  "AppendFile p line = bindE fault (\<lambda>_ w.
     case lookup w p of
       Some (Regular inode _ readable c) \<Rightarrow>
         (Inr (), put p (Regular inode (w_now w) readable (Some (case c of None \<Rightarrow> line | Some c \<Rightarrow> c @ line))) w)
     | _ \<Rightarrow> (Inl (Ext ''file is gone''), w))"

definition secureDiagnosticLog :: "string \<Rightarrow> (string world, unit) io" where
  "secureDiagnosticLog p =
     bindE (openDiagnosticLog p) (\<lambda>_.
     bindE (orClose (Chmod p)) (\<lambda>_. CloseFile))"

text \<open>The rotation inside \<open>Write\<close>: the old backup goes, the log becomes the backup.\<close>

definition rotateLog :: "string \<Rightarrow> (string world, unit) io" where
  "rotateLog path =
     (let backup = path @ ''.1'' in
      bindE (tryE (reading (Lstat backup)) (\<lambda>r. case r of
          Inr n \<Rightarrow> if \<not> is_regular n then failE (Msg ''mirror diagnostic backup is not a regular file'')
                   else wrapErr ''replace mirror diagnostic backup: '' (Remove backup)
        | Inl e \<Rightarrow> if errors_is e ErrNotExist then returnE ()
                   else failE (Wrapf ''inspect mirror diagnostic backup: '' e))) (\<lambda>_.
      bindE (wrapErr ''rotate mirror diagnostic log: '' (Rename path backup)) (\<lambda>_.
      tryE (secureDiagnosticLog backup) (\<lambda>r. case r of
          Inr _ \<Rightarrow> returnE ()
        | Inl e \<Rightarrow> tryE (Remove backup) (\<lambda>removed.
            failE (Join (Wrapf ''secure mirror diagnostic backup: '' e #
              (case removed of Inl e2 \<Rightarrow> [e2] | Inr _ \<Rightarrow> []))))))))"

definition makeRoom :: "string \<Rightarrow> string \<Rightarrow> (string world, unit) io" where
  "makeRoom path line =
     tryE (reading (Lstat path)) (\<lambda>r. case r of
       Inl e \<Rightarrow> if errors_is e ErrNotExist then returnE ()
                else failE (Wrapf ''inspect mirror diagnostic log: '' e)
     | Inr n \<Rightarrow>
         if \<not> is_regular n then failE (Msg ''mirror diagnostic log is not a regular file'')
         else if node_size n + length line > maxDiagnosticLogSize then rotateLog path
         else returnE ())"

definition Sink_Write ::
    "bool \<Rightarrow> (diagnosticLine \<Rightarrow> gerror + string) \<Rightarrow> string \<Rightarrow> string \<Rightarrow> DiagnosticRecord \<Rightarrow> (string world, unit) io" where
  "Sink_Write eventFirst encode now path r =
     bindE (liftE (marshal eventFirst encode now r)) (\<lambda>line.
     bindE (guardE (path \<noteq> []) (Msg ''mirror diagnostic path is empty'')) (\<lambda>_.
     bindE (wrapErr ''create mirror diagnostic directory: '' (MkdirAll (Dir path))) (\<lambda>_.
     bindE (makeRoom path line) (\<lambda>_.
     bindE (wrapErr ''open mirror diagnostic log: '' (openDiagnosticLog path)) (\<lambda>_.
     bindE (orClose (wrapErr ''secure mirror diagnostic log: '' (Chmod path))) (\<lambda>_.
     bindE (orClose (wrapErr ''write mirror diagnostic log: '' (AppendFile path line))) (\<lambda>_.
     wrapErr ''close mirror diagnostic log: '' CloseFile)))))))"

section \<open>What a line may say\<close>

lemma ValidString_ToValidUTF8: "ValidString (ToValidUTF8 s)"
  unfolding ToValidUTF8_def using runes_valid [of s]
  by (intro runes_encode_runes) (auto simp: runes_def)

lemma ascii_ToValidUTF8: "c \<in> set (ToValidUTF8 s) \<Longrightarrow> code c < 0x80 \<Longrightarrow> c \<in> set s"
proof -
  assume c: "c \<in> set (ToValidUTF8 s)" "code c < 0x80"
  let ?rs = "map fst (filter (\<lambda>rw. rw \<noteq> (RuneError, 1)) (runes_w s))"
  have v: "\<forall>r \<in> set ?rs. valid_rune r" using runes_valid [of s] by (auto simp: runes_def)
  have "code c \<in> set (runes (ToValidUTF8 s))" using c by (rule runes_ascii)
  moreover have "runes (ToValidUTF8 s) = ?rs" unfolding ToValidUTF8_def by (rule runes_encode_runes(1) [OF v])
  moreover have "set ?rs \<subseteq> set (runes s)" by (auto simp: runes_def)
  ultimately have "code c \<in> set (runes s)" by auto
  then show "c \<in> set s" using c(2)
  proof (induction s rule: runes_w.induct)
    case (1 s)
    show ?case
    proof (cases "s = []")
      case False
      obtain r n where d: "DecodeRune s = (r, n)" by (rule prod.exhaust)
      from "1.prems"(1) False consider "code c = r" | "code c \<in> set (runes (drop n s))"
        by (auto simp: runes_Cons d)
      then show ?thesis
      proof cases
        case 1
        then have "code (hd s) = code c" using DecodeRune_bytes [OF False d] c(2) by auto
        then show ?thesis using False by (metis hd_in_set of_char_eq_iff)
      next
        case 2
        then show ?thesis using "1.IH" [OF False] d c(2) by (auto dest: in_set_dropD)
      qed
    qed (use 1 in simp)
  qed
qed

lemma dropInvalidEnd_prefix: "\<exists>t. v = dropInvalidEnd v @ t"
proof (induction v rule: dropInvalidEnd.induct)
  case (1 v)
  show ?case
  proof (cases "v = [] \<or> ValidString v")
    case True
    then show ?thesis by (subst dropInvalidEnd.simps) simp
  next
    case False
    then obtain t where "butlast v = dropInvalidEnd (butlast v) @ t" using 1 by blast
    then have "v = dropInvalidEnd (butlast v) @ t @ [last v]" using False
      by (metis append.assoc append_butlast_last_id)
    moreover have "dropInvalidEnd v = dropInvalidEnd (butlast v)"
      by (subst dropInvalidEnd.simps) (use False in simp)
    ultimately show ?thesis by metis
  qed
qed

lemma dropInvalidEnd_take: "length (dropInvalidEnd (take n v)) \<le> n" "set (dropInvalidEnd (take n v)) \<subseteq> set v"
proof -
  define u d where "u = take n v" and "d = dropInvalidEnd u"
  obtain t where t: "u = d @ t" using dropInvalidEnd_prefix unfolding d_def by blast
  have "length u \<le> n" by (simp add: u_def)
  with t have "length d \<le> n" by simp
  then show "length (dropInvalidEnd (take n v)) \<le> n" by (simp add: d_def u_def)
  have "set u \<subseteq> set v" by (simp add: u_def set_take_subset)
  with t have "set d \<subseteq> set v" by simp
  then show "set (dropInvalidEnd (take n v)) \<subseteq> set v" by (simp add: d_def u_def)
qed

lemma dropInvalidEnd_valid: "ValidString (dropInvalidEnd v)"
proof (induction v rule: dropInvalidEnd.induct)
  case (1 v)
  then show ?case by (subst dropInvalidEnd.simps) (auto simp: ValidString_def)
qed

text \<open>The path a diagnostic line records is at most 256 bytes of valid UTF-8 with nothing of a
  query or a fragment in it, whatever bytes the request carried; a short clean path is recorded
  as it is.\<close>

theorem sanitized_path_safe:
  "length (sanitizeDiagnosticPath v) \<le> maxDiagnosticPathSize \<and> ValidString (sanitizeDiagnosticPath v)
   \<and> CHR ''?'' \<notin> set (sanitizeDiagnosticPath v) \<and> CHR ''#'' \<notin> set (sanitizeDiagnosticPath v)"
proof -
  let ?w = "ToValidUTF8 (takeWhile (\<lambda>c. c \<noteq> CHR ''?'' \<and> c \<noteq> CHR ''#'') v)"
  have w: "CHR ''?'' \<notin> set ?w" "CHR ''#'' \<notin> set ?w"
    by (auto dest!: ascii_ToValidUTF8 set_takeWhileD)
  note cut = dropInvalidEnd_take [of maxDiagnosticPathSize ?w]
  show ?thesis
  proof (cases "length ?w \<le> maxDiagnosticPathSize")
    case True
    then have "sanitizeDiagnosticPath v = ?w" by (simp add: sanitizeDiagnosticPath_def)
    then show ?thesis using w True ValidString_ToValidUTF8 by simp
  next
    case False
    then have "sanitizeDiagnosticPath v = dropInvalidEnd (take maxDiagnosticPathSize ?w)"
      by (simp add: sanitizeDiagnosticPath_def)
    then show ?thesis using w cut dropInvalidEnd_valid by auto
  qed
qed



definition demo_diagnostic :: DiagnosticRecord where
  "demo_diagnostic = \<lparr>d_Level = ''info'', d_Component = ''server'', d_Event = ''started'', d_Code = [],
     d_Path = [], d_ViewerGeometry = None\<rparr>"

lemma demo_diagnostic_line: "marshal b (\<lambda>l. Inr ''{}'') ''now'' demo_diagnostic = Inr (''{}'' @ [char_of (10::nat)])"
proof -
  have "diagnosticTokenPattern ''server''" "diagnosticTokenPattern ''started''" by code_simp+
  then show ?thesis
    by (simp add: marshal_def demo_diagnostic_def diagnosticComponents_def diagnosticEvents_def
        maxDiagnosticEventSize_def Let_def)
qed


section \<open>The log stays bounded\<close>

text \<open>The sizes of all files, as an observation of the world.\<close>

definition fsize :: "string world \<Rightarrow> string \<Rightarrow> nat" where
  "fsize w p = (case lookup w p of None \<Rightarrow> 0 | Some n \<Rightarrow> node_size n)"

lemma fsize_mkdir_free: "mkdir_free fsize"
  by (auto simp: mkdir_free_def file_view_def fsize_def node_size_def fun_eq_iff)

lemmas fsize_view = fsize_mkdir_free [unfolded mkdir_free_def, THEN conjunct1]

lemma fsize_put [simp]: "fsize (put p n w) = (fsize w)(p := node_size n)"
  and fsize_del [simp]: "fsize (del p w) = (fsize w)(p := 0)"
  and fsize_none: "lookup w p = None \<Longrightarrow> (fsize w)(p := 0) = fsize w"
  by (auto simp: fsize_def fun_eq_iff)

lemma fault_same: "fault w = (r, w') \<Longrightarrow> lookup w' = lookup w \<and> fsize w' = fsize w"
  using keepsD [OF keeps_fault [of lookup], of w] keepsD [OF keeps_fault [OF fsize_view], of w]
  by (auto simp: file_view_def)

lemma openDiagnosticLog_fsize: "keeps fsize (openDiagnosticLog p)"
proof -
  have new: "node_size (Regular i t b None) = 0" for i t b by (simp add: node_size_def)
  have "keeps fsize (orClose fault)" "keeps fsize (tryE CloseFile (\<lambda>_. failE e :: (string world, unit) io))" for e
    by (intro keeps_orClose keeps_tryE keeps_fault keeps_files keeps_failE fsize_view)+
  then have k: "fsize (snd (orClose fault w)) = fsize w"
      "fsize (snd (tryE CloseFile (\<lambda>_. failE e :: (string world, unit) io) w)) = fsize w" for w e
    unfolding keeps_def by blast+
  show ?thesis unfolding openDiagnosticLog_def
    by (rule keeps_bindE [OF keeps_fault [OF fsize_view]])
       (auto simp: keeps_def k new fsize_none file_view_more [OF fsize_view] split: option.splits node.splits)
qed

lemma secureDiagnosticLog_fsize: "keeps fsize (secureDiagnosticLog p)"
  unfolding secureDiagnosticLog_def
  by (intro keeps_bindE openDiagnosticLog_fsize keeps_orClose keeps_files fsize_view)


text \<open>Operations that make no file larger.\<close>

definition shrinks :: "(string world, 'a) io \<Rightarrow> bool" where
  "shrinks m \<longleftrightarrow> (\<forall>w q. fsize (snd (m w)) q \<le> fsize w q)"

lemma shrinks_keeps: "keeps fsize m \<Longrightarrow> shrinks m"
  by (simp add: shrinks_def keeps_def)

lemma shrinks_bindE: "shrinks m \<Longrightarrow> (\<And>x. shrinks (f x)) \<Longrightarrow> shrinks (bindE m f)"
  unfolding shrinks_def bindE_apply by (auto split: prod.splits sum.splits) (metis le_trans snd_conv)+

lemma shrinks_tryE: "shrinks m \<Longrightarrow> (\<And>r. shrinks (f r)) \<Longrightarrow> shrinks (tryE m f)"
  unfolding shrinks_def tryE_apply by (auto split: prod.splits) (metis le_trans snd_conv)

lemma shrinks_wrapErr: "shrinks m \<Longrightarrow> shrinks (wrapErr s m)"
  unfolding wrapErr_def
  by (rule shrinks_tryE) (auto split: sum.splits intro: shrinks_keeps keeps_failE keeps_returnE)

lemma shrinks_fault: "shrinks fault"
  by (intro shrinks_keeps keeps_fault fsize_view)

lemma shrinks_Remove: "shrinks (Remove p)"
  unfolding Remove_def
  by (rule shrinks_bindE [OF shrinks_fault]) (auto simp: shrinks_def split: option.splits)

lemma Rename_fsize:
  assumes "Rename p q w = (r, w')" and "p \<noteq> q"
  shows "case r of Inl _ \<Rightarrow> fsize w' = fsize w | Inr _ \<Rightarrow> fsize w' = (fsize w)(p := 0, q := fsize w p)"
proof -
  obtain r0 w0 where f: "fault w = (r0, w0)" by (rule prod.exhaust)
  have n: "fsize w p = node_size n" if "lookup w p = Some n" for n using that by (simp add: fsize_def)
  show ?thesis using assms f fault_same [OF f] n
    by (auto simp: Rename_def bindE_apply split: sum.splits option.splits)
qed

lemma AppendFile_fsize:
  assumes "AppendFile p line w = (r, w')"
  shows "fsize w' = fsize w \<or> fsize w' = (fsize w)(p := fsize w p + length line)"
proof -
  obtain r0 w0 where f: "fault w = (r0, w0)" by (rule prod.exhaust)
  have n: "fsize w p = (case c of None \<Rightarrow> 0 | Some c \<Rightarrow> length c)" if "lookup w p = Some (Regular i t b c)" for i t b c
    using that by (simp add: fsize_def node_size_def split: option.splits)
  show ?thesis using assms f fault_same [OF f]
    by (auto simp: AppendFile_def bindE_apply node_size_def n split: sum.splits option.splits node.splits)
qed

text \<open>The log and its backup are within the limit; running an operation keeps it so.\<close>

definition within :: "string \<Rightarrow> string world \<Rightarrow> bool" where
  "within path w \<longleftrightarrow> fsize w path \<le> maxDiagnosticLogSize \<and> fsize w (path @ ''.1'') \<le> maxDiagnosticLogSize"

definition safe_step :: "string \<Rightarrow> (string world \<Rightarrow> bool) \<Rightarrow> (string world, 'a) io \<Rightarrow> (string world \<Rightarrow> bool) \<Rightarrow> bool" where
  "safe_step path P m Q \<longleftrightarrow>
     (\<forall>w. within path w \<and> P w \<longrightarrow> within path (snd (m w)) \<and> (\<forall>x. fst (m w) = Inr x \<longrightarrow> Q (snd (m w))))"

lemma safe_bindE:
  "safe_step path P m Q \<Longrightarrow> (\<And>x. safe_step path Q (f x) R) \<Longrightarrow> safe_step path P (bindE m f) R"
  unfolding safe_step_def bindE_apply by (fastforce split: prod.splits sum.splits)

lemma safe_shrinks: "shrinks m \<Longrightarrow> safe_step path P m (\<lambda>_. True)"
  unfolding safe_step_def shrinks_def within_def by (meson le_trans)

lemma safe_keeps: "keeps fsize m \<Longrightarrow> safe_step path (\<lambda>w. fsize w path + n \<le> k) m (\<lambda>w. fsize w path + n \<le> k)"
  unfolding safe_step_def keeps_def within_def by simp

lemma safe_guard: "(b \<Longrightarrow> safe_step path P m Q) \<Longrightarrow> safe_step path P (bindE (guardE b e) (\<lambda>_. m)) Q"
  by (auto simp: safe_step_def bindE_apply guardE_apply)

lemma safe_lift: "r = Inr x \<Longrightarrow> safe_step path P (f x) Q \<Longrightarrow> safe_step path P (bindE (liftE r) f) Q"
  by (simp add: safe_step_def bindE_apply liftE_apply)

lemma rotateLog_safe: "safe_step path P (rotateLog path) (\<lambda>w. fsize w path = 0)"
proof -
  let ?backup = "path @ ''.1''"
  have ren: "safe_step path Q (wrapErr s (Rename path ?backup)) (\<lambda>w. fsize w path = 0)" for Q s
    unfolding safe_step_def
  proof (intro allI impI)
    fix w assume w: "within path w \<and> Q w"
    obtain r w' where r: "Rename path ?backup w = (r, w')" by (rule prod.exhaust)
    from Rename_fsize [OF r] w
    show "within path (snd (wrapErr s (Rename path ?backup) w)) \<and>
        (\<forall>x. fst (wrapErr s (Rename path ?backup) w) = Inr x \<longrightarrow> fsize (snd (wrapErr s (Rename path ?backup) w)) path = 0)"
      by (cases r) (auto simp: wrapErr_def tryE_apply r io_simps within_def)
  qed
  have first: "shrinks (tryE (reading (Lstat ?backup)) (\<lambda>r. case r of
          Inr n \<Rightarrow> if \<not> is_regular n then failE (Msg ''mirror diagnostic backup is not a regular file'')
                   else wrapErr ''replace mirror diagnostic backup: '' (Remove ?backup)
        | Inl e \<Rightarrow> if errors_is e ErrNotExist then returnE ()
                   else failE (Wrapf ''inspect mirror diagnostic backup: '' e)))"
    by (rule shrinks_tryE)
       (auto split: sum.splits intro!: shrinks_keeps shrinks_wrapErr shrinks_Remove keeps_intros)
  have second: "shrinks (tryE (secureDiagnosticLog ?backup) (\<lambda>r. case r of
          Inr _ \<Rightarrow> returnE ()
        | Inl e \<Rightarrow> tryE (Remove ?backup) (\<lambda>removed.
            failE (Join (Wrapf ''secure mirror diagnostic backup: '' e #
              (case removed of Inl e2 \<Rightarrow> [e2] | Inr _ \<Rightarrow> []))))))" (is "shrinks ?m")
    by (rule shrinks_tryE)
       (auto split: sum.splits intro!: shrinks_keeps [OF secureDiagnosticLog_fsize] shrinks_tryE shrinks_Remove
          shrinks_keeps [OF keeps_failE] shrinks_keeps [OF keeps_returnE])
  have "safe_step path (\<lambda>w. fsize w path = 0) m (\<lambda>w. fsize w path = 0)" if "shrinks m" for m :: "(string world, unit) io"
    unfolding safe_step_def
  proof (intro allI impI)
    fix w assume w: "within path w \<and> fsize w path = 0"
    have "fsize (snd (m w)) q \<le> fsize w q" for q using that by (simp add: shrinks_def)
    from this [of path] this [of ?backup] w
    show "within path (snd (m w)) \<and> (\<forall>x. fst (m w) = Inr x \<longrightarrow> fsize (snd (m w)) path = 0)"
      by (simp add: within_def)
  qed
  from this [OF second] show ?thesis
    unfolding rotateLog_def Let_def
    by (rule safe_bindE [OF safe_shrinks [OF first] safe_bindE [OF ren]])
qed

lemma makeRoom_safe:
  assumes "length line \<le> maxDiagnosticLogSize"
  shows "safe_step path P (makeRoom path line) (\<lambda>w. fsize w path + length line \<le> maxDiagnosticLogSize)"
  unfolding safe_step_def
proof (intro allI impI)
  fix w assume w: "within path w \<and> P w"
  have rot: "within path (snd (rotateLog path w)) \<and>
      (\<forall>x. fst (rotateLog path w) = Inr x \<longrightarrow> fsize (snd (rotateLog path w)) path = 0)"
    using rotateLog_safe [of path P] w unfolding safe_step_def by blast
  have "makeRoom path line w = rotateLog path w \<or> (\<exists>e. makeRoom path line w = (Inl e, w))
      \<or> makeRoom path line w = (Inr (), w) \<and> fsize w path + length line \<le> maxDiagnosticLogSize"
    using assms by (auto simp: makeRoom_def tryE_apply reading_def io_simps Lstat_def fsize_def
        split: option.splits node.splits)
  then show "within path (snd (makeRoom path line w)) \<and>
      (\<forall>x. fst (makeRoom path line w) = Inr x \<longrightarrow> fsize (snd (makeRoom path line w)) path + length line \<le> maxDiagnosticLogSize)"
    using rot w assms by auto
qed


lemma AppendFile_safe:
  "safe_step path (\<lambda>w. fsize w path + length line \<le> maxDiagnosticLogSize) (AppendFile path line) (\<lambda>_. True)"
  unfolding safe_step_def
proof (intro allI impI)
  fix w assume w: "within path w \<and> fsize w path + length line \<le> maxDiagnosticLogSize"
  obtain r w' where r: "AppendFile path line w = (r, w')" by (rule prod.exhaust)
  from AppendFile_fsize [OF r] w
  show "within path (snd (AppendFile path line w)) \<and> (\<forall>x. fst (AppendFile path line w) = Inr x \<longrightarrow> True)"
    by (auto simp: within_def r)
qed

lemma safe_then_shrinks:
  assumes "safe_step path P m Q" and "\<And>r. shrinks (f r)"
  shows "safe_step path P (tryE m f) (\<lambda>_. True)"
  unfolding safe_step_def
proof (intro allI impI)
  fix w assume w: "within path w \<and> P w"
  obtain r w' where m: "m w = (r, w')" by (rule prod.exhaust)
  have i: "within path w'" using assms(1) w m unfolding safe_step_def by (metis snd_conv)
  have "fsize (snd (f r w')) q \<le> fsize w' q" for q using assms(2) by (simp add: shrinks_def)
  from this [of path] this [of "path @ ''.1''"] i
  show "within path (snd (tryE m f w)) \<and> (\<forall>x. fst (tryE m f w) = Inr x \<longrightarrow> True)"
    by (simp add: tryE_apply m within_def)
qed

lemma Sink_Write_within:
  assumes "within path w"
  shows "within path (snd (Sink_Write eventFirst encode now path r w))"
proof (cases "marshal eventFirst encode now r")
  case (Inl e)
  then show ?thesis using assms by (simp add: Sink_Write_def io_simps)
next
  case (Inr line)
  let ?P = "\<lambda>w. fsize w path + length line \<le> maxDiagnosticLogSize"
  have "length line \<le> maxDiagnosticEventSize"
    using Inr unfolding marshal_def Let_def by (auto split: if_splits option.splits sum.splits)
  then have len: "length line \<le> maxDiagnosticLogSize"
    by (simp add: maxDiagnosticEventSize_def maxDiagnosticLogSize_def)
  note k = keeps_wrapErr [OF openDiagnosticLog_fsize]
    keeps_orClose [OF fsize_view keeps_wrapErr [OF keeps_files(1) [OF fsize_view]]]
  have app: "safe_step path ?P (orClose (wrapErr s (AppendFile path line))) (\<lambda>_. True)" for s
    unfolding orClose_def wrapErr_def
    by (rule safe_then_shrinks, rule safe_then_shrinks [OF AppendFile_safe])
       (auto split: sum.splits intro!: shrinks_keeps keeps_intros fsize_view)
  have close: "safe_step path Q (wrapErr s CloseFile) (\<lambda>_. True)" for Q s
    by (intro safe_shrinks shrinks_wrapErr shrinks_keeps keeps_files fsize_view)
  have mk: "safe_step path Q (wrapErr s (MkdirAll (Dir path))) (\<lambda>_. True)" for Q s
    by (intro safe_shrinks shrinks_wrapErr shrinks_keeps keeps_MkdirAll fsize_mkdir_free)
  have "safe_step path (\<lambda>_. True) (Sink_Write eventFirst encode now path r) (\<lambda>_. True)"
    unfolding Sink_Write_def
    by (rule safe_lift [OF Inr], rule safe_guard, rule safe_bindE [OF mk], rule safe_bindE [OF makeRoom_safe [OF len]],
        rule safe_bindE [OF safe_keeps [OF k(1)]], rule safe_bindE [OF safe_keeps [OF k(2)]],
        rule safe_bindE [OF app close])
  then show ?thesis using assms by (simp add: safe_step_def)
qed

text \<open>Everything but the log, its backup and the directory they are in.\<close>

definition elsewhere :: "string \<Rightarrow> string world \<Rightarrow> string \<Rightarrow> string node option" where
  "elsewhere path w q = (if q \<in> {path, path @ ''.1'', Dir path} then None else lookup w q)"

lemma elsewhere_free:
  "p \<in> {path, path @ ''.1'', Dir path} \<Longrightarrow> path_free (elsewhere path) p"
  by (fastforce simp: path_free_def elsewhere_def fun_eq_iff)

lemma openDiagnosticLog_keeps: "path_free v p \<Longrightarrow> keeps v (openDiagnosticLog p)"
proof -
  assume v: "path_free v p"
  note f = path_free_file_view [OF v]
  have "keeps v (orClose fault)" "keeps v (tryE CloseFile (\<lambda>_. failE e :: (string world, unit) io))" for e
    by (intro keeps_orClose keeps_tryE keeps_fault keeps_files keeps_failE f)+
  then have k: "v (snd (orClose fault w)) = v w"
      "v (snd (tryE CloseFile (\<lambda>_. failE e :: (string world, unit) io) w)) = v w" for w e
    unfolding keeps_def by blast+
  show ?thesis unfolding openDiagnosticLog_def
    by (rule keeps_bindE [OF keeps_fault [OF f]])
       (auto simp: keeps_def k path_free_put [OF v] file_view_more [OF f] split: option.splits node.splits)
qed

lemma Rename_keeps: "path_free v p \<Longrightarrow> path_free v q \<Longrightarrow> keeps v (Rename p q)"
  unfolding Rename_def
  by (rule keeps_bindE [OF keeps_fault [OF path_free_file_view]])
     (auto simp: keeps_def path_free_put path_free_del split: option.splits)

lemma AppendFile_keeps: "path_free v p \<Longrightarrow> keeps v (AppendFile p line)"
  unfolding AppendFile_def
  by (rule keeps_bindE [OF keeps_fault [OF path_free_file_view]])
     (auto simp: keeps_def path_free_put split: option.splits node.splits)

lemma Sink_Write_keeps: "keeps (elsewhere path) (Sink_Write eventFirst encode now path r)"
proof -
  note v = elsewhere_free [of path path] elsewhere_free [of "path @ ''.1''" path] elsewhere_free [of "Dir path" path]
  note f = path_free_file_view [OF v(1), simplified]
  have "keeps (elsewhere path) (secureDiagnosticLog (path @ ''.1''))"
    unfolding secureDiagnosticLog_def using v
    by (intro keeps_bindE openDiagnosticLog_keeps keeps_orClose keeps_files f) auto
  then have rot: "keeps (elsewhere path) (rotateLog path)"
    unfolding rotateLog_def Let_def using v
    by (intro keeps_bindE keeps_tryE)
       (auto split: sum.splits intro!: keeps_intros Rename_keeps f)
  have "keeps (elsewhere path) (makeRoom path line)" for line
    unfolding makeRoom_def
    by (intro keeps_tryE) (auto split: sum.splits intro!: keeps_intros rot)
  then show ?thesis unfolding Sink_Write_def using v
    by (intro keeps_bindE keeps_wrapErr keeps_orClose openDiagnosticLog_keeps AppendFile_keeps keeps_files
        keeps_path keeps_liftE keeps_guardE f) auto
qed

text \<open>Writing many records, each with its clock reading.\<close>

definition Sink_Writes ::
    "(diagnosticLine \<Rightarrow> gerror + string) \<Rightarrow> string \<Rightarrow> (bool \<times> string \<times> DiagnosticRecord) list \<Rightarrow> string world \<Rightarrow> string world" where
  "Sink_Writes encode path calls w =
     foldl (\<lambda>w (eventFirst, now, r). snd (Sink_Write eventFirst encode now path r w)) w calls"

text \<open>C27: However many records are written and whatever system calls fail on the way, a log and a
  backup that are within the limit of one mebibyte stay within it, and no other file is created,
  changed or removed (the directory of the log aside).\<close>

theorem diagnostic_log_bounded:
  assumes "fsize w path \<le> maxDiagnosticLogSize" and "fsize w (path @ ''.1'') \<le> maxDiagnosticLogSize"
  shows "fsize (Sink_Writes encode path calls w) path \<le> maxDiagnosticLogSize
    \<and> fsize (Sink_Writes encode path calls w) (path @ ''.1'') \<le> maxDiagnosticLogSize
    \<and> (\<forall>q. q \<notin> {path, path @ ''.1'', Dir path} \<longrightarrow> lookup (Sink_Writes encode path calls w) q = lookup w q)"
proof -
  have "within path (Sink_Writes encode path calls w) \<and> elsewhere path (Sink_Writes encode path calls w) = elsewhere path w"
    if "within path w" for w
    unfolding Sink_Writes_def using that
    by (induction calls arbitrary: w)
       (auto simp: Sink_Write_within Sink_Write_keeps [unfolded keeps_def, rule_format])
  from this [of w] assms have i: "within path (Sink_Writes encode path calls w)"
    and e: "elsewhere path (Sink_Writes encode path calls w) = elsewhere path w" by (auto simp: within_def)
  have "lookup (Sink_Writes encode path calls w) q = lookup w q" if "q \<notin> {path, path @ ''.1'', Dir path}" for q
    using fun_cong [OF e, of q] that by (simp add: elsewhere_def)
  with i show ?thesis by (simp add: within_def)
qed

theorem diagnostic_log_bounded_witness:
  "fsize (Sink_Writes (\<lambda>l. Inr ''{}'') ''/s/d.jsonl'' [(True, ''t'', demo_diagnostic), (False, ''u'', demo_diagnostic)]
      \<lparr>w_files = [], w_next = 0, w_now = 0, w_locks = [], w_faults = []\<rparr>) ''/s/d.jsonl'' \<le> maxDiagnosticLogSize"
  using diagnostic_log_bounded [of "\<lparr>w_files = [], w_next = 0, w_now = 0, w_locks = [], w_faults = []\<rparr>" "''/s/d.jsonl''"]
  by (simp add: fsize_def lookup_def)

end
