(* ===== verification/Mirror_HTTP.thy ===== *)
theory Mirror_HTTP
  imports Mirror_Diagnostics
begin

text \<open>
  The HTTP side of \<open>internal/mirror/server.go\<close>: routing of requests (\<open>ServeHTTP\<close>), the static
  assets, the security headers, and the rate-limited diagnostics a remote peer can cause
  (\<open>recordRemoteDiagnostic\<close> with its queue and \<open>runRemoteDiagnostics\<close>). Of \<open>net/http\<close> the model
  has \<open>Header.Set\<close>, \<open>Header.Del\<close>, \<open>http.Error\<close> and \<open>http.NotFound\<close>. The embedded file system is a
  parameter; so is the WebSocket route, whose handler is the subject of the server's state machine.
\<close>

section \<open>Diagnostics a peer can cause\<close>

definition remoteDiagnosticQueueSize :: nat where "remoteDiagnosticQueueSize = 8"

text \<open>Times and durations are in nanoseconds; the zero time is \<open>None\<close>.\<close>

definition remoteDiagnosticInterval :: int where "remoteDiagnosticInterval = 60 * 1000000000"

record remoteDiagnostics =
  rd_record :: bool
  rd_queue :: "DiagnosticRecord list"
  rd_last :: "string \<Rightarrow> int option"
  rd_stopped :: bool

definition recordRemoteDiagnostic :: "int \<Rightarrow> string \<Rightarrow> DiagnosticRecord \<Rightarrow> remoteDiagnostics \<Rightarrow> remoteDiagnostics" where
  "recordRemoteDiagnostic now key r s =
     (if \<not> rd_record s then s
      else if rd_stopped s then s
      else if (case rd_last s key of None \<Rightarrow> False | Some lst \<Rightarrow> now - lst < remoteDiagnosticInterval) then s
      else if length (rd_queue s) < remoteDiagnosticQueueSize
      then s\<lparr>rd_queue := rd_queue s @ [r], rd_last := (rd_last s)(key := Some now)\<rparr>
      else s)"

definition recordHandshakeRejection :: "int \<Rightarrow> string \<Rightarrow> remoteDiagnostics \<Rightarrow> remoteDiagnostics" where
  "recordHandshakeRejection now cd =
     recordRemoteDiagnostic now (''handshake:'' @ cd)
       \<lparr>d_Level = ''warn'', d_Component = ''handshake'', d_Event = ''rejected'', d_Code = cd, d_Path = [],
        d_ViewerGeometry = None\<rparr>"

definition requiredMirrorAsset :: "string \<Rightarrow> bool" where
  "requiredMirrorAsset name \<longleftrightarrow> name \<in> set
     [''assets/index.html'', ''assets/wrap-mirror.css'', ''assets/wrap-mirror-bootstrap.js'',
      ''assets/wrap-mirror.js'', ''assets/wrap-mirror-viewport.js'', ''assets/third_party/xterm/xterm.mjs'',
      ''assets/third_party/xterm/xterm.css'', ''assets/third_party/xterm/addon-fit.mjs'',
      ''assets/third_party/xterm/addon-web-links.mjs'']"

definition recordMissingAsset :: "int \<Rightarrow> string \<Rightarrow> remoteDiagnostics \<Rightarrow> remoteDiagnostics" where
  "recordMissingAsset now name s =
     (if \<not> requiredMirrorAsset name then s
      else recordRemoteDiagnostic now (''asset:'' @ name)
        \<lparr>d_Level = ''error'', d_Component = ''server'', d_Event = ''asset_missing'',
         d_Code = ''client_asset_unavailable'', d_Path = name, d_ViewerGeometry = None\<rparr> s)"

definition stopRemoteDiagnostics :: "remoteDiagnostics \<Rightarrow> remoteDiagnostics" where
  "stopRemoteDiagnostics s = s\<lparr>rd_stopped := True\<rparr>"

text \<open>One record taken from the queue by \<open>runRemoteDiagnostics\<close>, before and after the stop.\<close>

definition emitNext :: "remoteDiagnostics \<Rightarrow> DiagnosticRecord option \<times> remoteDiagnostics" where
  "emitNext s = (case rd_queue s of [] \<Rightarrow> (None, s) | r # rs \<Rightarrow> (Some r, s\<lparr>rd_queue := rs\<rparr>))"

section \<open>Requests and responses\<close>

type_synonym header = "(string \<times> string) list"

definition header_del :: "string \<Rightarrow> header \<Rightarrow> header" where
  "header_del k h = filter (\<lambda>(q, _). q \<noteq> k) h"

definition header_set :: "string \<Rightarrow> string \<Rightarrow> header \<Rightarrow> header" where
  "header_set k v h = (k, v) # header_del k h"

record httpResponse =
  hr_Status :: nat
  hr_Header :: header
  hr_Body :: string

definition http_Error :: "header \<Rightarrow> string \<Rightarrow> nat \<Rightarrow> httpResponse" where
  "http_Error h msg st =
     \<lparr>hr_Status = st,
      hr_Header = header_set ''X-Content-Type-Options'' ''nosniff''
        (header_set ''Content-Type'' ''text/plain; charset=utf-8'' (header_del ''Content-Length'' h)),
      hr_Body = msg @ [char_of (10::nat)]\<rparr>"

definition http_NotFound :: "header \<Rightarrow> httpResponse" where
  "http_NotFound h = http_Error h ''404 page not found'' 404"

definition security_headers :: header where
  "security_headers =
     [(''Cache-Control'', ''no-store''),
      (''Content-Security-Policy'',
       ''default-src 'none'; script-src 'self'; style-src 'self' 'unsafe-inline'; connect-src 'self'; '' @
       ''img-src 'self'; font-src 'self'; object-src 'none'; base-uri 'none'; '' @
       ''frame-ancestors 'none'; form-action 'none'' @ [char_of (39::nat)]),
      (''Permissions-Policy'', ''accelerometer=(), camera=(), geolocation=(), gyroscope=(), microphone=(), payment=(), usb=()''),
      (''Referrer-Policy'', ''no-referrer''),
      (''Strict-Transport-Security'', ''max-age=31536000; includeSubDomains''),
      (''X-Content-Type-Options'', ''nosniff''),
      (''X-Frame-Options'', ''DENY'')]"

definition setSecurityHeaders :: "header \<Rightarrow> header" where
  "setSecurityHeaders h = foldl (\<lambda>h (k, v). header_set k v h) h security_headers"

text \<open>\<open>path.Ext\<close>: from the last dot of the last element.\<close>

definition Ext_of :: "string \<Rightarrow> string" where
  "Ext_of p =
     (let b = takeWhile (\<lambda>c. c \<noteq> CHR ''/'') (rev p) in
      if CHR ''.'' \<in> set b then CHR ''.'' # rev (takeWhile (\<lambda>c. c \<noteq> CHR ''.'') b) else [])"

definition assetContentType :: "string \<Rightarrow> string" where
  "assetContentType name =
     (let e = Ext_of name in
      if e = ''.html'' then ''text/html; charset=utf-8''
      else if e = ''.css'' then ''text/css; charset=utf-8''
      else if e = ''.js'' \<or> e = ''.mjs'' then ''text/javascript; charset=utf-8''
      else [])"

definition serveAsset ::
    "(string \<Rightarrow> gerror + string) \<Rightarrow> int \<Rightarrow> header \<Rightarrow> string \<Rightarrow> string \<Rightarrow> remoteDiagnostics \<Rightarrow> httpResponse \<times> remoteDiagnostics" where
  "serveAsset assetFS now h name contentType s =
     (case assetFS name of
        Inl e \<Rightarrow> (http_NotFound h, recordMissingAsset now name s)
      | Inr body \<Rightarrow> (\<lparr>hr_Status = 200, hr_Header = header_set ''Content-Type'' contentType h, hr_Body = body\<rparr>, s))"

record httpRequest =
  rq_Method :: string
  rq_Path :: string

definition ServeHTTP ::
    "(string \<Rightarrow> gerror + string) \<Rightarrow> (header \<Rightarrow> remoteDiagnostics \<Rightarrow> httpResponse \<times> remoteDiagnostics) \<Rightarrow> int
     \<Rightarrow> header \<Rightarrow> httpRequest \<Rightarrow> remoteDiagnostics \<Rightarrow> httpResponse \<times> remoteDiagnostics" where
  "ServeHTTP assetFS handleWebSocket now h0 rq s =
     (let h = setSecurityHeaders h0; p = rq_Path rq in
      if rq_Method rq \<noteq> ''GET''
      then (http_Error (header_set ''Allow'' ''GET'' h) ''method not allowed'' 405, s)
      else if p = ''/'' then serveAsset assetFS now h ''assets/index.html'' ''text/html; charset=utf-8'' s
      else if p = ''/ws'' then handleWebSocket h s
      else if HasPrefix p ''/assets/'' then
        (let name = Clean (TrimPrefix p ''/'') in
         if name = ''assets'' \<or> HasSuffix p ''/'' then (http_NotFound h, s)
         else let contentType = assetContentType name in
           if contentType = [] then (http_NotFound h, s)
           else serveAsset assetFS now h name contentType s)
      else (http_NotFound h, s))"


section \<open>Every response carries the security headers\<close>

lemma map_of_header_del [simp]: "map_of (header_del k h) q = (if q = k then None else map_of h q)"
  unfolding header_del_def by (induction h) auto

lemma map_of_header_set [simp]: "map_of (header_set k v h) q = (if q = k then Some v else map_of h q)"
  by (simp add: header_set_def)

text \<open>All entries of one list of headers are in force in another.\<close>

definition in_force :: "header \<Rightarrow> header \<Rightarrow> bool" where
  "in_force hs h \<longleftrightarrow> (\<forall>k v. (k, v) \<in> set hs \<longrightarrow> map_of h k = Some v)"

lemma not_key: "map_of hs k = None \<Longrightarrow> (k, v) \<notin> set hs"
  by (force simp: map_of_eq_None_iff)

lemma in_force_set: "in_force hs h \<Longrightarrow> map_of hs k = None \<Longrightarrow> in_force hs (header_set k v h)"
  using not_key [of hs k] by (simp add: in_force_def)

lemma in_force_same:
  "in_force hs h \<Longrightarrow> distinct (map fst hs) \<Longrightarrow> (k, v) \<in> set hs \<Longrightarrow> in_force hs (header_set k v h)"
  by (simp add: in_force_def) (metis eq_key_imp_eq_value)

lemma in_force_del: "in_force hs h \<Longrightarrow> map_of hs k = None \<Longrightarrow> in_force hs (header_del k h)"
  using not_key [of hs k] by (simp add: in_force_def)

lemma in_force_sets: "distinct (map fst hs) \<Longrightarrow> in_force hs (foldl (\<lambda>h (k, v). header_set k v h) h hs)"
proof (induction hs rule: rev_induct)
  case (snoc kv hs)
  obtain k v where kv: "kv = (k, v)" by (rule prod.exhaust)
  have "k \<notin> fst ` set hs" "distinct (map fst hs)" using snoc.prems by (simp_all add: kv)
  with snoc.IH show ?case by (auto simp: in_force_def kv rev_image_eqI)
qed (simp add: in_force_def)

definition secured :: "httpResponse \<Rightarrow> bool" where
  "secured r \<longleftrightarrow> in_force security_headers (hr_Header r)"

lemma security_keys:
  "distinct (map fst security_headers)" "map_of security_headers ''Content-Type'' = None"
  "map_of security_headers ''Content-Length'' = None" "map_of security_headers ''Allow'' = None"
  "(''X-Content-Type-Options'', ''nosniff'') \<in> set security_headers"
  by (simp_all add: security_headers_def)

lemma secured_headers: "in_force security_headers (setSecurityHeaders h)"
  unfolding setSecurityHeaders_def by (rule in_force_sets [OF security_keys(1)])

lemma secured_error: "in_force security_headers h \<Longrightarrow> secured (http_Error h msg st)"
  unfolding secured_def http_Error_def httpResponse.select_convs
  by (rule in_force_same [OF in_force_set [OF in_force_del]]) (use security_keys in simp_all)

lemma serveAsset_secured:
  "in_force security_headers h \<Longrightarrow> secured (fst (serveAsset assetFS now h name ct s))"
  using secured_error [of h] in_force_set [of security_headers h "''Content-Type''"] security_keys(2)
  by (auto simp: serveAsset_def http_NotFound_def secured_def split: sum.splits)

text \<open>C26: Every response other than that of the WebSocket route carries all seven security headers with
  the values of the code, and it is a success only for \<open>GET\<close> and only for a file of the asset file
  system whose extension is one of the four known ones, sent with the content type of that
  extension.\<close>

theorem ServeHTTP_secured:
  assumes "ServeHTTP assetFS ws now h rq s = (resp, s')" and "rq_Path rq \<noteq> ''/ws'' \<or> rq_Method rq \<noteq> ''GET''"
  shows "secured resp \<and> (hr_Status resp = 200 \<longrightarrow> rq_Method rq = ''GET'' \<and>
    (\<exists>name. assetFS name = Inr (hr_Body resp) \<and> map_of (hr_Header resp) ''Content-Type'' = Some (assetContentType name)
       \<and> Ext_of name \<in> {''.html'', ''.css'', ''.js'', ''.mjs''}
       \<and> (rq_Path rq = ''/'' \<and> name = ''assets/index.html''
          \<or> HasPrefix (rq_Path rq) ''/assets/'' \<and> name = Clean (drop 1 (rq_Path rq)))))"
proof -
  note h = secured_headers [of h]
  have a: "in_force security_headers (header_set ''Allow'' ''GET'' (setSecurityHeaders h))"
    using in_force_set [OF h] security_keys(4) by blast
  have ext: "Ext_of name \<in> {''.html'', ''.css'', ''.js'', ''.mjs''}" if "assetContentType name \<noteq> []" for name
    using that by (auto simp: assetContentType_def Let_def split: if_splits)
  have idx: "Ext_of ''assets/index.html'' = ''.html''" by (simp add: Ext_of_def)
  have idxc: "assetContentType ''assets/index.html'' = ''text/html; charset=utf-8''" by (simp add: assetContentType_def idx)
  have tp: "TrimPrefix p ''/'' = drop 1 p" if "HasPrefix p ''/assets/''" for p :: string
    using that by (auto simp: HasPrefix_iff TrimPrefix_def HasPrefix_def)
  have sec: "secured resp"
    using assms secured_error [OF h] secured_error [OF a] serveAsset_secured [OF h]
    by (auto simp: ServeHTTP_def Let_def http_NotFound_def split: if_splits) (metis fst_conv)+
  have nf: "hr_Status (http_NotFound x) = 404" "hr_Status (http_Error x m 405) = 405" for x m
    by (simp_all add: http_NotFound_def http_Error_def)
  have "hr_Status resp = 200 \<longrightarrow> rq_Method rq = ''GET'' \<and>
    (\<exists>name. assetFS name = Inr (hr_Body resp) \<and> map_of (hr_Header resp) ''Content-Type'' = Some (assetContentType name)
       \<and> Ext_of name \<in> {''.html'', ''.css'', ''.js'', ''.mjs''}
       \<and> (rq_Path rq = ''/'' \<and> name = ''assets/index.html''
          \<or> HasPrefix (rq_Path rq) ''/assets/'' \<and> name = Clean (drop 1 (rq_Path rq))))"
    using assms nf ext idx idxc tp [of "rq_Path rq"]
    by (auto simp: ServeHTTP_def Let_def serveAsset_def split: if_splits sum.splits)
  with sec show ?thesis by blast
qed

theorem ServeHTTP_secured_witness:
  "secured (fst (ServeHTTP (\<lambda>_. Inl (Sentinel ErrNotExist)) (\<lambda>h s. (http_NotFound h, s)) 0 []
     \<lparr>rq_Method = ''POST'', rq_Path = ''/ws''\<rparr> \<lparr>rd_record = False, rd_queue = [], rd_last = (\<lambda>_. None), rd_stopped = False\<rparr>))"
proof -
  let ?s = "\<lparr>rd_record = False, rd_queue = [], rd_last = (\<lambda>_. None), rd_stopped = False\<rparr>"
  obtain r s' where r: "ServeHTTP (\<lambda>_. Inl (Sentinel ErrNotExist)) (\<lambda>h s. (http_NotFound h, s)) 0 []
     \<lparr>rq_Method = ''POST'', rq_Path = ''/ws''\<rparr> ?s = (r, s')" by (rule prod.exhaust)
  show ?thesis using ServeHTTP_secured [OF r] r by simp
qed

section \<open>A peer cannot flood the log\<close>

text \<open>What happens to the queue of remote diagnostics, with the records accepted and emitted so far.\<close>

datatype rdEvent = Report int string DiagnosticRecord | EmitNext | StopDiagnostics

record rdHistory =
  hi_state :: remoteDiagnostics
  hi_accepted :: "(int \<times> string \<times> DiagnosticRecord) list"
  hi_emitted :: "DiagnosticRecord list"

fun rd_event :: "rdEvent \<Rightarrow> rdHistory \<Rightarrow> rdHistory" where
  "rd_event (Report now key r) h =
     (let s' = recordRemoteDiagnostic now key r (hi_state h) in
      h\<lparr>hi_state := s',
        hi_accepted := hi_accepted h @ (if rd_queue s' = rd_queue (hi_state h) then [] else [(now, key, r)])\<rparr>)"
| "rd_event EmitNext h =
     (case emitNext (hi_state h) of (None, s') \<Rightarrow> h
      | (Some r, s') \<Rightarrow> h\<lparr>hi_state := s', hi_emitted := hi_emitted h @ [r]\<rparr>)"
| "rd_event StopDiagnostics h = h\<lparr>hi_state := stopRemoteDiagnostics (hi_state h)\<rparr>"

definition rd_run :: "rdEvent list \<Rightarrow> rdHistory \<Rightarrow> rdHistory" where
  "rd_run es h = foldl (\<lambda>h e. rd_event e h) h es"

definition rd_start :: rdHistory where
  "rd_start = \<lparr>hi_state = \<lparr>rd_record = True, rd_queue = [], rd_last = (\<lambda>_. None), rd_stopped = False\<rparr>,
     hi_accepted = [], hi_emitted = []\<rparr>"

definition times_of :: "string \<Rightarrow> (int \<times> string \<times> DiagnosticRecord) list \<Rightarrow> int list" where
  "times_of key acc = map fst (filter (\<lambda>(t, k, r). k = key) acc)"

definition spaced :: "int list \<Rightarrow> bool" where
  "spaced ts \<longleftrightarrow> sorted_wrt (\<lambda>a b. b - a \<ge> remoteDiagnosticInterval) ts"

definition rd_inv :: "rdHistory \<Rightarrow> bool" where
  "rd_inv h \<longleftrightarrow> map (snd \<circ> snd) (hi_accepted h) = hi_emitted h @ rd_queue (hi_state h)
     \<and> length (rd_queue (hi_state h)) \<le> remoteDiagnosticQueueSize
     \<and> (\<forall>key. spaced (times_of key (hi_accepted h)) \<and>
          rd_last (hi_state h) key = (if times_of key (hi_accepted h) = [] then None else Some (last (times_of key (hi_accepted h)))))"

lemma spaced_Nil [simp]: "spaced []"
  by (simp add: spaced_def)

lemma spaced_snoc:
  assumes "spaced ts" and "ts \<noteq> [] \<Longrightarrow> t - last ts \<ge> remoteDiagnosticInterval"
  shows "spaced (ts @ [t])"
proof (cases ts rule: rev_cases)
  case (snoc bs l)
  have "0 < remoteDiagnosticInterval" by (simp add: remoteDiagnosticInterval_def)
  with assms snoc show ?thesis by (fastforce simp: spaced_def sorted_wrt_append)
qed (simp add: spaced_def)

lemma times_of_snoc: "times_of key (acc @ [(t, k, r)]) = times_of key acc @ (if k = key then [t] else [])"
  by (simp add: times_of_def)

lemma rd_event_inv: "rd_inv h \<Longrightarrow> rd_inv (rd_event e h)"
proof (induction e h rule: rd_event.induct)
  case (1 now key r h)
  let ?s = "hi_state h"
  show ?case
  proof (cases "rd_queue (recordRemoteDiagnostic now key r ?s) = rd_queue ?s")
    case True
    then have "recordRemoteDiagnostic now key r ?s = ?s"
      by (auto simp: recordRemoteDiagnostic_def split: if_splits)
    with True 1 show ?thesis by (simp add: rd_inv_def)
  next
    case False
    then have s': "recordRemoteDiagnostic now key r ?s =
        ?s\<lparr>rd_queue := rd_queue ?s @ [r], rd_last := (rd_last ?s)(key := Some now)\<rparr>"
      and room: "length (rd_queue ?s) < remoteDiagnosticQueueSize"
      and ok: "\<not> (case rd_last ?s key of None \<Rightarrow> False | Some lst \<Rightarrow> now - lst < remoteDiagnosticInterval)"
      by (auto simp: recordRemoteDiagnostic_def split: if_splits)
    have "spaced (times_of key (hi_accepted h) @ [now])"
      using 1 ok by (intro spaced_snoc) (auto simp: rd_inv_def split: option.splits if_splits)
    then show ?thesis using 1 room by (auto simp: s' rd_inv_def times_of_snoc)
  qed
next
  case (2 h)
  then show ?case by (auto simp: emitNext_def rd_inv_def split: list.splits)
next
  case (3 h)
  then show ?case by (simp add: rd_inv_def stopRemoteDiagnostics_def)
qed

text \<open>Whatever a remote peer provokes and whenever the writer of the log gets to run: two accepted
  diagnostics with the same key are at least a minute apart, at most eight wait, and the accepted
  ones are emitted in order, none lost and none twice, also after the stop.\<close>

theorem remote_diagnostics_limited:
  "spaced (times_of key (hi_accepted (rd_run es rd_start)))
   \<and> length (rd_queue (hi_state (rd_run es rd_start))) \<le> remoteDiagnosticQueueSize
   \<and> map (snd \<circ> snd) (hi_accepted (rd_run es rd_start)) =
       hi_emitted (rd_run es rd_start) @ rd_queue (hi_state (rd_run es rd_start))"
proof -
  have "rd_inv (rd_run es h)" if "rd_inv h" for h
    using that unfolding rd_run_def by (induction es arbitrary: h) (auto simp: rd_event_inv)
  moreover have "rd_inv rd_start" by (simp add: rd_inv_def rd_start_def times_of_def)
  ultimately show ?thesis unfolding rd_inv_def by blast
qed

end
