(* ===== verification/Mirror_Protocol.thy ===== *)
theory Mirror_Protocol
  imports Wrap_Prelude
begin

text \<open>
  The browser protocol of \<open>internal/mirror/protocol.go\<close>: frame tags and limits, the
  control payloads, the validation of client and server frames, and the splitting of
  terminal output into frames. Go's \<open>any\<close> is a sum of the dynamic types the code
  distinguishes. The JSON codec is a parameter: \<open>marshal\<close> for \<open>json.Marshal\<close> and
  \<open>decoder\<close> for the two \<open>Decode\<close> calls on one payload (the value, and what follows it).
\<close>

section \<open>Constants and payloads\<close>

definition ProtocolVersion :: int where "ProtocolVersion = 3"

definition TagClientHello :: byte where "TagClientHello = 0x01"
definition TagClose :: byte where "TagClose = 0x05"
definition TagInput :: byte where "TagInput = 0x06"
definition TagOutput :: byte where "TagOutput = 0x07"
definition TagReady :: byte where "TagReady = 0x08"
definition TagShutdown :: byte where "TagShutdown = 0x0a"
definition TagError :: byte where "TagError = 0x0b"

definition MaxWireMessage :: nat where "MaxWireMessage = 128 * 1024"
definition MaxClientQueueBytes :: nat where "MaxClientQueueBytes = 1024 * 1024"
definition MaxHandshakes :: nat where "MaxHandshakes = 16"
definition MaxClients :: nat where "MaxClients = 8"

lemmas tag_defs = TagClientHello_def TagClose_def TagInput_def TagOutput_def TagReady_def
  TagShutdown_def TagError_def

record ClientHello =
  hello_Version :: int

record Ready =
  ready_ID :: string
  ready_Generation :: string
  ready_Columns :: "16 word"
  ready_Rows :: "16 word"

record Shutdown =
  shutdown_Reason :: string
  shutdown_Retry :: bool

record ProtocolError =
  perr_Code :: string
  perr_Message :: string
  perr_Retry :: bool

datatype frame_value =
    VNil
  | VBytes bytes
  | VClientHello ClientHello
  | VReady Ready
  | VShutdown Shutdown
  | VProtocolError ProtocolError

section \<open>Operations\<close>

definition isControlTag :: "byte \<Rightarrow> bool" where
  "isControlTag tag \<longleftrightarrow>
     tag = TagClientHello \<or> tag = TagReady \<or> tag = TagShutdown \<or> tag = TagError"

definition EncodeControl ::
  "(frame_value \<Rightarrow> gerror + bytes) \<Rightarrow> byte \<Rightarrow> frame_value \<Rightarrow> gerror + bytes" where
  "EncodeControl marshal tag v =
     (if \<not> isControlTag tag then Inl (Msg ''tag does not carry JSON control data'')
      else case marshal v of
        Inl e \<Rightarrow> Inl (Wrapf ''encode control tag: '' e)
      | Inr payload \<Rightarrow>
          if length payload + 1 + 16 > MaxWireMessage
          then Inl (Msg ''control payload exceeds wire limit'')
          else Inr payload)"

definition DecodeControl ::
  "(bytes \<Rightarrow> (gerror + 'v) \<times> trailing) \<Rightarrow> byte \<Rightarrow> bytes \<Rightarrow> gerror + 'v" where
  "DecodeControl decoder tag payload =
     (if \<not> isControlTag tag then Inl (Msg ''tag does not carry JSON control data'')
      else if length payload + 1 + 16 > MaxWireMessage
      then Inl (Msg ''control payload exceeds wire limit'')
      else case decoder payload of
        (Inl e, _) \<Rightarrow> Inl (Wrapf ''decode control tag: '' e)
      | (Inr v, AtEOF) \<Rightarrow> Inr v
      | (Inr v, TrailingValue) \<Rightarrow> Inl (Msg ''control payload contains trailing JSON value'')
      | (Inr v, TrailingError e) \<Rightarrow> Inl (Wrapf ''decode trailing control data: '' e))"

definition validateIdentity :: "string \<Rightarrow> string \<Rightarrow> gerror option" where
  "validateIdentity ident generation =
     (if ident = [] then Some (Msg ''session id is required'')
      else if generation = [] then Some (Msg ''session generation is required'')
      else None)"

definition validateDimensions :: "16 word \<Rightarrow> 16 word \<Rightarrow> gerror option" where
  "validateDimensions columns rows =
     (if columns < 2 \<or> columns > 500 then Some (Msg ''columns outside 2..500'')
      else if rows < 2 \<or> rows > 300 then Some (Msg ''rows outside 2..300'')
      else None)"

definition ValidateClientFrame :: "byte \<Rightarrow> frame_value \<Rightarrow> gerror option" where
  "ValidateClientFrame tag v =
     (if tag = TagClientHello then
        (case v of
           VClientHello hello \<Rightarrow>
             if hello_Version hello \<noteq> ProtocolVersion
             then Some (Msg ''unsupported protocol version'') else None
         | _ \<Rightarrow> Some (Msg ''invalid client hello payload''))
      else if tag = TagClose then
        (case v of
           VNil \<Rightarrow> None
         | VBytes payload \<Rightarrow>
             if length payload \<noteq> 0 then Some (Msg ''close payload must be empty'') else None
         | _ \<Rightarrow> Some (Msg ''invalid close payload''))
      else if tag = TagInput then
        (case v of
           VBytes payload \<Rightarrow>
             if length payload + 1 + 16 > MaxWireMessage
             then Some (Msg ''input payload exceeds wire limit'') else None
         | _ \<Rightarrow> Some (Msg ''invalid input payload''))
      else Some (Msg ''tag is not valid from client''))"

definition ValidateServerFrame :: "byte \<Rightarrow> frame_value \<Rightarrow> gerror option" where
  "ValidateServerFrame tag v =
     (if tag = TagClose then
        (case v of
           VNil \<Rightarrow> None
         | VBytes payload \<Rightarrow>
             if length payload \<noteq> 0
             then Some (Msg ''close acknowledgement payload must be empty'') else None
         | _ \<Rightarrow> Some (Msg ''invalid close acknowledgement payload''))
      else if tag = TagOutput then
        (case v of
           VBytes payload \<Rightarrow>
             if length payload + 1 + 16 > MaxWireMessage
             then Some (Msg ''output payload exceeds wire limit'') else None
         | _ \<Rightarrow> Some (Msg ''invalid output payload''))
      else if tag = TagReady then
        (case v of
           VReady opened \<Rightarrow>
             (case validateIdentity (ready_ID opened) (ready_Generation opened) of
                Some e \<Rightarrow> Some e
              | None \<Rightarrow> validateDimensions (ready_Columns opened) (ready_Rows opened))
         | _ \<Rightarrow> Some (Msg ''invalid opened payload''))
      else if tag = TagShutdown then
        (case v of VShutdown _ \<Rightarrow> None | _ \<Rightarrow> Some (Msg ''invalid shutdown payload''))
      else if tag = TagError then
        (case v of
           VProtocolError p \<Rightarrow>
             if perr_Code p = [] \<or> perr_Message p = []
             then Some (Msg ''invalid error payload'') else None
         | _ \<Rightarrow> Some (Msg ''invalid error payload''))
      else Some (Msg ''tag is not valid from server''))"

definition maxPlainPayload :: nat where
  "maxPlainPayload = MaxWireMessage - 1 - 16"

lemma maxPlainPayload_pos [simp]: "0 < maxPlainPayload" "maxPlainPayload \<noteq> 0"
  by (simp_all add: maxPlainPayload_def MaxWireMessage_def)

function ChunkOutput :: "bytes \<Rightarrow> bytes list" where
  "ChunkOutput data =
     (if length data = 0 then []
      else let size = min (length data) maxPlainPayload
           in take size data # ChunkOutput (drop size data))"
  by pat_completeness auto
termination
  by (relation "measure length") (auto simp: min_def)

declare ChunkOutput.simps [simp del]

section \<open>Frames and their sizes\<close>

lemma maxPlainPayload_fits: "length payload \<le> maxPlainPayload \<longleftrightarrow> length payload + 1 + 16 \<le> MaxWireMessage"
  by (simp add: maxPlainPayload_def MaxWireMessage_def)

lemma ChunkOutput_Nil [simp]: "ChunkOutput [] = []"
  by (subst ChunkOutput.simps) simp

lemma ChunkOutput_nonempty:
  "data \<noteq> [] \<Longrightarrow>
     ChunkOutput data = take maxPlainPayload data # ChunkOutput (drop maxPlainPayload data)"
  by (subst ChunkOutput.simps) (auto simp: Let_def min_def)

lemma concat_ChunkOutput: "concat (ChunkOutput data) = data"
proof (induction data rule: length_induct)
  case (1 data)
  show ?case
  proof (cases "data = []")
    case False
    then have "length (drop maxPlainPayload data) < length data" by simp
    with 1 have "concat (ChunkOutput (drop maxPlainPayload data)) = drop maxPlainPayload data"
      by blast
    with False show ?thesis by (simp add: ChunkOutput_nonempty)
  qed simp
qed

lemma ChunkOutput_sizes:
  "c \<in> set (ChunkOutput data) \<Longrightarrow> c \<noteq> [] \<and> length c \<le> maxPlainPayload"
proof (induction data rule: length_induct)
  case (1 data)
  then have ne: "data \<noteq> []" by auto
  then have less: "length (drop maxPlainPayload data) < length data" by simp
  from "1.prems" ne consider "c = take maxPlainPayload data"
    | "c \<in> set (ChunkOutput (drop maxPlainPayload data))"
    by (auto simp: ChunkOutput_nonempty)
  then show ?case
  proof cases
    case 1
    with ne show ?thesis by simp
  next
    case 2
    with less "1.IH" show ?thesis by blast
  qed
qed

lemma ceil_div_step:
  fixes n m :: nat
  assumes "0 < n" "0 < m"
  shows "Suc ((n - m + m - 1) div m) = (n + m - 1) div m"
proof -
  have step: "(n + m - 1) div m = Suc ((n - 1) div m)"
  proof -
    have "n + m - 1 = (n - 1) + m" using assms by simp
    then show ?thesis using assms by (metis Suc_eq_plus1 div_add_self2 not_gr0)
  qed
  show ?thesis
  proof (cases "n \<le> m")
    case True
    then have "(n - 1) div m = 0" and "(n - m + m - 1) div m = 0" using assms by auto
    with step show ?thesis by simp
  next
    case False
    then show ?thesis using step by simp
  qed
qed

lemma ChunkOutput_count:
  "length (ChunkOutput data) = (length data + maxPlainPayload - 1) div maxPlainPayload"
proof (induction data rule: length_induct)
  case (1 data)
  show ?case
  proof (cases "data = []")
    case False
    then have "length (drop maxPlainPayload data) < length data" by simp
    with 1 have "length (ChunkOutput (drop maxPlainPayload data)) =
        (length data - maxPlainPayload + maxPlainPayload - 1) div maxPlainPayload"
      by (metis length_drop)
    with False show ?thesis
      by (simp add: ChunkOutput_nonempty ceil_div_step del: One_nat_def)
  qed simp
qed

end
