(* ===== verification/Mirror_Cipher.thy ===== *)
theory Mirror_Cipher
  imports Mirror_Protocol
begin

text \<open>
  The record layer of \<open>internal/mirror/cipher.go\<close>: key derivation, the sealer and the
  opener with their 64-bit nonce counters and their poisoned flags. AES-GCM and HKDF
  are parameters of the model (\<open>aead\<close> carries the operations of Go's \<open>cipher.AEAD\<close>);
  what the code relies on is stated as \<open>gcm_correct\<close> and \<open>gcm_authentic\<close>.
\<close>

section \<open>State and operations\<close>

record aead =
  aead_Seal :: "bytes \<Rightarrow> bytes \<Rightarrow> bytes"
  aead_Open :: "bytes \<Rightarrow> bytes \<Rightarrow> gerror + bytes"
  aead_Overhead :: nat

record Sealer =
  s_aead :: aead
  s_counter :: "64 word"
  s_poisoned :: bool

record Opener =
  o_aead :: aead
  o_counter :: "64 word"
  o_poisoned :: bool

definition MaxUint64 :: "64 word" where
  "MaxUint64 = 0xffffffffffffffff"

text \<open>\<open>hkdf.Key(sha256.New, secret, salt, info, 32)\<close> is the parameter \<open>hkdf\<close>.\<close>

definition DeriveKeys ::
  "(bytes \<Rightarrow> bytes \<Rightarrow> string \<Rightarrow> gerror + bytes) \<Rightarrow> bytes \<Rightarrow> bytes \<Rightarrow> bytes \<Rightarrow> gerror + (bytes \<times> bytes)" where
  "DeriveKeys hkdf secret serverNonce clientNonce =
     (if length secret \<noteq> 32 then Inl (Msg ''pairing secret must be 32 bytes'')
      else if length serverNonce \<noteq> 16 \<or> length clientNonce \<noteq> 16
      then Inl (Msg ''handshake nonces must be 16 bytes'')
      else let salt = serverNonce @ clientNonce
           in case hkdf secret salt ''wrap-mirror/v3/c2s'' of
                Inl e \<Rightarrow> Inl (Wrapf ''derive client-to-server key: '' e)
              | Inr c2s \<Rightarrow>
                  (case hkdf secret salt ''wrap-mirror/v3/s2c'' of
                     Inl e \<Rightarrow> Inl (Wrapf ''derive server-to-client key: '' e)
                   | Inr s2c \<Rightarrow> Inr (c2s, s2c)))"

text \<open>\<open>newGCM\<close> is the parameter: creating the cipher can fail.\<close>

definition NewSealer :: "(bytes \<Rightarrow> gerror + aead) \<Rightarrow> bytes \<Rightarrow> gerror + Sealer" where
  "NewSealer newGCM key =
     (case newGCM key of
        Inl e \<Rightarrow> Inl e
      | Inr a \<Rightarrow> Inr \<lparr>s_aead = a, s_counter = 0, s_poisoned = False\<rparr>)"

definition NewOpener :: "(bytes \<Rightarrow> gerror + aead) \<Rightarrow> bytes \<Rightarrow> gerror + Opener" where
  "NewOpener newGCM key =
     (case newGCM key of
        Inl e \<Rightarrow> Inl e
      | Inr a \<Rightarrow> Inr \<lparr>o_aead = a, o_counter = 0, o_poisoned = False\<rparr>)"

text \<open>A 12-byte nonce: four zero bytes, then the counter in big-endian order.\<close>

definition counterNonce :: "64 word \<Rightarrow> bytes" where
  "counterNonce counter =
     replicate 4 0 @ map (\<lambda>i. ucast (drop_bit (8 * (7 - i)) counter)) [0..<8]"

definition Seal :: "Sealer \<Rightarrow> byte \<Rightarrow> bytes \<Rightarrow> Sealer \<times> (gerror + bytes)" where
  "Seal s tag payload =
     (if s_poisoned s then (s, Inl (Sentinel ErrCipherPoisoned))
      else if s_counter s = MaxUint64
      then (s\<lparr>s_poisoned := True\<rparr>, Inl (Sentinel ErrCounterExhausted))
      else if length payload + 1 + aead_Overhead (s_aead s) > MaxWireMessage
      then (s\<lparr>s_poisoned := True\<rparr>, Inl (Msg ''plaintext exceeds wire limit''))
      else (s\<lparr>s_counter := s_counter s + 1\<rparr>,
            Inr (aead_Seal (s_aead s) (counterNonce (s_counter s)) (tag # payload))))"

definition Open :: "Opener \<Rightarrow> bytes \<Rightarrow> Opener \<times> (gerror + (byte \<times> bytes))" where
  "Open o' ciphertext =
     (if o_poisoned o' then (o', Inl (Sentinel ErrCipherPoisoned))
      else if o_counter o' = MaxUint64
      then (o'\<lparr>o_poisoned := True\<rparr>, Inl (Sentinel ErrCounterExhausted))
      else if length ciphertext > MaxWireMessage
      then (o'\<lparr>o_poisoned := True\<rparr>, Inl (Msg ''ciphertext exceeds wire limit''))
      else case aead_Open (o_aead o') (counterNonce (o_counter o')) ciphertext of
        Inl e \<Rightarrow> (o'\<lparr>o_poisoned := True\<rparr>, Inl (Wrapf ''authenticate mirror frame: '' e))
      | Inr [] \<Rightarrow> (o'\<lparr>o_poisoned := True\<rparr>, Inl (Msg ''mirror frame has no tag''))
      | Inr (tag # payload) \<Rightarrow>
          (o'\<lparr>o_counter := o_counter o' + 1\<rparr>, Inr (tag, payload)))"

text \<open>Many calls in a row, each on the state the one before left.\<close>

fun seal_run :: "Sealer \<Rightarrow> (byte \<times> bytes) list \<Rightarrow> Sealer \<times> (gerror + bytes) list" where
  "seal_run s [] = (s, [])"
| "seal_run s ((tag, payload) # fs) =
     (let (s', r) = Seal s tag payload; (s'', rs) = seal_run s' fs in (s'', r # rs))"

fun open_run :: "Opener \<Rightarrow> bytes list \<Rightarrow> Opener \<times> (gerror + (byte \<times> bytes)) list" where
  "open_run o' [] = (o', [])"
| "open_run o' (c # cs) =
     (let (o1, r) = Open o' c; (o2, rs) = open_run o1 cs in (o2, r # rs))"

text \<open>The nonces a run of \<open>Seal\<close> calls hands to the cipher, in order.\<close>

fun nonces_used :: "Sealer \<Rightarrow> (byte \<times> bytes) list \<Rightarrow> bytes list" where
  "nonces_used s [] = []"
| "nonces_used s ((tag, payload) # fs) =
     (let (s', r) = Seal s tag payload
      in (case r of Inr _ \<Rightarrow> [counterNonce (s_counter s)] | Inl _ \<Rightarrow> []) @ nonces_used s' fs)"

section \<open>What AES-GCM promises\<close>

text \<open>
  Opening what was sealed under the same nonce gives the plaintext back, and a sealed
  message is longer than its plaintext by the overhead.
\<close>

definition gcm_correct :: "aead \<Rightarrow> bool" where
  "gcm_correct a \<longleftrightarrow>
     (\<forall>n p. length n = 12 \<longrightarrow>
        aead_Open a n (aead_Seal a n p) = Inr p \<and>
        length (aead_Seal a n p) = length p + aead_Overhead a)"

text \<open>Authenticity: no ciphertext made for one nonce opens under another.\<close>

definition gcm_authentic :: "aead \<Rightarrow> bool" where
  "gcm_authentic a \<longleftrightarrow>
     (\<forall>n m p. length n = 12 \<longrightarrow> length m = 12 \<longrightarrow> n \<noteq> m \<longrightarrow>
        (\<exists>e. aead_Open a n (aead_Seal a m p) = Inl e))"

text \<open>A received message that the peer never sealed and that opens under no nonce.\<close>

definition rejected_forgery :: "aead \<Rightarrow> bytes \<Rightarrow> bool" where
  "rejected_forgery a r \<longleftrightarrow> (\<forall>n. \<exists>e. aead_Open a n r = Inl e)"

definition fresh_sealer :: "aead \<Rightarrow> Sealer" where
  "fresh_sealer a = \<lparr>s_aead = a, s_counter = 0, s_poisoned = False\<rparr>"

definition fresh_opener :: "aead \<Rightarrow> Opener" where
  "fresh_opener a = \<lparr>o_aead = a, o_counter = 0, o_poisoned = False\<rparr>"

section \<open>Nonces\<close>

lemma counterNonce_length: "length (counterNonce c) = 12"
  by (simp add: counterNonce_def)

lemma counterNonce_byte:
  "i < 8 \<Longrightarrow> counterNonce c ! (4 + i) = ucast (drop_bit (8 * (7 - i)) c)"
  by (simp add: counterNonce_def nth_append)

lemma counterNonce_inj: "counterNonce a = counterNonce b \<Longrightarrow> a = b"
proof (rule bit_word_eqI)
  fix n
  assume eq: "counterNonce a = counterNonce b" and n: "n < LENGTH(64)"
  have i: "7 - n div 8 < 8" by simp
  from n have n8: "7 - (7 - n div 8) = n div 8" by simp
  have "(ucast (drop_bit (8 * (n div 8)) a) :: byte) = ucast (drop_bit (8 * (n div 8)) b)"
    using counterNonce_byte [OF i, of a] counterNonce_byte [OF i, of b] eq n8 by simp
  then have "bit (ucast (drop_bit (8 * (n div 8)) a) :: byte) (n mod 8) =
             bit (ucast (drop_bit (8 * (n div 8)) b) :: byte) (n mod 8)"
    by simp
  then show "bit a n = bit b n"
    by (simp add: bit_simps)
qed

section \<open>One call\<close>

lemma Seal_poisoned: "s_poisoned s \<Longrightarrow> Seal s tag payload = (s, Inl (Sentinel ErrCipherPoisoned))"
  by (simp add: Seal_def)

lemma Open_poisoned: "o_poisoned o' \<Longrightarrow> Open o' c = (o', Inl (Sentinel ErrCipherPoisoned))"
  by (simp add: Open_def)

lemma Seal_error_poisons: "Seal s tag payload = (s', Inl e) \<Longrightarrow> s_poisoned s'"
  by (auto simp: Seal_def split: if_splits)

lemma Open_error_poisons: "Open o' c = (o1, Inl e) \<Longrightarrow> o_poisoned o1"
  by (auto simp: Open_def split: if_splits sum.splits list.splits)

lemma Seal_ok:
  "Seal s tag payload = (s', Inr c) \<Longrightarrow>
     \<not> s_poisoned s \<and> s_counter s \<noteq> MaxUint64 \<and>
     s' = s\<lparr>s_counter := s_counter s + 1\<rparr> \<and>
     c = aead_Seal (s_aead s) (counterNonce (s_counter s)) (tag # payload) \<and>
     length payload + 1 + aead_Overhead (s_aead s) \<le> MaxWireMessage"
  by (auto simp: Seal_def split: if_splits)

lemma Open_ok:
  "Open o' c = (o1, Inr (tag, payload)) \<Longrightarrow>
     \<not> o_poisoned o' \<and> o_counter o' \<noteq> MaxUint64 \<and>
     o1 = o'\<lparr>o_counter := o_counter o' + 1\<rparr> \<and>
     aead_Open (o_aead o') (counterNonce (o_counter o')) c = Inr (tag # payload)"
  by (auto simp: Open_def split: if_splits sum.splits list.splits)

lemma MaxUint64_minus: "MaxUint64 = - 1"
  by (simp add: MaxUint64_def)

lemma counter_step: "(c :: 64 word) \<noteq> MaxUint64 \<Longrightarrow> unat (c + 1) = Suc (unat c)"
proof -
  assume "c \<noteq> MaxUint64"
  then have "1 + c \<noteq> 0"
    by (metis MaxUint64_minus add.commute eq_neg_iff_add_eq_0)
  then show ?thesis by (metis add.commute unatSuc)
qed

lemma counter_below: "unat (c :: 64 word) < 2 ^ 64 - 1 \<Longrightarrow> c \<noteq> MaxUint64"
  by (auto simp: MaxUint64_def)

section \<open>Runs of calls\<close>

lemma seal_run_poisoned:
  "s_poisoned s \<Longrightarrow> seal_run s fs = (s, map (\<lambda>_. Inl (Sentinel ErrCipherPoisoned)) fs)"
  by (induction fs) (auto simp: Seal_poisoned)

lemma open_run_poisoned:
  "o_poisoned o' \<Longrightarrow> open_run o' cs = (o', map (\<lambda>_. Inl (Sentinel ErrCipherPoisoned)) cs)"
  by (induction cs) (auto simp: Open_poisoned)

lemma nonces_used_above:
  "n \<in> set (nonces_used s fs) \<Longrightarrow> \<exists>c. unat (s_counter s) \<le> unat c \<and> n = counterNonce c"
proof (induction s fs rule: nonces_used.induct)
  case (2 s tag payload fs)
  obtain s' r where sr: "Seal s tag payload = (s', r)" by force
  show ?case
  proof (cases "n \<in> set (nonces_used s' fs)")
    case True
    then obtain c where c: "unat (s_counter s') \<le> unat c" "n = counterNonce c"
      using 2 sr by fastforce
    have "unat (s_counter s) \<le> unat (s_counter s')"
      using sr counter_step [of "s_counter s"] by (auto simp: Seal_def split: if_splits)
    with c show ?thesis using le_trans by blast
  next
    case False
    with "2.prems" sr show ?thesis by (auto split: sum.splits)
  qed
qed simp

text \<open>No nonce is ever used twice, however many frames are sealed.\<close>

lemma distinct_nonces_used: "distinct (nonces_used s fs)"
proof (induction s fs rule: nonces_used.induct)
  case (2 s tag payload fs)
  obtain s' r where sr: "Seal s tag payload = (s', r)" by force
  with 2 have IH: "distinct (nonces_used s' fs)" by simp
  show ?case
  proof (cases r)
    case (Inr c)
    with sr Seal_ok have max: "s_counter s \<noteq> MaxUint64" and s': "s' = s\<lparr>s_counter := s_counter s + 1\<rparr>"
      by blast+
    have "counterNonce (s_counter s) \<notin> set (nonces_used s' fs)"
    proof
      assume "counterNonce (s_counter s) \<in> set (nonces_used s' fs)"
      then obtain c where "unat (s_counter s') \<le> unat c" "counterNonce (s_counter s) = counterNonce c"
        using nonces_used_above by blast
      then show False
        using counterNonce_inj [of "s_counter s" c] counter_step [OF max] s' by auto
    qed
    with IH Inr sr show ?thesis by simp
  qed (use IH sr in simp)
qed simp

text \<open>Frames under the limit are all sealed while the counter lasts.\<close>

lemma seal_run_succeeds:
  assumes "\<not> s_poisoned s" and "unat (s_counter s) + length fs < 2 ^ 64"
    and "\<forall>(tag, payload) \<in> set fs. length payload + 1 + aead_Overhead (s_aead s) \<le> MaxWireMessage"
  shows "\<exists>cs. snd (seal_run s fs) = map Inr cs \<and> length cs = length fs"
  using assms
proof (induction fs arbitrary: s)
  case (Cons f fs)
  obtain tag payload where f: "f = (tag, payload)" by force
  let ?s = "s\<lparr>s_counter := s_counter s + 1\<rparr>"
  have max: "s_counter s \<noteq> MaxUint64" using Cons.prems by (intro counter_below) auto
  have "\<exists>cs. snd (seal_run ?s fs) = map Inr cs \<and> length cs = length fs"
    by (rule Cons.IH) (use Cons.prems counter_step [OF max] in \<open>auto simp: f\<close>)
  then obtain cs where cs: "snd (seal_run ?s fs) = map Inr cs" "length cs = length fs" by blast
  have "Seal s tag payload =
      (?s, Inr (aead_Seal (s_aead s) (counterNonce (s_counter s)) (tag # payload)))"
    using max Cons.prems by (simp add: Seal_def f)
  with cs show ?case
    by (intro exI [of _ "aead_Seal (s_aead s) (counterNonce (s_counter s)) (tag # payload) # cs"])
       (auto simp: f split: prod.splits)
qed simp

lemma seal_run_Cons_ok:
  assumes "snd (seal_run s ((tag, payload) # fs)) = map Inr cs"
  obtains s1 c cs' where "Seal s tag payload = (s1, Inr c)" and "cs = c # cs'"
    and "snd (seal_run s1 fs) = map Inr cs'"
  using assms by (auto split: prod.splits)

lemma length_seal_run: "length (snd (seal_run s fs)) = length fs"
  by (induction s fs rule: seal_run.induct) (auto split: prod.splits)

text \<open>The opener gives back, in order, what the sealer of the other side sealed.\<close>

lemma open_seal_run:
  assumes "gcm_correct (s_aead s)" and "o_aead o' = s_aead s" and "o_counter o' = s_counter s"
    and "\<not> o_poisoned o'" and "snd (seal_run s fs) = map Inr cs"
  shows "snd (open_run o' cs) = map Inr fs"
  using assms
proof (induction fs arbitrary: s o' cs)
  case (Cons f fs)
  obtain tag payload where f: "f = (tag, payload)" by force
  from Cons.prems(5) obtain s1 c cs' where sr: "Seal s tag payload = (s1, Inr c)"
    and cs: "cs = c # cs'" and rest: "snd (seal_run s1 fs) = map Inr cs'"
    unfolding f by (rule seal_run_Cons_ok)
  from Seal_ok [OF sr] have ok: "s_counter s \<noteq> MaxUint64" "s1 = s\<lparr>s_counter := s_counter s + 1\<rparr>"
    "c = aead_Seal (s_aead s) (counterNonce (s_counter s)) (tag # payload)"
    "length payload + 1 + aead_Overhead (s_aead s) \<le> MaxWireMessage" by blast+
  let ?o = "o'\<lparr>o_counter := o_counter o' + 1\<rparr>"
  have "Open o' c = (?o, Inr (tag, payload))"
    using Cons.prems(1-4) ok by (simp add: Open_def gcm_correct_def counterNonce_length)
  moreover have "snd (open_run ?o cs') = map Inr fs"
    by (rule Cons.IH [of s1]) (use Cons.prems rest ok in auto)
  ultimately show ?case by (auto simp: cs f split: prod.splits)
qed simp

text \<open>The k-th ciphertext of a fresh sealer is sealed under the k-th nonce.\<close>

lemma seal_run_nth:
  assumes "snd (seal_run s fs) = map Inr cs" and "k < length fs"
  shows "cs ! k = aead_Seal (s_aead s) (counterNonce (s_counter s + of_nat k)) (fst (fs ! k) # snd (fs ! k)) \<and>
    unat (s_counter s) + k < 2 ^ 64 - 1"
  using assms
proof (induction fs arbitrary: s cs k)
  case (Cons f fs)
  obtain tag payload where f: "f = (tag, payload)" by force
  from Cons.prems(1) obtain s1 c cs' where sr: "Seal s tag payload = (s1, Inr c)"
    and cs: "cs = c # cs'" and rest: "snd (seal_run s1 fs) = map Inr cs'"
    unfolding f by (rule seal_run_Cons_ok)
  from Seal_ok [OF sr] have s1: "s1 = s\<lparr>s_counter := s_counter s + 1\<rparr>"
    and c: "c = aead_Seal (s_aead s) (counterNonce (s_counter s)) (tag # payload)"
    and max: "s_counter s \<noteq> MaxUint64" by blast+
  have step: "unat (s_counter s + 1) = Suc (unat (s_counter s))" by (rule counter_step [OF max])
  show ?case
  proof (cases k)
    case 0
    have "unat (s_counter s + 1) < 2 ^ LENGTH(64)" by (rule unsigned_less)
    then have "unat (s_counter s) < 2 ^ 64 - 1" using step by simp
    with 0 cs c f show ?thesis by simp
  next
    case (Suc j)
    with Cons.prems(2) have "j < length fs" by simp
    from Cons.IH [OF rest this] Suc s1 cs step show ?thesis by (simp add: add.assoc)
  qed
qed simp

lemma open_run_prefix_from:
  assumes "gcm_correct a" and "gcm_authentic a"
    and sealed: "snd (seal_run (fresh_sealer a) fs) = map Inr cs"
    and recv: "\<forall>r \<in> set rs. r \<in> set cs \<or> rejected_forgery a r"
    and o': "o_aead o' = a" "\<not> o_poisoned o'" "o_counter o' = of_nat i" and i: "i < 2 ^ 64"
  shows "\<exists>k es. snd (open_run o' rs) = map Inr (take k (drop i fs)) @ map Inl es"
  using recv o' i
proof (induction rs arbitrary: o' i)
  case Nil
  then show ?case by (auto intro: exI [of _ 0])
next
  case (Cons r rs)
  obtain o1 x where ox: "Open o' r = (o1, x)" by force
  have len: "length cs = length fs"
    using length_seal_run [of "fresh_sealer a" fs] sealed by simp
  show ?case
  proof (cases x)
    case (Inl e)
    with ox have "o_poisoned o1" by (auto intro: Open_error_poisons)
    then have "snd (open_run o' (r # rs)) = map Inr [] @ map Inl (e # map (\<lambda>_. Sentinel ErrCipherPoisoned) rs)"
      using ox Inl by (simp add: open_run_poisoned comp_def)
    then show ?thesis by (metis take_0)
  next
    case (Inr y)
    obtain tag payload where y: "y = (tag, payload)" by force
    from Open_ok ox Inr y have ok: "o1 = o'\<lparr>o_counter := o_counter o' + 1\<rparr>"
      and op: "aead_Open a (counterNonce (of_nat i)) r = Inr (tag # payload)"
      and max: "o_counter o' \<noteq> MaxUint64"
      using Cons.prems by (metis)+
    from op have "\<not> rejected_forgery a r"
      unfolding rejected_forgery_def by (metis Inl_Inr_False)
    then obtain j where j: "j < length fs" "r = cs ! j"
      using Cons.prems(1) len by (metis in_set_conv_nth list.set_intros(1))
    have r: "r = aead_Seal a (counterNonce (of_nat j)) (fst (fs ! j) # snd (fs ! j))"
      and j64: "j < 2 ^ 64 - 1"
      using seal_run_nth [OF sealed j(1)] j(2) by (auto simp: fresh_sealer_def)
    have "counterNonce (of_nat i) = counterNonce (of_nat j :: 64 word)"
      using op r assms(2) by (metis Inl_Inr_False counterNonce_length gcm_authentic_def)
    then have "(of_nat i :: 64 word) = of_nat j" by (rule counterNonce_inj)
    then have "unat (of_nat i :: 64 word) = unat (of_nat j :: 64 word)" by simp
    then have "i = j" using Cons.prems(5) j64 by (simp add: unat_of_nat)
    with op r assms(1) have frame: "(tag, payload) = fs ! i"
      by (auto simp: gcm_correct_def counterNonce_length prod_eq_iff)
    have "\<exists>k es. snd (open_run o1 rs) = map Inr (take k (drop (Suc i) fs)) @ map Inl es"
      by (rule Cons.IH) (use Cons.prems ok j64 \<open>i = j\<close> in auto)
    then obtain k es where "snd (open_run o1 rs) = map Inr (take k (drop (Suc i) fs)) @ map Inl es"
      by blast
    moreover have "take (Suc k) (drop i fs) = fs ! i # take k (drop (Suc i) fs)"
      using j(1) \<open>i = j\<close> by (simp add: Cons_nth_drop_Suc [symmetric])
    ultimately have "snd (open_run o' (r # rs)) = map Inr (take (Suc k) (drop i fs)) @ map Inl es"
      using ox Inr y frame by (auto split: prod.splits)
    then show ?thesis by blast
  qed
qed

section \<open>Properties\<close>

text \<open>C1: A sealer and an opener made for the same key, with a cipher that opens what it
  seals and adds at most 16 bytes: every list of frames whose payloads fit the wire limit, of
  fewer than $2^{64}$ frames, is sealed without error, and opening the ciphertexts in order
  gives exactly the tags and payloads that were sealed.\<close>

theorem sealed_stream_roundtrip:
  assumes "NewSealer newGCM key = Inr s" and "NewOpener newGCM key = Inr o'"
    and "\<And>a. newGCM key = Inr a \<Longrightarrow> gcm_correct a \<and> aead_Overhead a \<le> 16"
    and "length fs < 2 ^ 64"
    and "\<forall>(tag, payload) \<in> set fs. length payload \<le> maxPlainPayload"
  shows "\<exists>cs. snd (seal_run s fs) = map Inr cs \<and> snd (open_run o' cs) = map Inr fs"
proof -
  obtain a where a: "newGCM key = Inr a" and s: "s = fresh_sealer a" and o': "o' = fresh_opener a"
    using assms(1,2) by (auto simp: NewSealer_def NewOpener_def fresh_sealer_def fresh_opener_def
        split: sum.splits)
  have fits: "\<forall>(tag, payload) \<in> set fs. length payload + 1 + aead_Overhead a \<le> MaxWireMessage"
    using assms(3) [OF a] assms(5) by (auto simp: maxPlainPayload_fits)
  obtain cs where "snd (seal_run s fs) = map Inr cs"
    using seal_run_succeeds [of s fs] assms(4) fits by (auto simp: s fresh_sealer_def)
  moreover from this have "snd (open_run o' cs) = map Inr fs"
    using assms(3) [OF a] by (intro open_seal_run) (auto simp: s o' fresh_sealer_def fresh_opener_def)
  ultimately show ?thesis by blast
qed

text \<open>A cipher that only binds the nonce, to instantiate the parameter.\<close>

definition nonce_prefix_aead :: aead where
  "nonce_prefix_aead =
     \<lparr>aead_Seal = (\<lambda>n p. n @ p),
      aead_Open = (\<lambda>n c. if length n \<le> length c \<and> take (length n) c = n
                         then Inr (drop (length n) c) else Inl (Msg ''authentication failed'')),
      aead_Overhead = 12\<rparr>"

lemma nonce_prefix_aead_laws: "gcm_correct nonce_prefix_aead" "gcm_authentic nonce_prefix_aead"
  by (auto simp: gcm_correct_def gcm_authentic_def nonce_prefix_aead_def)

theorem sealed_stream_roundtrip_witness:
  "\<exists>cs. snd (seal_run (fresh_sealer nonce_prefix_aead) [(TagInput, [104, 105]), (TagClose, [])]) = map Inr cs \<and>
        snd (open_run (fresh_opener nonce_prefix_aead) cs) = map Inr [(TagInput, [104, 105]), (TagClose, [])]"
  by (rule sealed_stream_roundtrip [where newGCM = "\<lambda>_. Inr nonce_prefix_aead" and key = "[]"])
     (simp_all add: NewSealer_def NewOpener_def fresh_sealer_def fresh_opener_def
       nonce_prefix_aead_laws nonce_prefix_aead_def [THEN arg_cong [where f = aead_Overhead]]
       maxPlainPayload_def MaxWireMessage_def)


text \<open>C3: The frames an opener accepts are a prefix of the frames the peer sealed. Messages
  may be replayed, reordered, dropped or forged on the way: from the first one that is not
  exactly the next sealed message on, every call returns an error.\<close>

theorem opener_accepts_only_prefix:
  assumes "gcm_correct a" and "gcm_authentic a"
    and "snd (seal_run (fresh_sealer a) fs) = map Inr cs"
    and "\<forall>r \<in> set rs. r \<in> set cs \<or> rejected_forgery a r"
  shows "\<exists>k es. snd (open_run (fresh_opener a) rs) = map Inr (take k fs) @ map Inl es"
  using open_run_prefix_from [OF assms, of "fresh_opener a" 0] by (simp add: fresh_opener_def)

theorem opener_accepts_only_prefix_witness:
  "\<exists>k es. snd (open_run (fresh_opener nonce_prefix_aead)
      [counterNonce 0 @ [6, 97], counterNonce 0 @ [6, 97]]) = map Inr (take k [(6, [97]), (5, [])]) @ map Inl es"
  by (rule opener_accepts_only_prefix [where cs = "[counterNonce 0 @ [6, 97], counterNonce 1 @ [5]]"])
     (use nonce_prefix_aead_laws in
       \<open>simp_all add: fresh_sealer_def nonce_prefix_aead_def Seal_def MaxUint64_def MaxWireMessage_def\<close>)

end
