(* ===== verification/Mirror_Client.thy ===== *)
theory Mirror_Client
  imports Mirror_Cipher
begin

text \<open>
  One mirror client, \<open>internal/mirror/client.go\<close>: the bounded outbound queue, the frames a
  client may be sent, the writer that empties the queue and the dispatch of incoming
  frames. A result channel is a number; sending on it is an entry of a list of answers.
  Steps under the queue's mutex are atomic.
\<close>

section \<open>The outbound queue\<close>

record outboundFrame =
  of_tag :: byte
  of_payload :: bytes
  of_result :: "nat option"

record outboundQueue =
  oq_frames :: "outboundFrame list"
  oq_bytes :: nat
  oq_maxBytes :: nat
  oq_closed :: bool

type_synonym answers = "(nat \<times> gerror option) list"

definition frame_size :: "outboundFrame \<Rightarrow> nat" where
  "frame_size f = length (of_payload f) + 1 + 16"

definition newOutboundQueue :: "nat \<Rightarrow> outboundQueue" where
  "newOutboundQueue maxBytes = \<lparr>oq_frames = [], oq_bytes = 0, oq_maxBytes = maxBytes, oq_closed = False\<rparr>"

definition answers_of :: "outboundFrame list \<Rightarrow> gerror option \<Rightarrow> answers" where
  "answers_of fs e = List.map_filter (\<lambda>f. map_option (\<lambda>r. (r, e)) (of_result f)) fs"

definition closeLocked :: "outboundQueue \<Rightarrow> gerror \<Rightarrow> outboundQueue \<times> answers" where
  "closeLocked q e =
     (if oq_closed q then (q, [])
      else (q\<lparr>oq_closed := True, oq_frames := [], oq_bytes := 0\<rparr>, answers_of (oq_frames q) (Some e)))"

definition push :: "outboundQueue \<Rightarrow> outboundFrame \<Rightarrow> gerror option \<times> outboundQueue \<times> answers" where
  "push q f =
     (let size = frame_size f in
      if oq_closed q then (Some (Msg ''mirror client is closed''), q, [])
      else if size > oq_maxBytes q \<or> oq_bytes q + size > oq_maxBytes q
      then (Some (Sentinel ErrClientQueueFull), closeLocked q (Sentinel ErrClientQueueFull))
      else (None, q\<lparr>oq_frames := oq_frames q @ [f], oq_bytes := oq_bytes q + size\<rparr>, []))"

text \<open>One round of the loop of \<open>pop\<close>.\<close>

datatype popped = PopClosed | PopWait | PopFrame outboundFrame

definition pop :: "outboundQueue \<Rightarrow> popped \<times> outboundQueue" where
  "pop q =
     (if oq_closed q then (PopClosed, q)
      else case oq_frames q of
        [] \<Rightarrow> (PopWait, q)
      | f # fs \<Rightarrow> (PopFrame f, q\<lparr>oq_frames := fs, oq_bytes := oq_bytes q - frame_size f\<rparr>))"

section \<open>The queue keeps its bound and its order\<close>

definition queue_inv :: "outboundQueue \<Rightarrow> bool" where
  "queue_inv q \<longleftrightarrow> oq_bytes q = sum_list (map frame_size (oq_frames q)) \<and> oq_bytes q \<le> oq_maxBytes q
     \<and> (oq_closed q \<longrightarrow> oq_frames q = [])"

text \<open>
  The contract of a bounded queue that is closed when it overflows: the operations keep an
  invariant, an accepted element goes to the end and the first one is taken.
\<close>

locale closing_queue =
  fixes elems :: "'q \<Rightarrow> 'e list"
    and closed :: "'q \<Rightarrow> bool"
    and ins :: "'q \<Rightarrow> 'e \<Rightarrow> 'q"
    and del :: "'q \<Rightarrow> 'q"
    and shut :: "'q \<Rightarrow> 'q"
    and inv :: "'q \<Rightarrow> bool"
  assumes ins_inv: "inv q \<Longrightarrow> inv (ins q e)"
    and del_inv: "inv q \<Longrightarrow> inv (del q)"
    and shut_inv: "inv q \<Longrightarrow> inv (shut q)"
    and ins_elems: "inv q \<Longrightarrow> \<not> closed (ins q e) \<Longrightarrow> \<not> closed q \<and> elems (ins q e) = elems q @ [e]"
    and del_elems: "inv q \<Longrightarrow> \<not> closed q \<Longrightarrow> elems (del q) = tl (elems q)"
    and del_closed: "closed (del q) = closed q"
    and shut_closed: "closed (shut q)"
begin

text \<open>Running a list of operations; what is taken from the front is recorded.\<close>

fun run :: "'q \<Rightarrow> 'e option list \<Rightarrow> 'q \<times> 'e list" where
  "run q [] = (q, [])"
| "run q (Some e # ops) = run (ins q e) ops"
| "run q (None # ops) =
     (case run (del q) ops of (q', out) \<Rightarrow> (q', if closed q then out else take 1 (elems q) @ out))"

definition inserted :: "'e option list \<Rightarrow> 'e list" where
  "inserted ops = List.map_filter id ops"

lemma run_inv: "inv q \<Longrightarrow> inv (fst (run q ops))"
  by (induction q ops rule: run.induct) (auto simp: ins_inv del_inv split: prod.splits)

lemma run_open: "inv q \<Longrightarrow> \<not> closed (fst (run q ops)) \<Longrightarrow> \<not> closed q"
proof (induction q ops rule: run.induct)
  case (2 q e ops)
  then show ?case using ins_elems [of q e] ins_inv by auto
next
  case (3 q ops)
  then show ?case using del_closed [of q] del_inv by (auto split: prod.splits)
qed simp

text \<open>First in, first out: while the queue is open, what came out and what is left is what went in.\<close>

lemma run_fifo:
  "inv q \<Longrightarrow> \<not> closed (fst (run q ops)) \<Longrightarrow>
     snd (run q ops) @ elems (fst (run q ops)) = elems q @ inserted ops"
proof (induction q ops rule: run.induct)
  case (1 q)
  then show ?case by (simp add: inserted_def)
next
  case (2 q e ops)
  have "\<not> closed (ins q e)" using run_open [OF ins_inv [OF 2(2)], of e ops] 2(3) by simp
  with 2 ins_elems [of q e] show ?case by (simp add: ins_inv inserted_def)
next
  case (3 q ops)
  obtain q' out where r: "run (del q) ops = (q', out)" by (rule prod.exhaust)
  with 3(3) have o: "\<not> closed q'" by simp
  then have "\<not> closed (del q)" using run_open [OF del_inv [OF 3(2)], of ops] r by simp
  then have oq: "\<not> closed q" by (simp add: del_closed)
  have "out @ elems q' = tl (elems q) @ inserted ops"
    using 3(1) [OF del_inv [OF 3(2)]] r o del_elems [OF 3(2) oq] by simp
  then show ?case using r oq by (cases "elems q") (auto simp: inserted_def)
qed

end

definition push_state :: "outboundQueue \<Rightarrow> outboundFrame \<Rightarrow> outboundQueue" where
  "push_state q f = fst (snd (push q f))"

definition pop_state :: "outboundQueue \<Rightarrow> outboundQueue" where
  "pop_state q = snd (pop q)"

definition close_state :: "outboundQueue \<Rightarrow> outboundQueue" where
  "close_state q = fst (closeLocked q (Msg ''closed''))"

lemma closeLocked_inv: "queue_inv q \<Longrightarrow> queue_inv (fst (closeLocked q e)) \<and> oq_closed (fst (closeLocked q e))"
  by (auto simp: closeLocked_def queue_inv_def)

lemma push_inv: "queue_inv q \<Longrightarrow> queue_inv (fst (snd (push q f)))"
  using closeLocked_inv [of q] by (auto simp: push_def Let_def queue_inv_def)

lemma pop_inv: "queue_inv q \<Longrightarrow> queue_inv (snd (pop q))"
  by (auto simp: pop_def queue_inv_def split: list.splits)

interpretation oq: closing_queue oq_frames oq_closed push_state pop_state close_state queue_inv
proof unfold_locales
  show "queue_inv (push_state q e)" if "queue_inv q" for q e
    using that push_inv by (simp add: push_state_def)
  show "queue_inv (pop_state q)" if "queue_inv q" for q
    using that pop_inv by (simp add: pop_state_def)
  show "queue_inv (close_state q)" if "queue_inv q" for q
    using that closeLocked_inv by (simp add: close_state_def)
  show "\<not> oq_closed q \<and> oq_frames (push_state q e) = oq_frames q @ [e]"
    if "queue_inv q" "\<not> oq_closed (push_state q e)" for q e
    using that by (auto simp: push_state_def push_def Let_def closeLocked_def split: if_splits)
  show "oq_frames (pop_state q) = tl (oq_frames q)" if "queue_inv q" "\<not> oq_closed q" for q
    using that by (auto simp: pop_state_def pop_def split: list.splits)
  show "oq_closed (pop_state q) = oq_closed q" for q
    by (auto simp: pop_state_def pop_def split: list.splits)
  show "oq_closed (close_state q)" for q
    by (auto simp: close_state_def closeLocked_def)
qed

lemma max_kept: "oq_maxBytes (push_state q f) = oq_maxBytes q" "oq_maxBytes (pop_state q) = oq_maxBytes q"
  by (auto simp: push_state_def push_def pop_state_def pop_def closeLocked_def Let_def split: list.splits)

text \<open>Over any sequence of pushes and pops the outbound queue never holds more than its
  limit of bytes, its byte count is the sum of its frames, and as long as it has not
  overflowed the frames come out in the order in which they were pushed, none lost.\<close>

theorem outbound_queue_bounded_fifo:
  assumes "oq.run (newOutboundQueue n) ops = (q, out)"
  shows "oq_bytes q = sum_list (map frame_size (oq_frames q)) \<and> oq_bytes q \<le> n
    \<and> (\<not> oq_closed q \<longrightarrow> out @ oq_frames q = oq.inserted ops)"
proof -
  have i: "queue_inv (newOutboundQueue n)" by (simp add: queue_inv_def newOutboundQueue_def)
  have "oq_maxBytes (fst (oq.run p ops)) = oq_maxBytes p" for p
    by (induction p ops rule: oq.run.induct) (auto simp: max_kept split: prod.splits)
  then have "oq_maxBytes q = n" using assms by (metis fst_conv newOutboundQueue_def outboundQueue.select_convs(3))
  moreover have "queue_inv q" using oq.run_inv [OF i, of ops] assms by simp
  moreover have "\<not> oq_closed q \<longrightarrow> out @ oq_frames q = oq.inserted ops"
    using oq.run_fifo [OF i, of ops] assms by (simp add: newOutboundQueue_def)
  ultimately show ?thesis by (auto simp: queue_inv_def)
qed

theorem outbound_queue_bounded_fifo_witness:
  "snd (oq.run (newOutboundQueue 100) [Some \<lparr>of_tag = 7, of_payload = [1], of_result = None\<rparr>, None]) =
     [\<lparr>of_tag = 7, of_payload = [1], of_result = None\<rparr>]"
proof -
  let ?f = "\<lparr>of_tag = 7, of_payload = [1], of_result = None\<rparr>"
  obtain q out where r: "oq.run (newOutboundQueue 100) [Some ?f, None] = (q, out)" by (rule prod.exhaust)
  then have "\<not> oq_closed q \<and> oq_frames q = []"
    by (auto simp: push_state_def push_def pop_state_def pop_def newOutboundQueue_def frame_size_def)
  with outbound_queue_bounded_fifo [OF r] r show ?thesis by (simp add: oq.inserted_def)
qed

end
