(* ===== verification/Mirror_Pairing.thy ===== *)
theory Mirror_Pairing
  imports Go_Base64
begin

text \<open>
  Pairing secrets and pairing links, \<open>internal/mirror/pairing.go\<close>. A secret is a string of
  32 bytes. Parsing and printing of URLs (\<open>net/url\<close>) and of IP addresses (\<open>net\<close>) are
  parameters; the QR code is drawn by a library.
\<close>

type_synonym Secret = string

definition secret_ok :: "Secret \<Rightarrow> bool" where
  "secret_ok s \<longleftrightarrow> length s = 32"

text \<open>\<open>NewSecret\<close>: \<open>io.ReadFull\<close> of 32 bytes from the random source.\<close>

definition NewSecret :: "(nat \<Rightarrow> gerror + string) \<Rightarrow> gerror + Secret" where
  "NewSecret readFull =
     (case readFull 32 of Inl e \<Rightarrow> Inl (Wrapf ''generate pairing secret: '' e) | Inr s \<Rightarrow> Inr s)"

definition ParseSecret :: "string \<Rightarrow> gerror + Secret" where
  "ParseSecret raw =
     (case DecodeString raw of
        None \<Rightarrow> Inl (Msg ''invalid pairing secret encoding'')
      | Some decoded \<Rightarrow>
          if length decoded \<noteq> 32 then Inl (Msg ''pairing secret must decode to 32 bytes'')
          else Inr decoded)"

definition Secret_String :: "Secret \<Rightarrow> string" where
  "Secret_String s = EncodeToString s"

section \<open>Tunnel hosts and links\<close>

definition host_char :: "char \<Rightarrow> bool" where
  "host_char c \<longleftrightarrow> 97 \<le> code c \<and> code c \<le> 122 \<or> is_digit c"

text \<open>
  The pattern of quick tunnel hosts: one DNS label of lower-case letters, digits and inner
  hyphens, at most 63 characters, and the domain.
\<close>

definition host_label :: "string \<Rightarrow> bool" where
  "host_label l \<longleftrightarrow>
     l \<noteq> [] \<and> length l \<le> 63 \<and> host_char (hd l) \<and> host_char (last l)
     \<and> list_all (\<lambda>c. host_char c \<or> c = CHR ''-'') l"

definition quickTunnelHost :: "string \<Rightarrow> bool" where
  "quickTunnelHost h \<longleftrightarrow>
     HasSuffix h ''.trycloudflare.com'' \<and> host_label (TrimSuffix h ''.trycloudflare.com'')"

record URL =
  u_Scheme :: string
  u_Host :: string
  u_User :: bool
  u_Path :: string
  u_RawQuery :: string
  u_Fragment :: string

text \<open>\<open>URL.Hostname\<close>: the host without a port and without the brackets of an IPv6 address.\<close>

definition Hostname :: "URL \<Rightarrow> string" where
  "Hostname u =
     (let h = u_Host u;
          h = (case LastIndexByte h CHR '':'' of
                 None \<Rightarrow> h
               | Some i \<Rightarrow> if list_all is_digit (drop (Suc i) h) then take i h else h)
      in if HasPrefix h ''['' \<and> HasSuffix h '']'' then take (length h - 2) (drop 1 h) else h)"

definition PairingURL ::
    "(string \<Rightarrow> gerror + URL) \<Rightarrow> (URL \<Rightarrow> string) \<Rightarrow> (string \<Rightarrow> bool) \<Rightarrow> string \<Rightarrow> Secret \<Rightarrow> gerror + string" where
  "PairingURL parse print isIP publicURL secret =
     (case parse publicURL of
        Inl e \<Rightarrow> Inl (Wrapf ''parse tunnel URL: '' e)
      | Inr u \<Rightarrow>
          let host = Hostname u in
          if u_Scheme u \<noteq> ''https'' \<or> \<not> quickTunnelHost host \<or> u_Host u \<noteq> host \<or> u_User u
             \<or> u_Path u \<noteq> [] \<or> u_RawQuery u \<noteq> [] \<or> u_Fragment u \<noteq> []
          then Inl (Msg ''tunnel URL must be an HTTPS trycloudflare origin'')
          else if isIP host then Inl (Msg ''tunnel URL host must be a DNS name'')
          else Inr (print (u\<lparr>u_Path := ''/'', u_Fragment := ''k='' @ Secret_String secret\<rparr>)))"

text \<open>\<open>TerminalQR\<close>; \<open>draw\<close> is the QR library's encoding and its rendering as text.\<close>

definition TerminalQR :: "(string \<Rightarrow> gerror + string) \<Rightarrow> string \<Rightarrow> gerror + string" where
  "TerminalQR draw pairingURL =
     (case draw pairingURL of Inl e \<Rightarrow> Inl (Wrapf ''encode pairing QR: '' e) | Inr qr \<Rightarrow> Inr qr)"

section \<open>Round trip and shape\<close>

text \<open>The text of a secret has 43 URL-safe characters and is parsed back to the same secret;
  \<open>ParseSecret\<close> accepts only texts of 32 bytes.\<close>

theorem secret_roundtrip:
  "(secret_ok s \<longrightarrow> ParseSecret (Secret_String s) = Inr s \<and> length (Secret_String s) = 43
      \<and> (\<forall>c \<in> set (Secret_String s). b64_letter c))
   \<and> (ParseSecret raw = Inr t \<longrightarrow> secret_ok t)"
  by (auto simp: secret_ok_def ParseSecret_def Secret_String_def EncodeToString_length
      EncodeToString_letters split: option.splits if_splits)

theorem secret_roundtrip_witness:
  "ParseSecret (Secret_String (replicate 32 CHR ''x'')) = Inr (replicate 32 CHR ''x'')"
  using secret_roundtrip [of "replicate 32 CHR ''x''" "[]" "[]"] by (simp add: secret_ok_def)

lemma host_label_no_dot: "host_label l \<Longrightarrow> CHR ''.'' \<notin> set l"
  by (auto simp: host_label_def list_all_iff host_char_def is_digit_def)


definition demo_url :: URL where
  "demo_url = \<lparr>u_Scheme = ''https'', u_Host = ''a-b.trycloudflare.com'', u_User = False, u_Path = [],
     u_RawQuery = [], u_Fragment = []\<rparr>"


end
