(* ===== verification/Mirror_Handshake.thy ===== *)
theory Mirror_Handshake
  imports Mirror_Client Mirror_Pairing "HOL-Library.Sublist"
begin

text \<open>
  One authenticated mirror client, the rest of \<open>internal/mirror/client.go\<close>: the handshake
  (\<open>authenticateClient\<close>), the sending side (\<open>send\<close>, \<open>SendControl\<close>, \<open>SendOutput\<close>,
  \<open>closeWithFrame\<close> and its callers), the writer's loop body and the reading side (\<open>run\<close>,
  \<open>dispatch\<close>). The WebSocket connection is a parameter that reads and writes messages; the
  \<open>beforeSend\<close> hook, which only tests set, is nil.
\<close>

section \<open>State\<close>

datatype messageType = MessageText | MessageBinary

record 'w Conn =
  conn_Write :: "bytes \<Rightarrow> ('w, unit) io"
  conn_Read :: "('w, messageType \<times> bytes) io"

text \<open>
  \<open>c_answered\<close> holds what has been sent on the result channels of close frames;
  \<open>c_connClosed\<close> says that \<open>CloseNow\<close> was called on the connection.
\<close>

record Client =
  c_connection :: bool
  c_connClosed :: bool
  c_opener :: Opener
  c_sealer :: Sealer
  c_queue :: outboundQueue
  c_closeOnce :: bool
  c_writerDone :: bool
  c_viewerOpen :: bool
  c_answered :: answers

section \<open>The handshake\<close>

definition newClient :: "Opener \<Rightarrow> Sealer \<Rightarrow> Client" where
  "newClient opener sealer =
     \<lparr>c_connection = True, c_connClosed = False, c_opener = opener, c_sealer = sealer,
      c_queue = newOutboundQueue MaxClientQueueBytes, c_closeOnce = False, c_writerDone = False,
      c_viewerOpen = False, c_answered = []\<rparr>"

text \<open>The last part of \<open>authenticateClient\<close>: the first encrypted message is a valid hello.\<close>

definition acceptHello ::
    "(bytes \<Rightarrow> (gerror + ClientHello) \<times> trailing) \<Rightarrow> Opener \<Rightarrow> Sealer \<Rightarrow> bytes \<Rightarrow> gerror + Client" where
  "acceptHello decodeHello opener sealer encryptedHello =
     (case Open opener encryptedHello of
        (opener', Inl e) \<Rightarrow> Inl (Msg ''invalid encrypted client hello'')
      | (opener', Inr (tag, payload)) \<Rightarrow>
          if tag \<noteq> TagClientHello then Inl (Msg ''invalid encrypted client hello'')
          else case DecodeControl decodeHello tag payload of
            Inl e \<Rightarrow> Inl e
          | Inr hello \<Rightarrow>
              (case ValidateClientFrame tag (VClientHello hello) of
                 Some e \<Rightarrow> Inl e
               | None \<Rightarrow> Inr (newClient opener' sealer)))"

definition authenticateClient ::
    "(bytes \<Rightarrow> bytes \<Rightarrow> string \<Rightarrow> gerror + bytes) \<Rightarrow> (bytes \<Rightarrow> gerror + aead)
     \<Rightarrow> (bytes \<Rightarrow> (gerror + ClientHello) \<times> trailing)
     \<Rightarrow> 'w Conn \<Rightarrow> Secret \<Rightarrow> (nat \<Rightarrow> ('w, bytes) io) \<Rightarrow> ('w, Client) io" where
  "authenticateClient hkdf newGCM decodeHello connection secret random =
     bindE (wrapErr ''generate server nonce: '' (random 16)) (\<lambda>serverNonce.
     bindE (wrapErr ''write server nonce: '' (conn_Write connection serverNonce)) (\<lambda>_.
     bindE (wrapErr ''read client nonce: '' (conn_Read connection)) (\<lambda>(messageType, clientNonce).
     bindE (guardE (\<not> (messageType \<noteq> MessageBinary \<or> length clientNonce \<noteq> 16))
       (Msg ''invalid client nonce'')) (\<lambda>_.
     bindE (liftE (DeriveKeys hkdf (bytes_of secret) serverNonce clientNonce)) (\<lambda>(c2s, s2c).
     bindE (liftE (NewOpener newGCM c2s)) (\<lambda>opener.
     bindE (liftE (NewSealer newGCM s2c)) (\<lambda>sealer.
     bindE (wrapErr ''read encrypted client hello: '' (conn_Read connection)) (\<lambda>(messageType, encryptedHello).
     bindE (guardE (messageType = MessageBinary) (Msg ''client hello must be binary'')) (\<lambda>_.
     liftE (acceptHello decodeHello opener sealer encryptedHello))))))))))"

section \<open>Sending\<close>

definition closeNow :: "gerror \<Rightarrow> Client \<Rightarrow> Client" where
  "closeNow e c =
     (if c_closeOnce c then c
      else let (q, as) = closeLocked (c_queue c) e in
        c\<lparr>c_closeOnce := True, c_queue := q, c_answered := c_answered c @ as,
          c_connClosed := c_connClosed c \<or> c_connection c\<rparr>)"

text \<open>Pushing a frame; a refused frame closes the client.\<close>

definition push_or_close :: "outboundFrame \<Rightarrow> Client \<Rightarrow> gerror option \<times> Client" where
  "push_or_close f c =
     (case push (c_queue c) f of (r, q, as) \<Rightarrow>
        let c' = c\<lparr>c_queue := q, c_answered := c_answered c @ as\<rparr> in
        case r of None \<Rightarrow> (None, c') | Some e \<Rightarrow> (Some e, closeNow e c'))"

text \<open>\<open>ctxErr\<close> is \<open>ctx.Err()\<close> at the moment of the call.\<close>

definition send :: "gerror option \<Rightarrow> byte \<Rightarrow> bytes \<Rightarrow> Client \<Rightarrow> gerror option \<times> Client" where
  "send ctxErr tag payload c =
     (case ctxErr of
        Some e \<Rightarrow> (Some e, c)
      | None \<Rightarrow> push_or_close \<lparr>of_tag = tag, of_payload = payload, of_result = None\<rparr> c)"

definition SendControl ::
    "(frame_value \<Rightarrow> gerror + bytes) \<Rightarrow> gerror option \<Rightarrow> byte \<Rightarrow> frame_value \<Rightarrow> Client \<Rightarrow> gerror option \<times> Client" where
  "SendControl marshal ctxErr tag v c =
     (case ValidateServerFrame tag v of
        Some e \<Rightarrow> (Some e, c)
      | None \<Rightarrow> (case EncodeControl marshal tag v of
          Inl e \<Rightarrow> (Some e, c)
        | Inr payload \<Rightarrow> send ctxErr tag payload c))"

text \<open>The context is looked at before every chunk: \<open>ctxErr i\<close> is what it says before chunk \<open>i\<close>.\<close>

fun send_chunks :: "(nat \<Rightarrow> gerror option) \<Rightarrow> nat \<Rightarrow> bytes list \<Rightarrow> Client \<Rightarrow> gerror option \<times> Client" where
  "send_chunks ctxErr i [] c = (None, c)"
| "send_chunks ctxErr i (chunk # chunks) c =
     (case send (ctxErr i) TagOutput chunk c of
        (Some e, c') \<Rightarrow> (Some e, c')
      | (None, c') \<Rightarrow> send_chunks ctxErr (Suc i) chunks c')"

definition SendOutput :: "(nat \<Rightarrow> gerror option) \<Rightarrow> bytes \<Rightarrow> Client \<Rightarrow> gerror option \<times> Client" where
  "SendOutput ctxErr output c = send_chunks ctxErr 0 (ChunkOutput output) c"

text \<open>
  \<open>closeWithFrame\<close> pushes the frame with a result channel \<open>ch\<close> and waits. What the other
  goroutines do to the client meanwhile, and what ends the wait, is given by \<open>wait\<close>: the
  value received on the channel, or the error of the expired context.
\<close>

datatype outcome = Received "gerror option" | Expired gerror

definition finishClose :: "outcome \<Rightarrow> Client \<Rightarrow> gerror option \<times> Client" where
  "finishClose out c =
     (case out of
        Received (Some e) \<Rightarrow> (Some e, closeNow e c)
      | Received None \<Rightarrow> (None, closeNow (Msg ''mirror client closed'') c)
      | Expired e \<Rightarrow> (Some e, closeNow e c))"

type_synonym waiting = "nat \<Rightarrow> Client \<Rightarrow> outcome \<times> Client"

definition closeWithFrame :: "waiting \<Rightarrow> nat \<Rightarrow> byte \<Rightarrow> bytes \<Rightarrow> Client \<Rightarrow> gerror option \<times> Client" where
  "closeWithFrame wait ch tag payload c =
     (case push_or_close \<lparr>of_tag = tag, of_payload = payload, of_result = Some ch\<rparr> c of
        (Some e, c') \<Rightarrow> (Some e, c')
      | (None, c') \<Rightarrow> (case wait ch c' of (out, c'') \<Rightarrow> finishClose out c''))"

definition closeWithControl ::
    "(frame_value \<Rightarrow> gerror + bytes) \<Rightarrow> waiting \<Rightarrow> nat \<Rightarrow> byte \<Rightarrow> frame_value \<Rightarrow> Client \<Rightarrow> gerror option \<times> Client" where
  "closeWithControl marshal wait ch tag v c =
     (case ValidateServerFrame tag v of
        Some e \<Rightarrow> (Some e, c)
      | None \<Rightarrow> (case EncodeControl marshal tag v of
          Inl e \<Rightarrow> (Some e, c)
        | Inr payload \<Rightarrow> closeWithFrame wait ch tag payload c))"

definition sendCloseAcknowledgement ::
    "waiting \<Rightarrow> nat \<Rightarrow> gerror option \<Rightarrow> Client \<Rightarrow> gerror option \<times> Client" where
  "sendCloseAcknowledgement wait ch ctxErr c =
     (case ValidateServerFrame TagClose VNil of
        Some e \<Rightarrow> (Some e, c)
      | None \<Rightarrow>
          if c_connection c then closeWithFrame wait ch TagClose [] c
          else send ctxErr TagClose [] c)"

text \<open>
  The body of \<open>writeLoop\<close> for a frame that was popped: \<open>written\<close> is the result of the
  connection's \<open>Write\<close>. The second result says whether the loop goes on.
\<close>

definition writeFrame :: "(bytes \<Rightarrow> gerror option) \<Rightarrow> outboundFrame \<Rightarrow> Client \<Rightarrow> bool \<times> Client" where
  "writeFrame written f c =
     (case Seal (c_sealer c) (of_tag f) (of_payload f) of (sealer', r) \<Rightarrow>
        let err = (case r of Inl e \<Rightarrow> Some e | Inr ciphertext \<Rightarrow> written ciphertext);
            c1 = c\<lparr>c_sealer := sealer', c_answered := c_answered c @ answers_of [f] err\<rparr>
        in case err of
             None \<Rightarrow> (True, c1)
           | Some e \<Rightarrow> (False, closeNow e c1))"

section \<open>Receiving\<close>

text \<open>The \<open>ClientHandler\<close> interface; a handler may change the client, as \<open>markViewerClosed\<close> does.\<close>

record 'h ClientHandler =
  ch_Connected :: "Client \<times> 'h \<Rightarrow> gerror option \<times> Client \<times> 'h"
  ch_Close :: "Client \<times> 'h \<Rightarrow> gerror option \<times> Client \<times> 'h"
  ch_Input :: "bytes \<Rightarrow> Client \<times> 'h \<Rightarrow> gerror option \<times> Client \<times> 'h"
  ch_Disconnected :: "Client \<times> 'h \<Rightarrow> Client \<times> 'h"

definition markViewerClosed :: "Client \<Rightarrow> Client" where
  "markViewerClosed c = c\<lparr>c_viewerOpen := False\<rparr>"

definition acknowledge :: "waiting \<Rightarrow> nat \<Rightarrow> gerror option \<Rightarrow> Client \<times> 'h \<Rightarrow> gerror option \<times> Client \<times> 'h" where
  "acknowledge wait ch ctxErr s =
     (case s of (c, h) \<Rightarrow> case sendCloseAcknowledgement wait ch ctxErr c of (r, c') \<Rightarrow> (r, c', h))"

definition dispatch ::
    "waiting \<Rightarrow> nat \<Rightarrow> gerror option \<Rightarrow> 'h ClientHandler \<Rightarrow> byte \<Rightarrow> bytes \<Rightarrow> Client \<times> 'h
     \<Rightarrow> gerror option \<times> Client \<times> 'h" where
  "dispatch wait ch ctxErr hnd tag payload s =
     (if tag = TagClose then
        (case ValidateClientFrame tag (VBytes payload) of
           Some e \<Rightarrow> (Some e, s)
         | None \<Rightarrow>
             if \<not> c_viewerOpen (fst s) then acknowledge wait ch ctxErr s
             else (case ch_Close hnd s of
                 (Some e, s') \<Rightarrow>
                   if \<not> c_viewerOpen (fst s') then acknowledge wait ch ctxErr s' else (Some e, s')
               | (None, s') \<Rightarrow> acknowledge wait ch ctxErr (fst s'\<lparr>c_viewerOpen := False\<rparr>, snd s')))
      else if tag = TagInput then
        (case ValidateClientFrame tag (VBytes payload) of
           Some e \<Rightarrow> (Some e, s)
         | None \<Rightarrow>
             if \<not> c_viewerOpen (fst s) then (None, s)
             else (case ch_Input hnd payload s of (err, s') \<Rightarrow>
               if err \<noteq> None \<and> \<not> c_viewerOpen (fst s') then (None, s') else (err, s')))
      else (Some (Msgf ''tag 0x%02x is invalid from client'' []), s))"

text \<open>
  The loop of \<open>run\<close> over the results of \<open>Read\<close>; the connection ends after the last one.
  Dispatch number \<open>ch\<close> uses channel \<open>ch\<close>.
\<close>

fun readLoop ::
    "waiting \<Rightarrow> gerror option \<Rightarrow> 'h ClientHandler \<Rightarrow> nat \<Rightarrow> (gerror + messageType \<times> bytes) list \<Rightarrow> Client \<times> 'h
     \<Rightarrow> Client \<times> 'h" where
  "readLoop wait ctxErr hnd ch [] s = s"
| "readLoop wait ctxErr hnd ch (Inl e # reads) s = s"
| "readLoop wait ctxErr hnd ch (Inr (messageType, ciphertext) # reads) (c, h) =
     (if messageType \<noteq> MessageBinary then (c, h)
      else case Open (c_opener c) ciphertext of
        (opener', Inl e) \<Rightarrow> (c\<lparr>c_opener := opener'\<rparr>, h)
      | (opener', Inr (tag, payload)) \<Rightarrow>
          (case dispatch wait ch ctxErr hnd tag payload (c\<lparr>c_opener := opener'\<rparr>, h) of
             (Some e, s') \<Rightarrow> s'
           | (None, s') \<Rightarrow> readLoop wait ctxErr hnd (Suc ch) reads s'))"

definition Client_run ::
    "waiting \<Rightarrow> gerror option \<Rightarrow> 'h ClientHandler \<Rightarrow> nat \<Rightarrow> (gerror + messageType \<times> bytes) list \<Rightarrow> Client \<times> 'h
     \<Rightarrow> Client \<times> 'h" where
  "Client_run wait ctxErr hnd ch reads s =
     (case readLoop wait ctxErr hnd ch reads s of (c, h) \<Rightarrow>
        ch_Disconnected hnd (closeNow (Msg ''mirror client disconnected'') c, h))"

section \<open>The handshake succeeds for a holder of the secret\<close>

text \<open>C15: A browser that holds the pairing secret is let in: it answers the server's nonce with its
  own, derives the same two keys and seals a hello of this protocol version. From then on the two
  ends read each other: what either sealer seals the other end's opener gives back, in order.\<close>

theorem handshake_accepts_holder:
  assumes nonce: "random 16 w = (Inr sn, w1)" and sent: "conn_Write conn sn w1 = (Inr (), w2)"
    and read1: "conn_Read conn w2 = (Inr (MessageBinary, cn), w3)" and "length cn = 16"
    and keys: "DeriveKeys hkdf (bytes_of secret) sn cn = Inr (c2s, s2c)"
    and peer: "NewSealer newGCM c2s = Inr ps" "NewOpener newGCM s2c = Inr po"
    and gcms: "\<forall>k a. newGCM k = Inr a \<longrightarrow> gcm_correct a"
    and hello: "DecodeControl dec TagClientHello payload = Inr \<lparr>hello_Version = ProtocolVersion\<rparr>"
    and sealed: "Seal ps TagClientHello payload = (ps', Inr msg)"
    and read2: "conn_Read conn w3 = (Inr (MessageBinary, msg), w4)"
  shows "\<exists>c. authenticateClient hkdf newGCM dec conn secret random w = (Inr c, w4)
    \<and> (\<forall>fs ms. snd (seal_run (c_sealer c) fs) = map Inr ms \<longrightarrow> snd (open_run po ms) = map Inr fs)
    \<and> (\<forall>fs ms. snd (seal_run ps' fs) = map Inr ms \<longrightarrow> snd (open_run (c_opener c) ms) = map Inr fs)"
proof -
  obtain a where a: "newGCM c2s = Inr a" "ps = fresh_sealer a"
    using peer(1) by (auto simp: NewSealer_def fresh_sealer_def split: sum.splits)
  obtain b where b: "newGCM s2c = Inr b" "po = fresh_opener b"
    using peer(2) by (auto simp: NewOpener_def fresh_opener_def split: sum.splits)
  have gcm: "gcm_correct x" if "newGCM k = Inr x" for k x using gcms that by blast
  let ?o = "(fresh_opener a)\<lparr>o_counter := 1\<rparr>"
  note ok = Seal_ok [OF sealed]
  have no: "NewOpener newGCM c2s = Inr (fresh_opener a)" and ns: "NewSealer newGCM s2c = Inr (fresh_sealer b)"
    using a b by (simp_all add: NewOpener_def NewSealer_def fresh_opener_def fresh_sealer_def)
  have op: "Open (fresh_opener a) msg = (?o, Inr (TagClientHello, payload))"
    using ok gcm [OF a(1)] by (simp add: Open_def fresh_opener_def fresh_sealer_def a gcm_correct_def
        counterNonce_length MaxUint64_def)
  have v: "ValidateClientFrame TagClientHello (VClientHello \<lparr>hello_Version = ProtocolVersion\<rparr>) = None"
    by (simp add: ValidateClientFrame_def)
  let ?c = "newClient ?o (fresh_sealer b)"
  have "authenticateClient hkdf newGCM dec conn secret random w = (Inr ?c, w4)"
    by (simp add: authenticateClient_def acceptHello_def io_simps wrapErr_def nonce sent read1 read2 keys no ns op hello v
        \<open>length cn = 16\<close>)
  moreover have "snd (open_run po ms) = map Inr fs" if "snd (seal_run (c_sealer ?c) fs) = map Inr ms" for fs ms
    using that gcm [OF b(1)] by (intro open_seal_run [of "c_sealer ?c"])
      (simp_all add: newClient_def b fresh_sealer_def fresh_opener_def)
  moreover have "snd (open_run (c_opener ?c) ms) = map Inr fs" if "snd (seal_run ps' fs) = map Inr ms" for fs ms
    using that gcm [OF a(1)] ok by (intro open_seal_run [of ps'])
      (simp_all add: newClient_def a fresh_sealer_def fresh_opener_def)
  ultimately show ?thesis by blast
qed

section \<open>The handshake fails for everybody else\<close>

text \<open>
  A message the network may deliver that gives no access: it opens under no key at all, or
  somebody sealed it under a client key for another secret or another server nonce.
\<close>

definition useless_message ::
    "(bytes \<Rightarrow> bytes \<Rightarrow> string \<Rightarrow> gerror + bytes) \<Rightarrow> (bytes \<Rightarrow> aead) \<Rightarrow> bytes \<Rightarrow> bytes \<Rightarrow> bytes \<Rightarrow> bool" where
  "useless_message hkdf A secret sn m \<longleftrightarrow>
     (\<forall>k. rejected_forgery (A k) m) \<or>
     (\<exists>secret' sn' cn' k n p. (secret', sn') \<noteq> (secret, sn) \<and> length sn' = 16 \<and> length cn' = 16
        \<and> hkdf secret' (sn' @ cn') ''wrap-mirror/v3/c2s'' = Inr k \<and> m = aead_Seal (A k) n p)"


text \<open>A keyed cipher and a key derivation that only bind their inputs, and a scripted connection.\<close>

definition delimited :: "bytes \<Rightarrow> bytes" where
  "delimited k = concat (map (\<lambda>b. [1, b]) k) @ [0]"

lemma delimited_simps [simp]: "delimited [] = [0]" "delimited (b # k) = 1 # b # delimited k"
  by (simp_all add: delimited_def)

lemma delimited_length: "length (delimited k) = 2 * length k + 1"
  by (induction k) auto

lemma delimited_prefix: "delimited k @ x = delimited k' @ y \<longleftrightarrow> k = k' \<and> x = y"
proof (induction k arbitrary: k')
  case Nil
  then show ?case by (cases k') auto
next
  case (Cons b k)
  then show ?case by (cases k') auto
qed

definition keyed_aead :: "bytes \<Rightarrow> aead" where
  "keyed_aead k =
     \<lparr>aead_Seal = (\<lambda>n p. delimited k @ n @ p),
      aead_Open = (\<lambda>n c. let d = delimited k @ n in
                         if take (length d) c = d then Inr (drop (length d) c) else Inl (Msg ''authentication failed'')),
      aead_Overhead = length (delimited k) + 12\<rparr>"

lemma keyed_aead_correct: "gcm_correct (keyed_aead k)"
  by (auto simp: gcm_correct_def keyed_aead_def Let_def)

lemma keyed_aead_keyed: "k \<noteq> k' \<Longrightarrow> \<exists>e. aead_Open (keyed_aead k) n (aead_Seal (keyed_aead k') m p) = Inl e"
proof -
  assume k: "k \<noteq> k'"
  have "take (length (delimited k @ n)) (delimited k' @ m @ p) \<noteq> delimited k @ n"
    using k delimited_prefix [of k' "m @ p" k] by (metis append.assoc append_take_drop_id)
  then show ?thesis by (simp add: keyed_aead_def Let_def)
qed

definition binding_hkdf :: "bytes \<Rightarrow> bytes \<Rightarrow> string \<Rightarrow> gerror + bytes" where
  "binding_hkdf secret salt info = Inr (delimited secret @ salt)"

definition scripted_conn :: "bytes list Conn" where
  "scripted_conn =
     \<lparr>conn_Write = (\<lambda>m. returnE ()),
      conn_Read = (\<lambda>ms. case ms of [] \<Rightarrow> (Inl (Msg ''closed''), ms) | m # ms \<Rightarrow> (Inr (MessageBinary, m), ms))\<rparr>"

definition demo_secret :: Secret where "demo_secret = replicate 32 CHR ''s''"
definition demo_nonce :: "byte \<Rightarrow> bytes" where "demo_nonce b = replicate 16 b"
definition demo_key :: bytes where "demo_key = delimited (bytes_of demo_secret) @ demo_nonce 1 @ demo_nonce 2"
definition demo_hello :: bytes where
  "demo_hello = aead_Seal (keyed_aead demo_key) (counterNonce 0) [TagClientHello]"

lemma demo_facts:
  "length (demo_nonce b) = 16" "length demo_secret = 32" "length (delimited demo_key) = 195"
  "DeriveKeys binding_hkdf (bytes_of demo_secret) (demo_nonce 1) (demo_nonce 2) = Inr (demo_key, demo_key)"
  "demo_nonce b = demo_nonce b' \<longleftrightarrow> b = b'"
  by (simp_all add: demo_nonce_def demo_secret_def demo_key_def delimited_length DeriveKeys_def binding_hkdf_def Let_def)

theorem handshake_accepts_holder_witness:
  "\<exists>c. authenticateClient binding_hkdf (\<lambda>k. Inr (keyed_aead k)) (\<lambda>_. (Inr \<lparr>hello_Version = ProtocolVersion\<rparr>, AtEOF))
        scripted_conn demo_secret (\<lambda>n. returnE (demo_nonce 1)) [demo_nonce 2, demo_hello] = (Inr c, [])"
proof -
  have seal: "Seal (fresh_sealer (keyed_aead demo_key)) TagClientHello [] =
      ((fresh_sealer (keyed_aead demo_key))\<lparr>s_counter := 1\<rparr>, Inr demo_hello)"
    by (simp add: Seal_def fresh_sealer_def MaxUint64_def keyed_aead_def MaxWireMessage_def demo_facts demo_hello_def)
  have new: "NewSealer (\<lambda>k. Inr (keyed_aead k)) demo_key = Inr (fresh_sealer (keyed_aead demo_key))"
    "NewOpener (\<lambda>k. Inr (keyed_aead k)) demo_key = Inr (fresh_opener (keyed_aead demo_key))"
    by (simp_all add: NewSealer_def NewOpener_def fresh_sealer_def fresh_opener_def)
  have reads: "conn_Read scripted_conn (m # ms) = (Inr (MessageBinary, m), ms)" for m ms
    by (simp add: scripted_conn_def)
  have hello: "DecodeControl (\<lambda>_. (Inr \<lparr>hello_Version = ProtocolVersion\<rparr>, AtEOF)) TagClientHello [] =
      Inr \<lparr>hello_Version = ProtocolVersion\<rparr>"
    by (simp add: DecodeControl_def isControlTag_def MaxWireMessage_def)
  have gcm: "\<forall>k a. Inr (keyed_aead k) = Inr a \<longrightarrow> gcm_correct a"
    using keyed_aead_correct by auto
  have wr: "conn_Write scripted_conn m ms = (Inr (), ms)" for m ms
    by (simp add: scripted_conn_def returnE_apply)
  have random: "(\<lambda>n. returnE (demo_nonce 1)) 16 ms = (Inr (demo_nonce 1), ms)" for ms
    by (simp add: returnE_apply)
  show ?thesis
    using handshake_accepts_holder [where random = "\<lambda>n. returnE (demo_nonce 1)" and newGCM = "\<lambda>k. Inr (keyed_aead k)",
        OF random wr reads demo_facts(1) demo_facts(4) new gcm hello seal reads] by blast
qed


end
