(* ===== verification/Mirror_Session.thy ===== *)
theory Mirror_Session
  imports Mirror_Handshake "HOL-Library.Multiset"
begin

text \<open>
  Properties of an authenticated client over its life: output is queued whole and in order,
  input reaches the handler only from the paired browser and in order, and every close frame
  that was accepted gets exactly one result, whatever the writer, the waiting callers and the
  other goroutines do in between.
\<close>

section \<open>Output is queued whole\<close>

definition output_frame :: "bytes \<Rightarrow> outboundFrame" where
  "output_frame chunk = \<lparr>of_tag = TagOutput, of_payload = chunk, of_result = None\<rparr>"

lemma closeNow_closed: "oq_closed (c_queue c) \<Longrightarrow> oq_closed (c_queue (closeNow e c))"
  by (auto simp: closeNow_def closeLocked_def Let_def)

lemma push_or_close_cases:
  assumes "push_or_close f c = (r, c')"
  shows "(r = None \<and> oq_frames (c_queue c') = oq_frames (c_queue c) @ [f]) \<or> (r \<noteq> None \<and> oq_closed (c_queue c'))"
  using assms closeNow_closed
  by (auto simp: push_or_close_def push_def Let_def closeLocked_def split: if_splits)

lemma send_chunks_cases:
  "send_chunks ctxErr i chunks c = (r, c') \<Longrightarrow>
     (r = None \<and> oq_frames (c_queue c') = oq_frames (c_queue c) @ map output_frame chunks)
     \<or> (\<exists>e. r = Some e \<and> ((\<exists>j. ctxErr j = Some e) \<or> oq_closed (c_queue c')))"
proof (induction ctxErr i chunks c rule: send_chunks.induct)
  case (2 ctxErr i chunk chunks c)
  show ?case
  proof (cases "ctxErr i")
    case (Some e)
    then have "r = Some e" using 2(2) by (simp add: send_def)
    with Some show ?thesis by blast
  next
    case None
    obtain r1 c1 where s: "send (ctxErr i) TagOutput chunk c = (r1, c1)" by (rule prod.exhaust)
    then have "push_or_close (output_frame chunk) c = (r1, c1)"
      using None by (simp add: send_def output_frame_def)
    from push_or_close_cases [OF this] show ?thesis
      using 2 s by (cases r1) auto
  qed
qed simp

text \<open>A successful \<open>SendOutput\<close> has put the whole output into the queue: after the frames that
  were there, frames whose payloads put together are the output, each small enough to be sealed.
  When it fails, either the context was done or the queue is closed, so that nothing more of the
  stream can follow a gap.\<close>

theorem SendOutput_whole:
  assumes "SendOutput ctxErr output c = (r, c')"
  shows "case r of
      None \<Rightarrow> \<exists>chunks. oq_frames (c_queue c') = oq_frames (c_queue c) @ map output_frame chunks
        \<and> concat chunks = output \<and> (\<forall>chunk \<in> set chunks. chunk \<noteq> [] \<and> length chunk + 1 + 16 \<le> MaxWireMessage)
    | Some e \<Rightarrow> (\<exists>j. ctxErr j = Some e) \<or> oq_closed (c_queue c')"
proof -
  have "\<forall>chunk \<in> set (ChunkOutput output). chunk \<noteq> [] \<and> length chunk + 1 + 16 \<le> MaxWireMessage"
    using ChunkOutput_sizes maxPlainPayload_fits by blast
  then show ?thesis
    using send_chunks_cases [of ctxErr 0 "ChunkOutput output" c r c'] assms
    by (auto simp: SendOutput_def concat_ChunkOutput intro!: exI [of _ "ChunkOutput output"])
qed

definition demo_client :: Client where
  "demo_client = newClient (fresh_opener nonce_prefix_aead) (fresh_sealer nonce_prefix_aead)"

theorem SendOutput_whole_witness:
  "\<exists>chunks. oq_frames (c_queue (snd (SendOutput (\<lambda>_. None) [104, 105] demo_client))) = map output_frame chunks
     \<and> concat chunks = [104, 105]"
proof -
  have "ChunkOutput [104, 105] = [[104, 105]]"
    by (simp add: ChunkOutput_nonempty maxPlainPayload_def MaxWireMessage_def)
  then have "fst (SendOutput (\<lambda>_. None) [104, 105] demo_client) = None"
    by (simp add: SendOutput_def send_def push_or_close_def push_def demo_client_def newClient_def
        newOutboundQueue_def frame_size_def MaxClientQueueBytes_def)
  then have "SendOutput (\<lambda>_. None) [104, 105] demo_client = (None, snd (SendOutput (\<lambda>_. None) [104, 105] demo_client))"
    by (metis prod.collapse)
  from SendOutput_whole [OF this] show ?thesis
    by (auto simp: demo_client_def newClient_def newOutboundQueue_def)
qed

section \<open>Input comes from the paired browser\<close>

text \<open>A handler that records the input it is given.\<close>

definition logging :: "'h ClientHandler \<Rightarrow> ('h \<times> bytes list) ClientHandler" where
  "logging hnd =
     \<lparr>ch_Connected = (\<lambda>(c, h, l). case ch_Connected hnd (c, h) of (r, c', h') \<Rightarrow> (r, c', h', l)),
      ch_Close = (\<lambda>(c, h, l). case ch_Close hnd (c, h) of (r, c', h') \<Rightarrow> (r, c', h', l)),
      ch_Input = (\<lambda>p (c, h, l). case ch_Input hnd p (c, h) of (r, c', h') \<Rightarrow> (r, c', h', l @ [p])),
      ch_Disconnected = (\<lambda>(c, h, l). case ch_Disconnected hnd (c, h) of (c', h') \<Rightarrow> (c', h', l))\<rparr>"

text \<open>The opener belongs to the reading goroutine: handlers and other goroutines leave it alone.\<close>

definition keeps_opener :: "'h ClientHandler \<Rightarrow> waiting \<Rightarrow> bool" where
  "keeps_opener hnd wait \<longleftrightarrow>
     (\<forall>c h. c_opener (fst (snd (ch_Close hnd (c, h)))) = c_opener c) \<and>
     (\<forall>p c h. c_opener (fst (snd (ch_Input hnd p (c, h)))) = c_opener c) \<and>
     (\<forall>ch c. c_opener (snd (wait ch c)) = c_opener c)"

definition inputs :: "(byte \<times> bytes) list \<Rightarrow> bytes list" where
  "inputs fs = map snd (filter (\<lambda>f. fst f = TagInput) fs)"

definition messages :: "(gerror + messageType \<times> bytes) list \<Rightarrow> bytes list" where
  "messages reads = List.map_filter (\<lambda>r. case r of Inl _ \<Rightarrow> None | Inr (_, m) \<Rightarrow> Some m) reads"

text \<open>The frames an opener accepts before its first error.\<close>

fun accepted_frames :: "Opener \<Rightarrow> bytes list \<Rightarrow> (byte \<times> bytes) list" where
  "accepted_frames o' [] = []"
| "accepted_frames o' (m # ms) =
     (case Open o' m of (o1, Inl e) \<Rightarrow> [] | (o1, Inr f) \<Rightarrow> f # accepted_frames o1 ms)"

lemma accepted_frames_run:
  "snd (open_run o' ms) = map Inr fs @ map Inl es \<Longrightarrow> accepted_frames o' ms = fs"
proof (induction o' ms arbitrary: fs rule: accepted_frames.induct)
  case (2 o' m ms)
  obtain o1 r where o1: "Open o' m = (o1, r)" by (rule prod.exhaust)
  then show ?case using 2 by (cases r; cases fs) (auto simp: Let_def split: prod.splits)
qed simp

lemma closeNow_opener [simp]: "c_opener (closeNow e c) = c_opener c"
  by (auto simp: closeNow_def Let_def split: prod.splits)

lemma push_or_close_opener: "c_opener (snd (push_or_close f c)) = c_opener c"
  by (auto simp: push_or_close_def Let_def split: prod.splits option.splits)

lemma finishClose_opener: "c_opener (snd (finishClose out c)) = c_opener c"
  by (auto simp: finishClose_def split: outcome.splits option.splits)

lemma acknowledge_keeps:
  assumes "keeps_opener hnd wait" and "acknowledge wait ch ctxErr (c, h) = (r, c', h')"
  shows "c_opener c' = c_opener c \<and> h' = h"
proof -
  have "c_opener (snd (closeWithFrame wait ch tag payload c)) = c_opener c" for tag payload
    using assms(1) push_or_close_opener [of "\<lparr>of_tag = tag, of_payload = payload, of_result = Some ch\<rparr>" c]
    by (auto simp: closeWithFrame_def keeps_opener_def finishClose_opener split: prod.splits option.splits)
       (metis snd_conv finishClose_opener)
  then have "c_opener (snd (sendCloseAcknowledgement wait ch ctxErr c)) = c_opener c"
    using push_or_close_opener
    by (auto simp: sendCloseAcknowledgement_def send_def split: option.splits)
  then show ?thesis using assms(2) by (auto simp: acknowledge_def split: prod.splits)
qed


lemma dispatch_logs:
  assumes k: "keeps_opener hnd wait"
    and d: "dispatch wait ch ctxErr (logging hnd) tag payload (c, h, l) = (r, c', h', l')"
  shows "c_opener c' = c_opener c \<and> (l' = l \<or> tag = TagInput \<and> l' = l @ [payload])"
proof -
  have kl: "keeps_opener (logging hnd) wait"
    using k by (auto simp: keeps_opener_def logging_def split: prod.splits) (metis fst_conv snd_conv)+
  have ack: "c_opener c2 = c_opener c1 \<and> l2 = l1"
    if "acknowledge wait ch ctxErr (c1, h1, l1) = (x, c2, h2, l2)" for c1 h1 l1 x c2 h2 and l2 :: "bytes list"
    using acknowledge_keeps [OF kl that] by simp
  obtain r1 c1 h1 where cl: "ch_Close hnd (c, h) = (r1, c1, h1)" by (metis prod_cases3)
  obtain r2 c2 h2 where inp: "ch_Input hnd payload (c, h) = (r2, c2, h2)" by (metis prod_cases3)
  have o1: "c_opener c1 = c_opener c" "c_opener c2 = c_opener c"
    using k cl inp by (auto simp: keeps_opener_def) (metis fst_conv snd_conv)+
  have lc: "ch_Close (logging hnd) (c, h, l) = (r1, c1, h1, l)"
    "ch_Input (logging hnd) payload (c, h, l) = (r2, c2, h2, l @ [payload])"
    by (simp_all add: logging_def cl inp)
  show ?thesis
    using d o1 by (auto simp: dispatch_def lc dest!: ack split: if_splits option.splits)
qed

lemma readLoop_logs:
  assumes "keeps_opener hnd wait"
  shows "\<exists>new. snd (snd (readLoop wait ctxErr (logging hnd) ch reads (c, h, l))) = l @ new
    \<and> subseq new (inputs (accepted_frames (c_opener c) (messages reads)))"
proof (induction reads arbitrary: ch c h l)
  case (Cons x reads)
  show ?case
  proof (cases "\<exists>m. x = Inr (MessageBinary, m)")
    case False
    then show ?thesis by (cases x) auto
  next
    case True
    then obtain m where x: "x = Inr (MessageBinary, m)" by blast
    have ms: "messages (x # reads) = m # messages reads" by (simp add: messages_def x map_filter_def)
    obtain o1 res where op: "Open (c_opener c) m = (o1, res)" by (rule prod.exhaust)
    show ?thesis
    proof (cases res)
      case (Inl e)
      then show ?thesis by (simp add: x op ms inputs_def)
    next
      case (Inr f)
      obtain tag payload where f: "f = (tag, payload)" by (rule prod.exhaust)
      obtain r c1 h1 l1 where d: "dispatch wait ch ctxErr (logging hnd) tag payload (c\<lparr>c_opener := o1\<rparr>, h, l) = (r, c1, h1, l1)"
        by (metis prod_cases4)
      from dispatch_logs [OF assms d] have o: "c_opener c1 = o1"
        and l1: "l1 = l \<or> tag = TagInput \<and> l1 = l @ [payload]" by auto
      obtain new where new: "snd (snd (readLoop wait ctxErr (logging hnd) (Suc ch) reads (c1, h1, l1))) = l1 @ new"
        "subseq new (inputs (accepted_frames o1 (messages reads)))"
        using Cons.IH [of "Suc ch" c1 h1 l1] o by auto
      have acc: "inputs (accepted_frames (c_opener c) (messages (x # reads))) =
          (if tag = TagInput then [payload] else []) @ inputs (accepted_frames o1 (messages reads))"
        by (simp add: ms op Inr f inputs_def)
      show ?thesis using l1 new by (cases r) (auto simp: x op Inr f d acc [unfolded x])
    qed
  qed
qed simp

text \<open>C13: What a connection hands to the handler as keyboard input is what the paired browser sealed
  as input, in the order in which it was sealed and nothing twice: whatever is replayed, reordered,
  dropped or forged on the network, the payloads are a subsequence of the input payloads among the
  first frames the peer sealed after the hello (those that arrive while no viewer is open are
  skipped).\<close>

theorem input_only_from_peer:
  assumes "gcm_correct a" and "gcm_authentic a"
    and "snd (seal_run (fresh_sealer a) (hello # fs)) = map Inr cs"
    and "\<forall>m \<in> set (messages reads). m \<in> set cs \<or> rejected_forgery a m"
    and "c_opener c = (fresh_opener a)\<lparr>o_counter := 1\<rparr>"
    and "keeps_opener hnd wait"
  shows "\<exists>k. subseq (snd (snd (readLoop wait ctxErr (logging hnd) ch reads (c, h, [])))) (inputs (take k fs))"
proof -
  obtain k es where "snd (open_run (c_opener c) (messages reads)) = map Inr (take k fs) @ map Inl es"
    using open_run_prefix_from [OF assms(1-4), of "c_opener c" 1] assms(5) by (auto simp: fresh_opener_def)
  then have "accepted_frames (c_opener c) (messages reads) = take k fs" by (rule accepted_frames_run)
  with readLoop_logs [OF assms(6), of ctxErr ch reads c h "[]"] show ?thesis by auto
qed

definition demo_handler :: "unit ClientHandler" where
  "demo_handler =
     \<lparr>ch_Connected = (\<lambda>(c, h). (None, c, h)), ch_Close = (\<lambda>(c, h). (None, c, h)),
      ch_Input = (\<lambda>p (c, h). (None, c, h)), ch_Disconnected = id\<rparr>"

theorem input_only_from_peer_witness:
  "\<exists>k. subseq (snd (snd (readLoop (\<lambda>ch c. (Received None, c)) None (logging demo_handler) 0
        [Inr (MessageBinary, counterNonce 1 @ [6, 97]), Inr (MessageBinary, counterNonce 1 @ [6, 97])]
        (demo_client\<lparr>c_opener := (fresh_opener nonce_prefix_aead)\<lparr>o_counter := 1\<rparr>, c_viewerOpen := True\<rparr>, (), []))))
      (inputs (take k [(6, [97])]))"
  by (rule input_only_from_peer [where a = nonce_prefix_aead and hello = "(1, [])"
        and cs = "[counterNonce 0 @ [1], counterNonce 1 @ [6, 97]]"])
     (use nonce_prefix_aead_laws in
       \<open>simp_all add: fresh_sealer_def nonce_prefix_aead_def Seal_def MaxUint64_def MaxWireMessage_def
         messages_def map_filter_def keeps_opener_def demo_handler_def\<close>)


section \<open>Every accepted close frame gets one result\<close>

text \<open>
  The client with its goroutines: the frame the writer is working on, the channels whose
  \<open>closeWithFrame\<close> call was accepted and those that still wait, and the next unused channel.
\<close>

record clientSystem =
  y_client :: Client
  y_inflight :: "outboundFrame option"
  y_accepted :: "nat list"
  y_waiting :: "nat list"
  y_next :: nat

inductive client_step :: "clientSystem \<Rightarrow> clientSystem \<Rightarrow> bool" where
  step_send: "client_step y (y\<lparr>y_client := snd (send ctxErr tag payload (y_client y))\<rparr>)"
| step_close_start:
    "push_or_close \<lparr>of_tag = tag, of_payload = payload, of_result = Some (y_next y)\<rparr> (y_client y) = (r, c) \<Longrightarrow>
     client_step y (y\<lparr>y_client := c, y_next := Suc (y_next y),
       y_accepted := y_accepted y @ (if r = None then [y_next y] else []),
       y_waiting := y_waiting y @ (if r = None then [y_next y] else [])\<rparr>)"
| step_close_received:
    "ch \<in> set (y_waiting y) \<Longrightarrow> (ch, r) \<in> set (c_answered (y_client y)) \<Longrightarrow>
     client_step y (y\<lparr>y_client := snd (finishClose (Received r) (y_client y)), y_waiting := removeAll ch (y_waiting y)\<rparr>)"
| step_close_expired:
    "ch \<in> set (y_waiting y) \<Longrightarrow>
     client_step y (y\<lparr>y_client := snd (finishClose (Expired e) (y_client y)), y_waiting := removeAll ch (y_waiting y)\<rparr>)"
| step_pop:
    "\<not> c_writerDone (y_client y) \<Longrightarrow> y_inflight y = None \<Longrightarrow> pop (c_queue (y_client y)) = (PopFrame f, q) \<Longrightarrow>
     client_step y (y\<lparr>y_client := (y_client y)\<lparr>c_queue := q\<rparr>, y_inflight := Some f\<rparr>)"
| step_writer_end:
    "\<not> c_writerDone (y_client y) \<Longrightarrow> y_inflight y = None \<Longrightarrow> fst (pop (c_queue (y_client y))) \<in> {PopClosed, PopWait} \<Longrightarrow>
     client_step y (y\<lparr>y_client := (y_client y)\<lparr>c_writerDone := True\<rparr>\<rparr>)"
| step_write:
    "y_inflight y = Some f \<Longrightarrow> writeFrame written f (y_client y) = (continue, c) \<Longrightarrow>
     client_step y (y\<lparr>y_client := c\<lparr>c_writerDone := c_writerDone c \<or> \<not> continue\<rparr>, y_inflight := None\<rparr>)"
| step_close_now: "client_step y (y\<lparr>y_client := closeNow e (y_client y)\<rparr>)"
| step_viewer: "client_step y (y\<lparr>y_client := (y_client y)\<lparr>c_viewerOpen := b\<rparr>\<rparr>)"
| step_open: "client_step y (y\<lparr>y_client := (y_client y)\<lparr>c_opener := o'\<rparr>\<rparr>)"

definition client_init :: "clientSystem \<Rightarrow> bool" where
  "client_init y \<longleftrightarrow> (\<exists>opener sealer. y_client y = newClient opener sealer) \<and> y_inflight y = None
     \<and> y_accepted y = [] \<and> y_waiting y = []"

definition channels :: "outboundFrame list \<Rightarrow> nat list" where
  "channels fs = List.map_filter of_result fs"

definition owed :: "Client \<Rightarrow> outboundFrame option \<Rightarrow> nat multiset" where
  "owed c f = mset (map fst (c_answered c)) + mset (channels (oq_frames (c_queue c)))
     + mset (channels (case f of None \<Rightarrow> [] | Some f \<Rightarrow> [f]))"

definition client_inv :: "clientSystem \<Rightarrow> bool" where
  "client_inv y \<longleftrightarrow> owed (y_client y) (y_inflight y) = mset (y_accepted y)
     \<and> distinct (y_accepted y) \<and> (\<forall>ch \<in> set (y_accepted y). ch < y_next y)
     \<and> set (y_waiting y) \<subseteq> set (y_accepted y) \<and> queue_inv (c_queue (y_client y))"

lemma channels_simps [simp]:
  "channels [] = []" "channels (f # fs) = (case of_result f of None \<Rightarrow> [] | Some ch \<Rightarrow> [ch]) @ channels fs"
  "channels (fs @ gs) = channels fs @ channels gs"
  by (auto simp: channels_def map_filter_def split: option.splits)

lemma fst_answers_of [simp]: "map fst (answers_of fs e) = channels fs"
  by (induction fs) (auto simp: answers_of_def channels_def map_filter_def split: option.splits)

lemma mset_answers_of [simp]: "image_mset fst (mset (answers_of fs e)) = mset (channels fs)"
  by (metis fst_answers_of mset_map)

lemma closeLocked_owed:
  assumes "closeLocked q e = (q', as)"
  shows "mset (map fst as) + mset (channels (oq_frames q')) = mset (channels (oq_frames q))"
  using assms by (auto simp: closeLocked_def split: if_splits)

lemma closeNow_owed [simp]: "owed (closeNow e c) f = owed c f"
proof -
  obtain q as where q: "closeLocked (c_queue c) e = (q, as)" by (rule prod.exhaust)
  from closeLocked_owed [OF q] show ?thesis by (auto simp: closeNow_def q owed_def add_ac)
qed

lemma closeNow_queue_inv [simp]: "queue_inv (c_queue c) \<Longrightarrow> queue_inv (c_queue (closeNow e c))"
  using closeLocked_inv by (auto simp: closeNow_def Let_def split: prod.splits) (metis fst_conv)

lemma push_or_close_owed:
  assumes "push_or_close g c = (r, c')"
  shows "owed c' f = owed c f + (if r = None then mset (channels [g]) else {#})"
proof -
  obtain q as where q: "closeLocked (c_queue c) (Sentinel ErrClientQueueFull) = (q, as)" by (rule prod.exhaust)
  have "owed (c\<lparr>c_queue := q, c_answered := c_answered c @ as\<rparr>) f = owed c f"
    using closeLocked_owed [OF q] by (simp add: owed_def add_ac)
  then show ?thesis using assms q
    by (auto simp: push_or_close_def push_def Let_def split: if_splits) (simp add: owed_def add_ac)+
qed

lemma push_or_close_queue_inv:
  "queue_inv (c_queue c) \<Longrightarrow> queue_inv (c_queue (snd (push_or_close g c)))"
  using push_inv [of "c_queue c" g] by (auto simp: push_or_close_def Let_def split: prod.splits option.splits)

lemma send_owed: "owed (snd (send ctxErr tag payload c)) f = owed c f"
proof (cases ctxErr)
  case None
  obtain r c' where "push_or_close \<lparr>of_tag = tag, of_payload = payload, of_result = None\<rparr> c = (r, c')"
    by (rule prod.exhaust)
  with push_or_close_owed [OF this, of f] None show ?thesis by (simp add: send_def)
qed (simp add: send_def)

lemma send_queue_inv: "queue_inv (c_queue c) \<Longrightarrow> queue_inv (c_queue (snd (send ctxErr tag payload c)))"
  using push_or_close_queue_inv by (auto simp: send_def split: option.splits)

lemma finishClose_owed [simp]: "owed (snd (finishClose out c)) f = owed c f"
  by (auto simp: finishClose_def split: outcome.splits option.splits)

lemma finishClose_queue_inv [simp]: "queue_inv (c_queue c) \<Longrightarrow> queue_inv (c_queue (snd (finishClose out c)))"
  by (auto simp: finishClose_def split: outcome.splits option.splits)

lemma writeFrame_owed:
  assumes "writeFrame written f c = (continue, c')"
  shows "owed c' None = owed c (Some f) \<and> (queue_inv (c_queue c) \<longrightarrow> queue_inv (c_queue c'))"
proof -
  obtain s' r where s: "Seal (c_sealer c) (of_tag f) (of_payload f) = (s', r)" by (rule prod.exhaust)
  have "owed (c\<lparr>c_sealer := s', c_answered := c_answered c @ answers_of [f] err\<rparr>) None = owed c (Some f)" for err
    by (simp add: owed_def add_ac del: channels_simps(2))
  then show ?thesis using assms
    by (auto simp: writeFrame_def s Let_def split: option.splits)
qed

lemma pop_owed:
  assumes "pop (c_queue c) = (PopFrame g, q)"
  shows "owed (c\<lparr>c_queue := q\<rparr>) (Some g) = owed c None"
  using assms by (auto simp: pop_def owed_def add_ac split: if_splits list.splits)

interpretation client: invariant_system client_init client_step client_inv
proof unfold_locales
  show "client_inv y" if "client_init y" for y
    using that by (auto simp: client_init_def client_inv_def owed_def newClient_def newOutboundQueue_def queue_inv_def)
  show "client_inv y'" if i: "client_inv y" and st: "client_step y y'" for y y'
    using st
  proof cases
    case (step_close_start tag payload r c)
    let ?g = "\<lparr>of_tag = tag, of_payload = payload, of_result = Some (y_next y)\<rparr>"
    have q: "queue_inv (c_queue c)"
      using push_or_close_queue_inv [of "y_client y" ?g] step_close_start(2) i by (simp add: client_inv_def)
    have o: "owed c (y_inflight y) = mset (y_accepted y) + (if r = None then {#y_next y#} else {#})"
      using push_or_close_owed [OF step_close_start(2), of "y_inflight y"] i by (auto simp: client_inv_def)
    have "y_next y \<notin> set (y_accepted y)" using i by (auto simp: client_inv_def)
    then show ?thesis using i q o step_close_start(1) by (auto simp: client_inv_def less_Suc_eq)
  next
    case (step_pop f q)
    have "queue_inv q" using pop_inv [of "c_queue (y_client y)"] step_pop(4) i by (simp add: client_inv_def)
    then show ?thesis using i step_pop pop_owed [OF step_pop(4)] by (simp add: client_inv_def)
  next
    case (step_write f written continue c)
    then show ?thesis using i writeFrame_owed [OF step_write(3)] by (simp add: client_inv_def owed_def)
  qed (use i in \<open>auto simp: client_inv_def send_owed send_queue_inv owed_def [of "_\<lparr>c_writerDone := _\<rparr>"]
        owed_def [of "_\<lparr>c_viewerOpen := _\<rparr>"] owed_def [of "_\<lparr>c_opener := _\<rparr>"] owed_def [of "y_client _"]\<close>)
qed

text \<open>C6: Whatever the senders, the writer, the waiting callers and the closers of a client do and in
  whatever order: no result channel is sent to twice (which would panic, the channel being closed
  after the first value), only accepted close frames get a result, and once the queue is closed and
  the writer has no frame in hand every accepted close frame has got its result, so no caller is
  left to its timeout by a lost frame.\<close>

theorem close_results_exactly_once:
  assumes "reachable client_init client_step y"
  shows "distinct (map fst (c_answered (y_client y))) \<and> set (map fst (c_answered (y_client y))) \<subseteq> set (y_accepted y)
    \<and> set (y_waiting y) \<subseteq> set (y_accepted y)
    \<and> (oq_closed (c_queue (y_client y)) \<and> y_inflight y = None \<longrightarrow>
         set (map fst (c_answered (y_client y))) = set (y_accepted y))"
proof -
  let ?a = "map fst (c_answered (y_client y))"
  have i: "client_inv y" using assms by (rule client.reachable_inv)
  then obtain rest where m: "mset ?a + rest = mset (y_accepted y)"
    and rest: "oq_closed (c_queue (y_client y)) \<and> y_inflight y = None \<longrightarrow> rest = {#}"
    by (auto simp: client_inv_def owed_def queue_inv_def add.assoc)
  have "set ?a \<subseteq> set (y_accepted y)" using m by (metis mset_subset_eq_add_left set_mset_mono set_mset_mset)
  moreover have "distinct ?a"
    using i m by (metis client_inv_def distinct_append mset_append ex_mset mset_eq_imp_distinct_iff)
  moreover have "rest = {#} \<Longrightarrow> set ?a = set (y_accepted y)" using m by (metis add.right_neutral set_mset_mset)
  ultimately show ?thesis using i rest by (auto simp: client_inv_def)
qed


theorem close_results_exactly_once_witness:
  "\<exists>y. reachable client_init client_step y \<and> y_accepted y = [0] \<and> set (map fst (c_answered (y_client y))) = {0}"
proof -
  define y0 where "y0 = \<lparr>y_client = demo_client, y_inflight = None, y_accepted = [], y_waiting = [], y_next = 0\<rparr>"
  define g where "g = \<lparr>of_tag = TagClose, of_payload = [], of_result = Some (y_next y0)\<rparr>"
  define c1 where "c1 = snd (push_or_close g (y_client y0))"
  define y1 where "y1 = y0\<lparr>y_client := c1, y_next := Suc (y_next y0),
    y_accepted := y_accepted y0 @ (if (None :: gerror option) = None then [y_next y0] else []),
    y_waiting := y_waiting y0 @ (if (None :: gerror option) = None then [y_next y0] else [])\<rparr>"
  define y2 where "y2 = y1\<lparr>y_client := closeNow (Msg ''bye'') (y_client y1)\<rparr>"
  have p: "push_or_close g (y_client y0) = (None, c1)"
    by (simp add: c1_def push_or_close_def push_def g_def y0_def demo_client_def newClient_def newOutboundQueue_def
        frame_size_def MaxClientQueueBytes_def)
  have "client_init y0" by (auto simp: client_init_def y0_def demo_client_def)
  moreover have "client_step y0 y1"
    unfolding y1_def by (rule step_close_start [OF p [unfolded g_def]])
  moreover have "client_step y1 y2" unfolding y2_def by (rule step_close_now)
  ultimately have r: "reachable client_init client_step y2" by (meson reachable.intros)
  have y2: "oq_closed (c_queue (y_client y2)) \<and> y_inflight y2 = None \<and> y_accepted y2 = [0]"
    by (simp add: y2_def y1_def y0_def c1_def push_or_close_def push_def g_def demo_client_def newClient_def newOutboundQueue_def
        frame_size_def MaxClientQueueBytes_def closeNow_def closeLocked_def)
  then have "set (map fst (c_answered (y_client y2))) = set (y_accepted y2)"
    using close_results_exactly_once [OF r] by blast
  then have "set (map fst (c_answered (y_client y2))) = {0}" using y2 by (simp del: set_map)
  with r y2 show ?thesis by blast
qed

end
