(* ===== verification/Mirror_Server.thy ===== *)
theory Mirror_Server
  imports Mirror_HTTP Mirror_Session
begin

text \<open>
  The local mirror server, \<open>internal/mirror/server.go\<close>: its shared state and the atomic pieces of
  \<open>handleWebSocket\<close> and \<open>SetSecret\<close> (critical sections and channel operations), put together to a
  step relation over any number of concurrent handlers and rotations; and the life of one admitted
  client. The semaphore channels \<open>handshakes\<close> and \<open>clients\<close> are the numbers of their elements. A
  client is named by the number of the handler that serves it.
\<close>

section \<open>State and operations\<close>

record LocalServer =
  ls_secret :: Secret
  ls_secretVersion :: "64 word"
  ls_publicHost :: string
  ls_handshakes :: nat
  ls_clients :: nat
  ls_connections :: "nat \<Rightarrow> 64 word option"
  ls_diagnostics :: remoteDiagnostics

definition StartLocalServer :: "Secret \<Rightarrow> string \<Rightarrow> bool \<Rightarrow> LocalServer" where
  "StartLocalServer secret publicHost recording =
     \<lparr>ls_secret = secret, ls_secretVersion = 1, ls_publicHost = publicHost, ls_handshakes = 0, ls_clients = 0,
      ls_connections = (\<lambda>_. None),
      ls_diagnostics = \<lparr>rd_record = recording, rd_queue = [], rd_last = (\<lambda>_. None), rd_stopped = False\<rparr>\<rparr>"

definition SetPublicHost :: "string \<Rightarrow> LocalServer \<Rightarrow> LocalServer" where
  "SetPublicHost host s = s\<lparr>ls_publicHost := host\<rparr>"

definition rejected :: "int \<Rightarrow> string \<Rightarrow> LocalServer \<Rightarrow> LocalServer" where
  "rejected now cd s = s\<lparr>ls_diagnostics := recordHandshakeRejection now cd (ls_diagnostics s)\<rparr>"

text \<open>Where a handler is between two atomic pieces of \<open>handleWebSocket\<close>.\<close>

datatype phase =
    Entered
  | Holding
  | Captured string Secret "64 word"
  | Accepted Secret "64 word"
  | Authenticated Secret "64 word"
  | Admitted Secret "64 word"
  | Registered Secret "64 word"
  | Leaving
  | Finished

definition acquireHandshake :: "int \<Rightarrow> LocalServer \<Rightarrow> phase \<times> LocalServer" where
  "acquireHandshake now s =
     (if ls_handshakes s < MaxHandshakes then (Holding, s\<lparr>ls_handshakes := ls_handshakes s + 1\<rparr>)
      else (Finished, rejected now ''server_busy'' s))"

definition releaseHandshake :: "LocalServer \<Rightarrow> LocalServer" where
  "releaseHandshake s = s\<lparr>ls_handshakes := ls_handshakes s - 1\<rparr>"

definition captureCredential :: "LocalServer \<Rightarrow> phase" where
  "captureCredential s = Captured (ls_publicHost s) (ls_secret s) (ls_secretVersion s)"

text \<open>The checks before the upgrade, and the upgrade; \<open>upgraded\<close> says whether \<open>websocket.Accept\<close> succeeds.\<close>

definition checkRequest ::
    "int \<Rightarrow> string list \<Rightarrow> bool \<Rightarrow> string \<Rightarrow> Secret \<Rightarrow> 64 word \<Rightarrow> LocalServer \<Rightarrow> phase \<times> LocalServer" where
  "checkRequest now origins upgraded publicHost secret version s =
     (if publicHost = [] then (Finished, releaseHandshake (rejected now ''server_starting'' s))
      else if length origins \<noteq> 1 \<or> origins ! 0 \<noteq> ''https://'' @ publicHost
      then (Finished, releaseHandshake (rejected now ''origin_rejected'' s))
      else if \<not> upgraded then (Finished, releaseHandshake (rejected now ''upgrade_failed'' s))
      else (Accepted secret version, s))"

text \<open>The result of \<open>authenticateClient\<close>; the slot is given back either way.\<close>

definition finishHandshake :: "int \<Rightarrow> bool \<Rightarrow> Secret \<Rightarrow> 64 word \<Rightarrow> LocalServer \<Rightarrow> phase \<times> LocalServer" where
  "finishHandshake now authenticated secret version s =
     (if authenticated then (Authenticated secret version, releaseHandshake s)
      else (Finished, rejected now ''authentication_failed'' (releaseHandshake s)))"

definition admitClient :: "int \<Rightarrow> Secret \<Rightarrow> 64 word \<Rightarrow> LocalServer \<Rightarrow> phase \<times> LocalServer" where
  "admitClient now secret version s =
     (if ls_clients s < MaxClients then (Admitted secret version, s\<lparr>ls_clients := ls_clients s + 1\<rparr>)
      else (Finished, rejected now ''client_capacity'' s))"

definition registerClient :: "int \<Rightarrow> nat \<Rightarrow> Secret \<Rightarrow> 64 word \<Rightarrow> LocalServer \<Rightarrow> phase \<times> LocalServer" where
  "registerClient now client secret version s =
     (if version \<noteq> ls_secretVersion s
      then (Leaving, rejected now ''credential_expired'' s)
      else (Registered secret version, s\<lparr>ls_connections := (ls_connections s)(client := Some version)\<rparr>))"

definition unregisterClient :: "nat \<Rightarrow> LocalServer \<Rightarrow> LocalServer" where
  "unregisterClient client s = s\<lparr>ls_connections := (ls_connections s)(client := None)\<rparr>"

definition releaseClient :: "LocalServer \<Rightarrow> LocalServer" where
  "releaseClient s = s\<lparr>ls_clients := ls_clients s - 1\<rparr>"

text \<open>The part of \<open>SetSecret\<close> under the lock; the clients it has to close afterwards are those registered.\<close>

definition SetSecret :: "Secret \<Rightarrow> LocalServer \<Rightarrow> LocalServer" where
  "SetSecret secret s = s\<lparr>ls_secret := secret, ls_secretVersion := ls_secretVersion s + 1\<rparr>"

section \<open>Concurrent handlers\<close>

text \<open>
  \<open>sv_pending\<close>: the clients that running \<open>SetSecret\<close> calls have yet to close; \<open>sv_closed\<close>: those that
  were closed; \<open>sv_secrets\<close>: all secrets the server has had, the first one first.
\<close>

record serverSystem =
  sv_server :: LocalServer
  sv_phase :: "nat \<Rightarrow> phase"
  sv_next :: nat
  sv_pending :: "nat set"
  sv_closed :: "nat set"
  sv_secrets :: "Secret list"

definition move :: "nat \<Rightarrow> phase \<times> LocalServer \<Rightarrow> serverSystem \<Rightarrow> serverSystem" where
  "move i ps y = y\<lparr>sv_server := snd ps, sv_phase := (sv_phase y)(i := fst ps)\<rparr>"

inductive handler_step :: "serverSystem \<Rightarrow> serverSystem \<Rightarrow> bool" where
  sv_request: "handler_step y (y\<lparr>sv_phase := (sv_phase y)(sv_next y := Entered), sv_next := Suc (sv_next y)\<rparr>)"
| sv_acquire: "sv_phase y i = Entered \<Longrightarrow> handler_step y (move i (acquireHandshake now (sv_server y)) y)"
| sv_capture: "sv_phase y i = Holding \<Longrightarrow>
     handler_step y (move i (captureCredential (sv_server y), sv_server y) y)"
| sv_check: "sv_phase y i = Captured host secret version \<Longrightarrow>
     handler_step y (move i (checkRequest now origins upgraded host secret version (sv_server y)) y)"
| sv_handshake: "sv_phase y i = Accepted secret version \<Longrightarrow>
     handler_step y (move i (finishHandshake now authenticated secret version (sv_server y)) y)"
| sv_admit: "sv_phase y i = Authenticated secret version \<Longrightarrow>
     handler_step y (move i (admitClient now secret version (sv_server y)) y)"
| sv_register: "sv_phase y i = Admitted secret version \<Longrightarrow>
     handler_step y (move i (registerClient now i secret version (sv_server y)) y)"
| sv_unregister: "sv_phase y i = Registered secret version \<Longrightarrow>
     handler_step y (move i (Leaving, unregisterClient i (sv_server y)) y)"
| sv_leave: "sv_phase y i = Leaving \<Longrightarrow> handler_step y (move i (Finished, releaseClient (sv_server y)) y)"
| sv_rotate: "handler_step y (y\<lparr>sv_server := SetSecret secret (sv_server y),
     sv_pending := sv_pending y \<union> dom (ls_connections (sv_server y)), sv_secrets := sv_secrets y @ [secret]\<rparr>)"
| sv_close: "i \<in> sv_pending y \<Longrightarrow> handler_step y (y\<lparr>sv_closed := insert i (sv_closed y), sv_pending := sv_pending y - {i}\<rparr>)"
| sv_host: "handler_step y (y\<lparr>sv_server := SetPublicHost host (sv_server y)\<rparr>)"
| sv_asset: "handler_step y (y\<lparr>sv_server := (sv_server y)
     \<lparr>ls_diagnostics := recordMissingAsset now name (ls_diagnostics (sv_server y))\<rparr>\<rparr>)"

text \<open>The other goroutine that touches this state is \<open>runRemoteDiagnostics\<close>, which empties the queue; \<open>Close\<close> stops it.\<close>

inductive server_step :: "serverSystem \<Rightarrow> serverSystem \<Rightarrow> bool" where
  sv_handler: "handler_step y y' \<Longrightarrow> server_step y y'"
| sv_emit: "server_step y (y\<lparr>sv_server := (sv_server y)
     \<lparr>ls_diagnostics := snd (emitNext (ls_diagnostics (sv_server y)))\<rparr>\<rparr>)"
| sv_stop: "server_step y (y\<lparr>sv_server := (sv_server y)
     \<lparr>ls_diagnostics := stopRemoteDiagnostics (ls_diagnostics (sv_server y))\<rparr>\<rparr>)"

definition server_init :: "serverSystem \<Rightarrow> bool" where
  "server_init y \<longleftrightarrow> (\<exists>secret host recording. sv_server y = StartLocalServer secret host recording \<and> sv_secrets y = [secret])
     \<and> (\<forall>i. sv_phase y i = Finished) \<and> sv_pending y = {} \<and> sv_closed y = {}"

fun holds_handshake :: "phase \<Rightarrow> bool" where
  "holds_handshake Holding = True"
| "holds_handshake (Captured _ _ _) = True"
| "holds_handshake (Accepted _ _) = True"
| "holds_handshake _ = False"

fun holds_client :: "phase \<Rightarrow> bool" where
  "holds_client (Admitted _ _) = True"
| "holds_client (Registered _ _) = True"
| "holds_client Leaving = True"
| "holds_client _ = False"

fun credential :: "phase \<Rightarrow> (Secret \<times> 64 word) option" where
  "credential (Captured _ secret version) = Some (secret, version)"
| "credential (Accepted secret version) = Some (secret, version)"
| "credential (Authenticated secret version) = Some (secret, version)"
| "credential (Admitted secret version) = Some (secret, version)"
| "credential (Registered secret version) = Some (secret, version)"
| "credential _ = None"

definition registered :: "phase \<Rightarrow> 64 word option" where
  "registered p = (case p of Registered secret version \<Rightarrow> Some version | _ \<Rightarrow> None)"

definition server_inv :: "serverSystem \<Rightarrow> bool" where
  "server_inv y \<longleftrightarrow>
     (let s = sv_server y; ph = sv_phase y in
      finite {i. ph i \<noteq> Finished} \<and> (\<forall>i. sv_next y \<le> i \<longrightarrow> ph i = Finished)
      \<and> ls_handshakes s = card {i. holds_handshake (ph i)} \<and> ls_handshakes s \<le> MaxHandshakes
      \<and> ls_clients s = card {i. holds_client (ph i)} \<and> ls_clients s \<le> MaxClients
      \<and> (\<forall>i. ls_connections s i = registered (ph i))
      \<and> sv_secrets y \<noteq> [] \<and> last (sv_secrets y) = ls_secret s \<and> ls_secretVersion s = of_nat (length (sv_secrets y))
      \<and> (\<forall>i secret version. credential (ph i) = Some (secret, version) \<longrightarrow>
           (\<exists>k < length (sv_secrets y). sv_secrets y ! k = secret \<and> version = of_nat (Suc k)))
      \<and> (\<forall>i version. registered (ph i) = Some version \<longrightarrow>
           version = ls_secretVersion s \<or> i \<in> sv_pending y \<or> i \<in> sv_closed y))"


section \<open>The invariant\<close>

definition known :: "serverSystem \<Rightarrow> phase \<Rightarrow> bool" where
  "known y p \<longleftrightarrow> (\<forall>secret version. credential p = Some (secret, version) \<longrightarrow>
     (\<exists>k < length (sv_secrets y). sv_secrets y ! k = secret \<and> version = of_nat (Suc k)))"

lemma card_update:
  assumes "finite {j. H (f j)}"
  shows "card {j. H ((f(i := p)) j)} + of_bool (H (f i)) = card {j. H (f j)} + of_bool (H p)"
proof -
  define A where "A = {j. H (f j)}"
  have e: "{j. H ((f(i := p)) j)} = (if H p then insert i (A - {i}) else A - {i})" unfolding A_def by auto
  have A: "finite A" "H (f i) \<longleftrightarrow> i \<in> A" using assms by (simp_all add: A_def)
  have "card (insert i (A - {i})) = Suc (card (A - {i}))"
    using A(1) by (intro card_insert_disjoint) auto
  moreover have "i \<in> A \<Longrightarrow> card A = Suc (card (A - {i}))" using A(1) by (rule card.remove)
  moreover have "i \<notin> A \<Longrightarrow> A - {i} = A" by simp
  ultimately show ?thesis unfolding e A_def [symmetric] A(2) by auto
qed

text \<open>One handler moves on: what the piece of code has to keep of the counts and the tables.\<close>

lemma move_inv:
  assumes y: "server_inv y" and live: "sv_phase y i \<noteq> Finished"
    and h: "ls_handshakes s' + of_bool (holds_handshake (sv_phase y i)) =
        ls_handshakes (sv_server y) + of_bool (holds_handshake p')" "ls_handshakes s' \<le> MaxHandshakes"
    and c: "ls_clients s' + of_bool (holds_client (sv_phase y i)) =
        ls_clients (sv_server y) + of_bool (holds_client p')" "ls_clients s' \<le> MaxClients"
    and n: "ls_connections s' = (ls_connections (sv_server y))(i := registered p')"
    and k: "ls_secret s' = ls_secret (sv_server y)" "ls_secretVersion s' = ls_secretVersion (sv_server y)" "known y p'"
    and r: "\<And>v. registered p' = Some v \<Longrightarrow> v = ls_secretVersion (sv_server y)"
  shows "server_inv (move i (p', s') y)"
proof -
  let ?ph = "sv_phase y"
  have fin: "finite {j. ?ph j \<noteq> Finished}" and nx: "\<forall>j. sv_next y \<le> j \<longrightarrow> ?ph j = Finished"
    using y by (auto simp: server_inv_def Let_def)
  have "{j. holds_handshake (?ph j)} \<subseteq> {j. ?ph j \<noteq> Finished}" "{j. holds_client (?ph j)} \<subseteq> {j. ?ph j \<noteq> Finished}" by auto
  then have f: "finite {j. holds_handshake (?ph j)}" "finite {j. holds_client (?ph j)}"
    using fin finite_subset by blast+
  have "{j. (?ph(i := p')) j \<noteq> Finished} \<subseteq> insert i {j. ?ph j \<noteq> Finished}" by auto
  then have fin': "finite {j. (?ph(i := p')) j \<noteq> Finished}" using fin finite_subset by blast
  have nx': "\<forall>j. sv_next y \<le> j \<longrightarrow> (?ph(i := p')) j = Finished" using nx live by auto
  have h': "ls_handshakes s' = card {j. holds_handshake ((?ph(i := p')) j)}"
    using card_update [of holds_handshake ?ph, OF f(1), of i p'] h(1) y by (simp add: server_inv_def Let_def)
  have c': "ls_clients s' = card {j. holds_client ((?ph(i := p')) j)}"
    using card_update [of holds_client ?ph, OF f(2), of i p'] c(1) y by (simp add: server_inv_def Let_def)
  show ?thesis
    using y fin' nx' h' h(2) c' c(2) n k r
    unfolding server_inv_def Let_def move_def known_def by (auto split: if_splits)
qed

lemmas move_inv_pair = move_inv [where p' = "fst ps" and s' = "snd ps" for ps, unfolded prod.collapse]

lemma server_bounds:
  "server_inv y \<Longrightarrow> holds_handshake (sv_phase y i) \<Longrightarrow> 0 < ls_handshakes (sv_server y)"
  "server_inv y \<Longrightarrow> holds_client (sv_phase y i) \<Longrightarrow> 0 < ls_clients (sv_server y)"
proof -
  assume y: "server_inv y"
  then have fin: "finite {j. sv_phase y j \<noteq> Finished}" by (simp add: server_inv_def Let_def)
  have sub: "{j. holds_handshake (sv_phase y j)} \<subseteq> {j. sv_phase y j \<noteq> Finished}"
    "{j. holds_client (sv_phase y j)} \<subseteq> {j. sv_phase y j \<noteq> Finished}" by auto
  show "0 < ls_handshakes (sv_server y)" if "holds_handshake (sv_phase y i)"
    using y that finite_subset [OF sub(1) fin] by (auto simp: server_inv_def Let_def card_gt_0_iff)
  show "0 < ls_clients (sv_server y)" if "holds_client (sv_phase y i)"
    using y that finite_subset [OF sub(2) fin] by (auto simp: server_inv_def Let_def card_gt_0_iff)
qed

lemma server_known: "server_inv y \<Longrightarrow> credential p = credential (sv_phase y i) \<Longrightarrow> known y p"
  unfolding server_inv_def Let_def known_def by metis

lemma known_None [simp]: "credential p = None \<Longrightarrow> known y p"
  by (simp add: known_def)

lemma server_limits:
  "server_inv y \<Longrightarrow> ls_handshakes (sv_server y) \<le> MaxHandshakes \<and> ls_clients (sv_server y) \<le> MaxClients
     \<and> ls_connections (sv_server y) i = registered (sv_phase y i)"
  by (simp add: server_inv_def Let_def)

lemma known_current:
  assumes "server_inv y"
  shows "known y (Captured host (ls_secret (sv_server y)) (ls_secretVersion (sv_server y)))"
proof -
  have "sv_secrets y \<noteq> [] \<and> last (sv_secrets y) = ls_secret (sv_server y)
      \<and> ls_secretVersion (sv_server y) = of_nat (length (sv_secrets y))"
    using assms by (simp add: server_inv_def Let_def)
  then obtain k where "length (sv_secrets y) = Suc k" "sv_secrets y ! k = ls_secret (sv_server y)"
      "ls_secretVersion (sv_server y) = of_nat (Suc k)"
    by (cases "length (sv_secrets y)") (auto simp: last_conv_nth)
  then show ?thesis by (auto simp: known_def)
qed

lemma rejected_fields [simp]:
  "ls_handshakes (rejected now cd s) = ls_handshakes s" "ls_clients (rejected now cd s) = ls_clients s"
  "ls_connections (rejected now cd s) = ls_connections s" "ls_secret (rejected now cd s) = ls_secret s"
  "ls_secretVersion (rejected now cd s) = ls_secretVersion s"
  by (simp_all add: rejected_def)

lemma rotate_inv:
  assumes "server_inv y"
  shows "server_inv (y\<lparr>sv_server := SetSecret secret (sv_server y),
     sv_pending := sv_pending y \<union> dom (ls_connections (sv_server y)), sv_secrets := sv_secrets y @ [secret]\<rparr>)"
proof -
  have d: "i \<in> dom (ls_connections (sv_server y))" if "registered (sv_phase y i) = Some v" for i v
    using server_limits [OF assms, of i] that by auto
  have k: "\<exists>k < Suc (length (sv_secrets y)). (sv_secrets y @ [secret]) ! k = sec \<and> v = 1 + of_nat k"
    if "credential (sv_phase y i) = Some (sec, v)" for i sec v
    using assms that unfolding server_inv_def Let_def by (auto simp: nth_append) (metis less_SucI of_nat_Suc)
  show ?thesis
    using assms d k unfolding server_inv_def Let_def SetSecret_def
    by (auto simp: nth_append) 
qed

lemma fresh_inv:
  assumes "server_inv y"
  shows "server_inv (y\<lparr>sv_phase := (sv_phase y)(sv_next y := Entered), sv_next := Suc (sv_next y)\<rparr>)"
proof -
  let ?ph = "sv_phase y"
  have nx: "?ph (sv_next y) = Finished" and fin: "finite {j. ?ph j \<noteq> Finished}"
    using assms by (auto simp: server_inv_def Let_def)
  have "{j. (?ph(sv_next y := Entered)) j \<noteq> Finished} = insert (sv_next y) {j. ?ph j \<noteq> Finished}" by auto
  then have fin': "finite {j. (?ph(sv_next y := Entered)) j \<noteq> Finished}" using fin by simp
  have "{j. holds_handshake ((?ph(sv_next y := Entered)) j)} = {j. holds_handshake (?ph j)}"
    "{j. holds_client ((?ph(sv_next y := Entered)) j)} = {j. holds_client (?ph j)}"
    using nx by auto
  then show ?thesis using assms fin' nx
    unfolding server_inv_def Let_def by (auto simp: registered_def split: if_splits)
qed


lemmas piece_defs = acquireHandshake_def releaseHandshake_def captureCredential_def checkRequest_def
  finishHandshake_def admitClient_def registerClient_def unregisterClient_def releaseClient_def registered_def

lemma sv_acquire_inv:
  assumes y: "server_inv y" and sv_acquire: "y' = move i (acquireHandshake now (sv_server y)) y"
      "sv_phase y i = Entered"
  shows "server_inv y'"
proof -
  show ?thesis unfolding sv_acquire(1)
    by (rule move_inv_pair [OF y]) (use sv_acquire(2) server_limits [OF y, of i] in \<open>auto simp: piece_defs split: if_splits\<close>)
qed

lemma sv_capture_inv:
  assumes y: "server_inv y" and sv_capture: "y' = move i (captureCredential (sv_server y), sv_server y) y"
      "sv_phase y i = Holding"
  shows "server_inv y'"
proof -
  show ?thesis unfolding sv_capture(1)
    by (rule move_inv [OF y])
       (use sv_capture(2) server_limits [OF y, of i] known_current [OF y] in \<open>auto simp: piece_defs split: if_splits\<close>)
qed

lemma sv_check_inv:
  assumes y: "server_inv y" and sv_check: "y' = move i (checkRequest now origins upgraded host secret version (sv_server y)) y"
      "sv_phase y i = Captured host secret version"
  shows "server_inv y'"
proof -
  have "known y (Accepted secret version)" using server_known [OF y, of _ i] sv_check(2) by simp
  then show ?thesis
    unfolding sv_check(1)
    by (intro move_inv_pair [OF y])
       (use sv_check(2) server_limits [OF y, of i] server_bounds(1) [OF y, of i] in \<open>auto simp: piece_defs split: if_splits\<close>)
qed

lemma sv_handshake_inv:
  assumes y: "server_inv y" and sv_handshake: "y' = move i (finishHandshake now authenticated secret version (sv_server y)) y"
      "sv_phase y i = Accepted secret version"
  shows "server_inv y'"
proof -
  have "known y (Authenticated secret version)" using server_known [OF y, of _ i] sv_handshake(2) by simp
  then show ?thesis
    unfolding sv_handshake(1)
    by (intro move_inv_pair [OF y])
       (use sv_handshake(2) server_limits [OF y, of i] server_bounds(1) [OF y, of i] in \<open>auto simp: piece_defs split: if_splits\<close>)
qed

lemma sv_admit_inv:
  assumes y: "server_inv y" and sv_admit: "y' = move i (admitClient now secret version (sv_server y)) y"
      "sv_phase y i = Authenticated secret version"
  shows "server_inv y'"
proof -
  have "known y (Admitted secret version)" using server_known [OF y, of _ i] sv_admit(2) by simp
  then show ?thesis
    unfolding sv_admit(1)
    by (intro move_inv_pair [OF y])
       (use sv_admit(2) server_limits [OF y, of i] in \<open>auto simp: piece_defs split: if_splits\<close>)
qed

lemma sv_register_inv:
  assumes y: "server_inv y" and sv_register: "y' = move i (registerClient now i secret version (sv_server y)) y"
      "sv_phase y i = Admitted secret version"
  shows "server_inv y'"
proof -
  have "known y (Registered secret version)" using server_known [OF y, of _ i] sv_register(2) by simp
  then show ?thesis
    unfolding sv_register(1)
    by (intro move_inv_pair [OF y])
       (use sv_register(2) server_limits [OF y, of i] in \<open>auto simp: piece_defs split: if_splits\<close>)
qed

lemma sv_unregister_inv:
  assumes y: "server_inv y" and sv_unregister: "y' = move i (Leaving, unregisterClient i (sv_server y)) y"
      "sv_phase y i = Registered secret version"
  shows "server_inv y'"
proof -
  show ?thesis unfolding sv_unregister(1)
    by (rule move_inv [OF y]) (use sv_unregister(2) server_limits [OF y, of i] in \<open>auto simp: piece_defs split: if_splits\<close>)
qed

lemma sv_leave_inv:
  assumes y: "server_inv y" and sv_leave: "y' = move i (Finished, releaseClient (sv_server y)) y"
      "sv_phase y i = Leaving"
  shows "server_inv y'"
proof -
  show ?thesis unfolding sv_leave(1)
    by (rule move_inv [OF y])
       (use sv_leave(2) server_limits [OF y, of i] server_bounds(2) [OF y, of i] in \<open>auto simp: piece_defs split: if_splits\<close>)
qed

lemma handler_step_inv:
  assumes y: "server_inv y" and st: "handler_step y y'"
  shows "server_inv y'"
  using st
proof cases
  case sv_request
  then show ?thesis using fresh_inv [OF y] by simp
next
  case (sv_acquire i now)
  then show ?thesis by (rule sv_acquire_inv [OF y])
next
  case (sv_capture i)
  then show ?thesis by (rule sv_capture_inv [OF y])
next
  case (sv_check i host secret version now origins upgraded)
  then show ?thesis by (rule sv_check_inv [OF y])
next
  case (sv_handshake i secret version now authenticated)
  then show ?thesis by (rule sv_handshake_inv [OF y])
next
  case (sv_admit i secret version now)
  then show ?thesis by (rule sv_admit_inv [OF y])
next
  case (sv_register i secret version now)
  then show ?thesis by (rule sv_register_inv [OF y])
next
  case (sv_unregister i secret version)
  then show ?thesis by (rule sv_unregister_inv [OF y])
next
  case (sv_leave i)
  then show ?thesis by (rule sv_leave_inv [OF y])
next
  case (sv_rotate secret)
  then show ?thesis using rotate_inv [OF y] by simp
next
  case (sv_close i)
  then show ?thesis using y unfolding server_inv_def Let_def by auto
next
  case (sv_host host)
  then show ?thesis using y unfolding server_inv_def Let_def SetPublicHost_def by auto
next
  case (sv_asset now name)
  then show ?thesis using y unfolding server_inv_def Let_def by auto
qed

lemma diagnostics_inv: "server_inv (y\<lparr>sv_server := (sv_server y)\<lparr>ls_diagnostics := d\<rparr>\<rparr>) = server_inv y"
  by (simp add: server_inv_def Let_def)

lemma server_step_inv: "server_inv y \<Longrightarrow> server_step y y' \<Longrightarrow> server_inv y'"
  by (erule server_step.cases) (blast intro: handler_step_inv, simp_all add: diagnostics_inv)

interpretation server: invariant_system server_init server_step server_inv
proof unfold_locales
  show "server_inv y" if "server_init y" for y
    using that unfolding server_inv_def Let_def server_init_def
    by (auto simp: StartLocalServer_def registered_def)
qed (rule server_step_inv)

section \<open>Slots and rotation\<close>

text \<open>C10: At any moment at most sixteen handshakes are under way and at most eight clients are admitted;
  the two semaphores count exactly the handlers that hold a slot, so that no rejection, failed
  handshake or disconnect loses a slot, and the registered clients are exactly the handlers that
  serve one.\<close>

theorem server_slots_bounded:
  assumes "reachable server_init server_step y"
  shows "ls_handshakes (sv_server y) = card {i. holds_handshake (sv_phase y i)} \<and> ls_handshakes (sv_server y) \<le> 16
    \<and> ls_clients (sv_server y) = card {i. holds_client (sv_phase y i)} \<and> ls_clients (sv_server y) \<le> 8
    \<and> card (dom (ls_connections (sv_server y))) \<le> 8"
proof -
  have i: "server_inv y" using assms by (rule server.reachable_inv)
  then have c: "ls_handshakes (sv_server y) = card {i. holds_handshake (sv_phase y i)}" "ls_handshakes (sv_server y) \<le> 16"
      "ls_clients (sv_server y) = card {i. holds_client (sv_phase y i)}" "ls_clients (sv_server y) \<le> 8"
    and fin: "finite {i. sv_phase y i \<noteq> Finished}"
    by (simp_all add: server_inv_def Let_def MaxHandshakes_def MaxClients_def)
  have "dom (ls_connections (sv_server y)) \<subseteq> {i. holds_client (sv_phase y i)}"
    using server_limits [OF i] by (auto simp: registered_def split: phase.splits)
  moreover have "finite {i. holds_client (sv_phase y i)}"
    using fin by (rule rev_finite_subset) auto
  ultimately have "card (dom (ls_connections (sv_server y))) \<le> card {i. holds_client (sv_phase y i)}"
    by (intro card_mono)
  with c show ?thesis by linarith
qed

text \<open>C5: Rotating the secret revokes the old one: a registered client that was authenticated under any
  other secret version than the current one has been closed, or a running \<open>SetSecret\<close> call is about
  to close it; in particular no handshake that was under way during the rotation gets through. (The
  version counter has 64 bits: fewer than $2^{64}$ secrets.)\<close>

theorem rotation_revokes:
  assumes "reachable server_init server_step y" and "length (sv_secrets y) < 2 ^ 64"
    and "sv_phase y i = Registered secret version" and "i \<notin> sv_closed y" and "i \<notin> sv_pending y"
  shows "version = ls_secretVersion (sv_server y) \<and> secret = ls_secret (sv_server y)"
proof -
  have inv: "server_inv y" using assms(1) by (rule server.reachable_inv)
  have "registered (sv_phase y i) = Some version" by (simp add: registered_def assms(3))
  then have v: "version = ls_secretVersion (sv_server y)"
    using inv assms(4,5) unfolding server_inv_def Let_def by blast
  have "credential (sv_phase y i) = Some (secret, version)" by (simp add: assms(3))
  then obtain k where k: "k < length (sv_secrets y)" "sv_secrets y ! k = secret" "version = of_nat (Suc k)"
    using inv unfolding server_inv_def Let_def by blast
  have "ls_secretVersion (sv_server y) = of_nat (length (sv_secrets y))" and l: "last (sv_secrets y) = ls_secret (sv_server y)"
      and ne: "sv_secrets y \<noteq> []"
    using inv by (simp_all add: server_inv_def Let_def)
  then have "(of_nat (Suc k) :: 64 word) = of_nat (length (sv_secrets y))" using v k(3) by simp
  moreover have "Suc k < 2 ^ LENGTH(64)" "length (sv_secrets y) < 2 ^ LENGTH(64)" using k(1) assms(2) by auto
  ultimately have "Suc k = length (sv_secrets y)" by (metis of_nat_inverse)
  then have "sv_secrets y ! k = last (sv_secrets y)" using ne by (metis diff_Suc_1 last_conv_nth)
  with v k(2) l show ?thesis by simp
qed


text \<open>One client goes all the way in.\<close>

definition demo_start :: serverSystem where
  "demo_start = \<lparr>sv_server = StartLocalServer demo_secret ''h'' True, sv_phase = (\<lambda>_. Finished), sv_next = 0,
     sv_pending = {}, sv_closed = {}, sv_secrets = [demo_secret]\<rparr>"

definition demo_registered :: serverSystem where
  "demo_registered = \<lparr>sv_server = (StartLocalServer demo_secret ''h'' True)
       \<lparr>ls_clients := 1, ls_connections := (\<lambda>_. None)(0 := Some 1)\<rparr>,
     sv_phase = (\<lambda>_. Finished)(0 := Registered demo_secret 1), sv_next = 1,
     sv_pending = {}, sv_closed = {}, sv_secrets = [demo_secret]\<rparr>"

lemma demo_registered_reachable: "reachable server_init server_step demo_registered"
proof -
  let ?S = "StartLocalServer demo_secret ''h'' True"
  let ?y = "\<lambda>p s. demo_start\<lparr>sv_server := s, sv_phase := (\<lambda>_. Finished)(0 := p), sv_next := 1\<rparr>"
  have "server_init demo_start" by (auto simp: server_init_def demo_start_def)
  then have "reachable server_init server_step demo_start" by (rule reach_init)
  then have "reachable server_init server_step (?y Entered ?S)"
    by (rule reach_step) (use sv_handler [OF sv_request [of demo_start]] in \<open>simp add: demo_start_def\<close>)
  then have "reachable server_init server_step (?y Holding (?S\<lparr>ls_handshakes := 1\<rparr>))"
    by (rule reach_step)
       (use sv_handler [OF sv_acquire [of "?y Entered ?S" 0 0]] in
         \<open>simp add: move_def demo_start_def acquireHandshake_def StartLocalServer_def MaxHandshakes_def\<close>)
  then have "reachable server_init server_step (?y (Captured ''h'' demo_secret 1) (?S\<lparr>ls_handshakes := 1\<rparr>))"
    by (rule reach_step)
       (use sv_handler [OF sv_capture [of "?y Holding (?S\<lparr>ls_handshakes := 1\<rparr>)" 0]] in
         \<open>simp add: move_def demo_start_def captureCredential_def StartLocalServer_def\<close>)
  then have "reachable server_init server_step (?y (Accepted demo_secret 1) (?S\<lparr>ls_handshakes := 1\<rparr>))"
    by (rule reach_step)
       (use sv_handler [OF sv_check [of "?y (Captured ''h'' demo_secret 1) (?S\<lparr>ls_handshakes := 1\<rparr>)" 0 "''h''" demo_secret 1 0
           "[''https://h'']" True]] in \<open>simp add: move_def demo_start_def checkRequest_def\<close>)
  then have "reachable server_init server_step (?y (Authenticated demo_secret 1) ?S)"
    by (rule reach_step)
       (use sv_handler [OF sv_handshake [of "?y (Accepted demo_secret 1) (?S\<lparr>ls_handshakes := 1\<rparr>)" 0 demo_secret 1 0 True]] in
         \<open>simp add: move_def demo_start_def finishHandshake_def releaseHandshake_def StartLocalServer_def\<close>)
  then have "reachable server_init server_step (?y (Admitted demo_secret 1) (?S\<lparr>ls_clients := 1\<rparr>))"
    by (rule reach_step)
       (use sv_handler [OF sv_admit [of "?y (Authenticated demo_secret 1) ?S" 0 demo_secret 1 0]] in
         \<open>simp add: move_def demo_start_def admitClient_def StartLocalServer_def MaxClients_def\<close>)
  then show ?thesis
    by (rule reach_step)
       (use sv_handler [OF sv_register [of "?y (Admitted demo_secret 1) (?S\<lparr>ls_clients := 1\<rparr>)" 0 demo_secret 1 0]] in
         \<open>simp add: move_def demo_start_def registerClient_def StartLocalServer_def demo_registered_def\<close>)
qed

theorem server_slots_bounded_witness: "ls_clients (sv_server demo_registered) = 1 \<and> ls_clients (sv_server demo_registered) \<le> 8"
  using server_slots_bounded [OF demo_registered_reachable] by (simp add: demo_registered_def)

theorem rotation_revokes_witness: "demo_secret = ls_secret (sv_server demo_registered)"
  using rotation_revokes [OF demo_registered_reachable, of 0 demo_secret 1] by (simp add: demo_registered_def)

section \<open>The life of an admitted client\<close>

text \<open>
  The rest of \<open>handleWebSocket\<close> for a registered client: \<open>Connected\<close>, and then either the closing
  error frame or the client's own loop. The context for the error frame is that of \<open>wait\<close>.
\<close>

definition terminal_unavailable :: ProtocolError where
  "terminal_unavailable = \<lparr>perr_Code = ''terminal_unavailable'', perr_Message = ''The host terminal is unavailable.'',
     perr_Retry = False\<rparr>"

definition serveClient ::
    "(frame_value \<Rightarrow> gerror + bytes) \<Rightarrow> waiting \<Rightarrow> gerror option \<Rightarrow> 'h ClientHandler \<Rightarrow> int
     \<Rightarrow> (gerror + messageType \<times> bytes) list \<Rightarrow> Client \<times> 'h \<Rightarrow> LocalServer \<Rightarrow> (Client \<times> 'h) \<times> LocalServer" where
  "serveClient json wait ctxErr hnd now reads s srv =
     (case ch_Connected hnd s of
        (Some e, c, h) \<Rightarrow>
          let c1 = snd (closeWithControl json wait 0 TagError (VProtocolError terminal_unavailable) c);
              (c2, h2) = ch_Disconnected hnd (c1, h)
          in ((closeNow e c2, h2), rejected now ''automatic_target_unavailable'' srv)
      | (None, s') \<Rightarrow> (Client_run wait ctxErr hnd 0 reads s', srv))"

text \<open>A handler that counts its \<open>Disconnected\<close> calls.\<close>

definition counting :: "'h ClientHandler \<Rightarrow> ('h \<times> nat) ClientHandler" where
  "counting hnd =
     \<lparr>ch_Connected = (\<lambda>(c, h, n). case ch_Connected hnd (c, h) of (r, c', h') \<Rightarrow> (r, c', h', n)),
      ch_Close = (\<lambda>(c, h, n). case ch_Close hnd (c, h) of (r, c', h') \<Rightarrow> (r, c', h', n)),
      ch_Input = (\<lambda>p (c, h, n). case ch_Input hnd p (c, h) of (r, c', h') \<Rightarrow> (r, c', h', n)),
      ch_Disconnected = (\<lambda>(c, h, n). case ch_Disconnected hnd (c, h) of (c', h') \<Rightarrow> (c', h', Suc n))\<rparr>"

lemma acknowledge_handler: "snd (snd (acknowledge wait ch ctxErr (c, h))) = h"
  by (auto simp: acknowledge_def split: prod.splits)

lemma acknowledge_counts: "snd (snd (snd (acknowledge wait ch ctxErr s))) = snd (snd s)"
  using acknowledge_handler [of wait ch ctxErr "fst s" "snd s"] by simp

lemma dispatch_counts: "snd (snd (snd (dispatch wait ch ctxErr (counting hnd) tag payload s))) = snd (snd s)"
proof -
  obtain c h n where s: "s = (c, h, n)" by (rule prod_cases3)
  show ?thesis
    by (auto simp: s dispatch_def counting_def acknowledge_counts split: prod.splits option.splits)
qed

lemma readLoop_counts: "snd (snd (readLoop wait ctxErr (counting hnd) ch reads s)) = snd (snd s)"
proof (induction reads arbitrary: ch s)
  case (Cons x reads)
  obtain c h n where s: "s = (c, h, n)" by (rule prod_cases3)
  show ?case
  proof (cases x)
    case (Inr tm)
    obtain t m where tm: "tm = (t, m)" by (rule prod.exhaust)
    obtain o1 r where o: "Open (c_opener c) m = (o1, r)" by (rule prod.exhaust)
    show ?thesis
    proof (cases r)
      case (Inr f)
      obtain tag payload where f: "f = (tag, payload)" by (rule prod.exhaust)
      obtain e s1 where d: "dispatch wait ch ctxErr (counting hnd) tag payload (c\<lparr>c_opener := o1\<rparr>, h, n) = (e, s1)"
        by (rule prod.exhaust)
      then have n1: "snd (snd s1) = n"
        using dispatch_counts [of wait ch ctxErr hnd tag payload "(c\<lparr>c_opener := o1\<rparr>, h, n)"] by simp
      have "snd (snd (readLoop wait ctxErr (counting hnd) (Suc ch) reads s1)) = n" using Cons.IH n1 by simp
      with n1 d show ?thesis
        by (cases e) (auto simp: s tm \<open>x = Inr tm\<close> o Inr f)
    qed (simp add: s tm Inr o)
  qed (simp add: s)
qed simp

text \<open>However a connection ends, because the handler refuses it, because the browser closes it,
  because a message is invalid or forged, or because reading fails, the handler's \<open>Disconnected\<close> is
  called exactly once for it.\<close>

theorem disconnected_once:
  "snd (snd (fst (serveClient json wait ctxErr (counting hnd) now reads (c, h, n) srv))) = Suc n"
proof -
  have conn: "ch_Connected (counting hnd) (c, h, n) = (r, c1, h1, n)"
    if "ch_Connected hnd (c, h) = (r, c1, h1)" for r c1 h1
    using that by (simp add: counting_def)
  have disc: "snd (snd (ch_Disconnected (counting hnd) s)) = Suc (snd (snd s))" for s
    by (auto simp: counting_def split: prod.splits)
  obtain r c1 h1 where r: "ch_Connected hnd (c, h) = (r, c1, h1)" by (rule prod_cases3)
  show ?thesis
  proof (cases r)
    case None
    obtain c2 h2 n2 where l: "readLoop wait ctxErr (counting hnd) 0 reads (c1, h1, n) = (c2, h2, n2)" by (rule prod_cases3)
    then have "n2 = n" using readLoop_counts [of wait ctxErr hnd 0 reads "(c1, h1, n)"] by simp
    then show ?thesis using disc by (simp add: serveClient_def conn [OF r] None Client_run_def l)
  next
    case (Some e)
    obtain c2 h2 n2 where d: "ch_Disconnected (counting hnd)
        (snd (closeWithControl json wait 0 TagError (VProtocolError terminal_unavailable) c1), h1, n) = (c2, h2, n2)"
      by (rule prod_cases3)
    then have "n2 = Suc n" using disc by (metis snd_conv)
    then show ?thesis by (simp add: serveClient_def conn [OF r] Some Let_def d)
  qed
qed

end
