(* ===== verification/Mirror_Tunnel.thy ===== *)
theory Mirror_Tunnel
  imports Mirror_Pairing Mirror_Diagnostics Bounded_Tail
begin

text \<open>
  The quick tunnel, \<open>internal/mirror/tunnel.go\<close>: the version of \<open>cloudflared\<close>, the public URL in its
  output, the checks of the local origin, starting and stopping the process. Running processes, the
  parser of URLs and of IP addresses are parameters.
\<close>

section \<open>Versions\<close>

definition word_char :: "char \<Rightarrow> bool" where
  "word_char c \<longleftrightarrow> is_digit c \<or> in_range 65 90 c \<or> in_range 97 122 c \<or> c = CHR ''_''"

text \<open>
  A match of the version pattern at the start of a string, when a word may begin there: four digits,
  a dot, digits, a dot, digits, and the end of the word.
\<close>

definition version_here :: "string \<Rightarrow> (string \<times> string \<times> string) option" where
  "version_here s =
     (let a = takeWhile is_digit s; r = drop (length a) s in
      if length a \<noteq> 4 \<or> \<not> HasPrefix r ''.'' then None
      else let b = takeWhile is_digit (drop 1 r); r2 = drop (length b) (drop 1 r) in
        if b = [] \<or> \<not> HasPrefix r2 ''.'' then None
        else let c = takeWhile is_digit (drop 1 r2); r3 = drop (length c) (drop 1 r2) in
          if c = [] \<or> (r3 \<noteq> [] \<and> word_char (hd r3)) then None
          else Some (a, b, c))"

text \<open>The leftmost match; \<open>inWord\<close> says whether the character before is a word character.\<close>

fun find_version :: "bool \<Rightarrow> string \<Rightarrow> (string \<times> string \<times> string) option" where
  "find_version inWord [] = None"
| "find_version inWord (c # s) =
     (case (if inWord then None else version_here (c # s)) of
        Some v \<Rightarrow> Some v
      | None \<Rightarrow> find_version (word_char c) s)"

fun compare_version :: "int list \<Rightarrow> int list \<Rightarrow> bool" where
  "compare_version (value # values) (minimum # minima) =
     (if value > minimum then True else if value < minimum then False else compare_version values minima)"
| "compare_version _ _ = True"

definition parseCloudflaredVersion :: "string \<Rightarrow> gerror + string" where
  "parseCloudflaredVersion output =
     (case find_version False output of
        None \<Rightarrow> Inl (Msg ''cloudflared version could not be parsed'')
      | Some (a, b, c) \<Rightarrow>
          (case (Atoi a, Atoi b, Atoi c) of
             (Some x, Some y, Some z) \<Rightarrow>
               let match = a @ ''.'' @ b @ ''.'' @ c in
               if compare_version [x, y, z] [2020, 5, 1] then Inr match
               else Inl (Msgf ''cloudflared %s is older than required 2020.5.1'' [match])
           | _ \<Rightarrow> Inl (Msg ''cloudflared version could not be parsed'')))"

section \<open>The public URL\<close>

text \<open>\<open>strings.Fields\<close>: the pieces between runs of space runes.\<close>

function fields_from :: "string \<Rightarrow> string \<Rightarrow> string list" where
  "fields_from cur s =
     (if s = [] then (if cur = [] then [] else [cur])
      else let (r, n) = DecodeRune s in
        if r \<in> set space_runes then (if cur = [] then [] else [cur]) @ fields_from [] (drop n s)
        else fields_from (cur @ take n s) (drop n s))"
  by pat_completeness auto
termination
  by (relation "measure (length \<circ> snd)") (auto dest!: DecodeRune_width simp: prod_eq_iff)

declare fields_from.simps [simp del]

definition Fields :: "string \<Rightarrow> string list" where
  "Fields s = fields_from [] s"

definition TrimSet :: "char set \<Rightarrow> string \<Rightarrow> string" where
  "TrimSet cs s = rev (dropWhile (\<lambda>c. c \<in> cs) (rev (dropWhile (\<lambda>c. c \<in> cs) s)))"

definition url_cutset :: "char set" where
  "url_cutset = set (''|[]()<>,'' @ [char_of (34::nat), char_of (39::nat)])"

text \<open>Whether a field of the output is the origin of a quick tunnel, and which.\<close>

definition tunnel_origin :: "(string \<Rightarrow> gerror + URL) \<Rightarrow> (URL \<Rightarrow> string) \<Rightarrow> string \<Rightarrow> string option" where
  "tunnel_origin parse print field =
     (let candidate = TrimSet url_cutset field in
      if \<not> Contains candidate ''trycloudflare.com'' then None
      else case parse candidate of
        Inl e \<Rightarrow> None
      | Inr u \<Rightarrow>
          if u_Scheme u \<noteq> ''https'' \<or> \<not> quickTunnelHost (Hostname u) \<or> u_Host u \<noteq> Hostname u \<or> u_User u
             \<or> u_Path u \<noteq> [] \<or> u_RawQuery u \<noteq> [] \<or> u_Fragment u \<noteq> []
          then None else Some (print u))"

fun scan_origins :: "(string \<Rightarrow> string option) \<Rightarrow> string \<Rightarrow> string list \<Rightarrow> gerror + string" where
  "scan_origins origin found [] =
     (if found = [] then Inl (Msg ''cloudflared did not report a valid Quick Tunnel URL'') else Inr found)"
| "scan_origins origin found (field # fs) =
     (case origin field of
        None \<Rightarrow> scan_origins origin found fs
      | Some o' \<Rightarrow>
          if found \<noteq> [] \<and> o' \<noteq> found then Inl (Msg ''cloudflared reported multiple Quick Tunnel URLs'')
          else scan_origins origin o' fs)"

definition extractQuickTunnelURL :: "(string \<Rightarrow> gerror + URL) \<Rightarrow> (URL \<Rightarrow> string) \<Rightarrow> string \<Rightarrow> gerror + string" where
  "extractQuickTunnelURL parse print output = scan_origins (tunnel_origin parse print) [] (Fields output)"

definition URL_Port :: "URL \<Rightarrow> string" where
  "URL_Port u =
     (case LastIndexByte (u_Host u) CHR '':'' of
        None \<Rightarrow> []
      | Some i \<Rightarrow> if list_all is_digit (drop (Suc i) (u_Host u)) then drop (Suc i) (u_Host u) else [])"

text \<open>\<open>isLoopback\<close> is \<open>net.ParseIP\<close> followed by \<open>IsLoopback\<close>: \<open>None\<close> for no IP address.\<close>

definition validateTunnelOrigin :: "(string \<Rightarrow> gerror + URL) \<Rightarrow> (string \<Rightarrow> bool option) \<Rightarrow> string \<Rightarrow> gerror option" where
  "validateTunnelOrigin parse isLoopback raw =
     (case parse raw of
        Inl e \<Rightarrow> Some (Wrapf ''parse tunnel origin: '' e)
      | Inr u \<Rightarrow>
          if u_Scheme u \<noteq> ''http'' \<or> isLoopback (Hostname u) \<noteq> Some True \<or> URL_Port u = [] \<or> u_User u
             \<or> u_Path u \<noteq> [] \<or> u_RawQuery u \<noteq> [] \<or> u_Fragment u \<noteq> []
          then Some (Msg ''tunnel origin must be an HTTP loopback origin with an explicit port'')
          else None)"

section \<open>The tail of the output\<close>

definition maxTunnelDiagnostics :: nat where "maxTunnelDiagnostics = 64 * 2 ^ 10"

record diagnosticTail =
  dt_data :: string

definition diagnosticTail_Write :: "diagnosticTail \<Rightarrow> string \<Rightarrow> diagnosticTail" where
  "diagnosticTail_Write t p = t\<lparr>dt_data := tail_write maxTunnelDiagnostics (dt_data t) p\<rparr>"

interpretation dt: tail_writer diagnosticTail_Write dt_data maxTunnelDiagnostics
  by unfold_locales (simp add: diagnosticTail_Write_def tail_write_last)

section \<open>The process\<close>

text \<open>
  \<open>isExit\<close> tells an \<open>*exec.ExitError\<close>. The tunnel's goroutines: \<open>wait\<close>, split at its lock, and \<open>Close\<close>,
  split at the wait for \<open>waited\<close>. \<open>t_exit\<close> is the result of \<open>command.Wait\<close>, once there is one;
  \<open>t_sent\<close> what was sent on \<open>done\<close>.
\<close>

definition tunnelWaitError :: "(gerror \<Rightarrow> bool) \<Rightarrow> gerror option \<Rightarrow> bool \<Rightarrow> gerror option" where
  "tunnelWaitError isExit err closing =
     (if \<not> closing then err
      else case err of
        None \<Rightarrow> None
      | Some e \<Rightarrow> if isExit e \<or> errors_is e ErrCanceled then None else Some e)"

datatype waitPhase = Running | Reaped bool | WaitDone
datatype closePhase = NotClosed | Stopping | Stopped

record Tunnel =
  t_closing :: bool
  t_waitErr :: "gerror option"
  t_exit :: "gerror option option"
  t_wait :: waitPhase
  t_sent :: "gerror option list"
  t_closePhase :: closePhase
  t_events :: "string list"

definition newTunnel :: Tunnel where
  "newTunnel = \<lparr>t_closing = False, t_waitErr = None, t_exit = None, t_wait = Running, t_sent = [],
     t_closePhase = NotClosed, t_events = [''process_started'']\<rparr>"

text \<open>\<open>wait\<close> under the lock, and the rest of it.\<close>

definition wait_lock :: "(gerror \<Rightarrow> bool) \<Rightarrow> gerror option \<Rightarrow> Tunnel \<Rightarrow> Tunnel" where
  "wait_lock isExit err t =
     t\<lparr>t_waitErr := tunnelWaitError isExit err (t_closing t), t_exit := Some err, t_wait := Reaped (t_closing t)\<rparr>"

definition wait_finish :: "bool \<Rightarrow> Tunnel \<Rightarrow> Tunnel" where
  "wait_finish closing t =
     (if closing then t\<lparr>t_wait := WaitDone\<rparr>
      else t\<lparr>t_wait := WaitDone, t_sent := t_sent t @ [t_waitErr t], t_events := t_events t @ [''process_exit'']\<rparr>)"

definition close_begin :: "Tunnel \<Rightarrow> Tunnel" where
  "close_begin t = t\<lparr>t_closing := True, t_closePhase := Stopping\<rparr>"

definition close_end :: "Tunnel \<Rightarrow> Tunnel" where
  "close_end t = t\<lparr>t_closePhase := Stopped, t_events := t_events t @ [''stopped'']\<rparr>"

inductive tunnel_step :: "(gerror \<Rightarrow> bool) \<Rightarrow> Tunnel \<Rightarrow> Tunnel \<Rightarrow> bool" for isExit :: "gerror \<Rightarrow> bool" where
  tun_exit: "t_wait t = Running \<Longrightarrow> tunnel_step isExit t (wait_lock isExit err t)"
| tun_report: "t_wait t = Reaped closing \<Longrightarrow> tunnel_step isExit t (wait_finish closing t)"
| tun_close: "t_closePhase t = NotClosed \<Longrightarrow> tunnel_step isExit t (close_begin t)"
| tun_closed: "t_closePhase t = Stopping \<Longrightarrow> t_wait t = WaitDone \<Longrightarrow> tunnel_step isExit t (close_end t)"

section \<open>Starting\<close>

text \<open>What the loop of \<open>StartTunnel\<close> sees.\<close>

datatype startEvent = Output string | Exited "gerror option" | TimedOut | Canceled gerror

text \<open>The result, and whether \<open>Close\<close> was called on the way.\<close>

fun start_loop ::
    "(string \<Rightarrow> gerror + string) \<Rightarrow> startEvent list \<Rightarrow> diagnosticTail \<Rightarrow> (gerror + string) \<times> bool" where
  "start_loop scan events tail =
     (case scan (dt_data tail) of
        Inr url \<Rightarrow> (Inr url, False)
      | Inl _ \<Rightarrow>
          (case events of
             [] \<Rightarrow> (Inl (Msg ''still waiting''), False)
           | Output p # events \<Rightarrow> start_loop scan events (diagnosticTail_Write tail p)
           | Exited err # _ \<Rightarrow>
               (Inl (Wrapv (Wrapf ''cloudflared exited before reporting a Quick Tunnel URL: ''
                  (case err of None \<Rightarrow> Ext ''%!w(<nil>)'' | Some e \<Rightarrow> e)) ('': '' @ TrimSpace (dt_data tail))), False)
           | TimedOut # _ \<Rightarrow>
               (Inl (Msgf ''cloudflared did not report a Quick Tunnel URL within %s: %s'' [TrimSpace (dt_data tail)]), True)
           | Canceled e # _ \<Rightarrow> (Inl e, True)))"

declare start_loop.simps [simp del]

record tunnelEnv =
  te_lookPath :: "gerror + string"
  te_version :: "string \<Rightarrow> gerror + string"
  te_start :: "string \<Rightarrow> string list \<Rightarrow> gerror option"

text \<open>The result, the command that was started, and whether \<open>Close\<close> was called.\<close>

definition StartTunnel ::
    "(string \<Rightarrow> gerror + URL) \<Rightarrow> (URL \<Rightarrow> string) \<Rightarrow> (string \<Rightarrow> bool option) \<Rightarrow> tunnelEnv \<Rightarrow> string \<Rightarrow> startEvent list
     \<Rightarrow> (gerror + string) \<times> (string \<times> string list) option \<times> bool" where
  "StartTunnel parse print isLoopback env localURL events =
     (case validateTunnelOrigin parse isLoopback localURL of
        Some e \<Rightarrow> (Inl e, None, False)
      | None \<Rightarrow>
          (case te_lookPath env of
             Inl e \<Rightarrow> (Inl (Wrapf ''cloudflared not found in PATH: '' e), None, False)
           | Inr path \<Rightarrow>
               (case te_version env path of
                  Inl e \<Rightarrow> (Inl (Wrapf ''read cloudflared version: '' e), None, False)
                | Inr out \<Rightarrow>
                    (case parseCloudflaredVersion out of
                       Inl e \<Rightarrow> (Inl e, None, False)
                     | Inr _ \<Rightarrow>
                         let args = [''tunnel'', ''--no-autoupdate'', ''--url'', localURL] in
                         (case te_start env path args of
                            Some e \<Rightarrow> (Inl (Wrapf ''start cloudflared Quick Tunnel: '' e), None, False)
                          | None \<Rightarrow>
                              (case start_loop (extractQuickTunnelURL parse print) events \<lparr>dt_data = []\<rparr> of
                                 (r, closed) \<Rightarrow> (r, Some (path, args), closed)))))))"


section \<open>One origin, or none\<close>

definition origins :: "(string \<Rightarrow> string option) \<Rightarrow> string list \<Rightarrow> string set" where
  "origins origin fs = {o'. \<exists>f \<in> set fs. origin f = Some o'}"

lemma origins_Cons:
  "origins origin (f # fs) = (case origin f of None \<Rightarrow> {} | Some o' \<Rightarrow> {o'}) \<union> origins origin fs"
  by (auto simp: origins_def split: option.splits)

lemma scan_origins_spec:
  assumes "\<And>f. origin f \<noteq> Some []"
  shows "scan_origins origin found fs = Inr url \<longleftrightarrow>
    url \<noteq> [] \<and> origins origin fs \<union> (if found = [] then {} else {found}) = {url}"
proof (induction fs arbitrary: found)
  case Nil
  then show ?case by (auto simp: origins_def)
next
  case (Cons f fs)
  show ?case
  proof (cases "origin f")
    case None
    then show ?thesis using Cons by (simp add: origins_Cons)
  next
    case (Some o')
    then have "o' \<noteq> []" using assms by auto
    then show ?thesis using Some Cons by (auto simp: origins_Cons)
  qed
qed

text \<open>The public URL is taken from the output of \<open>cloudflared\<close> exactly when the output names one
  quick tunnel origin and no second one: the result is that origin, and with none or with two
  different ones there is an error.\<close>

theorem extractQuickTunnelURL_unique:
  assumes "\<And>u. print u \<noteq> []"
  shows "extractQuickTunnelURL parse print output = Inr url \<longleftrightarrow>
    {o'. \<exists>f \<in> set (Fields output). tunnel_origin parse print f = Some o'} = {url}"
proof -
  have "tunnel_origin parse print f \<noteq> Some []" for f
    using assms by (auto simp: tunnel_origin_def Let_def split: sum.splits)
  from scan_origins_spec [where origin = "tunnel_origin parse print" and found = "[]" and fs = "Fields output"
      and url = url, OF this] this show ?thesis
    unfolding extractQuickTunnelURL_def origins_def by auto
qed

theorem extractQuickTunnelURL_unique_witness:
  "extractQuickTunnelURL (\<lambda>s. Inl (Msg ''no URL'')) (\<lambda>u. ''https://'' @ u_Host u) ''x'' \<noteq> Inr ''y''"
  by (subst extractQuickTunnelURL_unique) (auto simp: tunnel_origin_def Let_def)

section \<open>The minimum version\<close>

lemma compare_version_lex:
  "length xs = length ys \<Longrightarrow> compare_version xs ys \<longleftrightarrow> ys \<le> xs"
  by (induction xs ys rule: compare_version.induct) (auto simp: Cons_le_Cons)

text \<open>The version check accepts exactly the versions that are not below 2020.5.1 in the
  lexicographic order of their three numbers, and returns the version text it found.\<close>

theorem version_check_lexicographic:
  assumes "find_version False output = Some (a, b, c)" and "Atoi a = Some x" "Atoi b = Some y" "Atoi c = Some z"
  shows "parseCloudflaredVersion output =
    (if [2020, 5, 1] \<le> [x, y, z] then Inr (a @ ''.'' @ b @ ''.'' @ c)
     else Inl (Msgf ''cloudflared %s is older than required 2020.5.1'' [a @ ''.'' @ b @ ''.'' @ c]))"
proof -
  have "compare_version [x, y, z] [2020, 5, 1] \<longleftrightarrow> [2020, 5, 1] \<le> [x, y, z]"
    by (rule compare_version_lex) simp
  then show ?thesis using assms by (simp only: parseCloudflaredVersion_def option.case prod.case Let_def)
qed

theorem version_check_lexicographic_witness:
  "parseCloudflaredVersion ''cloudflared version 2020.4.9 (built)'' =
     Inl (Msgf ''cloudflared %s is older than required 2020.5.1'' [''2020.4.9''])"
proof -
  have "find_version False ''cloudflared version 2020.4.9 (built)'' = Some (''2020'', ''4'', ''9'')" by code_simp
  moreover have "Atoi ''2020'' = Some 2020" "Atoi ''4'' = Some 4" "Atoi ''9'' = Some 9"
    by (simp_all add: Atoi_def HasPrefix_def is_digit_def digits_value_def)
  ultimately show ?thesis
    by (subst version_check_lexicographic) (assumption | simp)+
qed

section \<open>Ends of the process\<close>

definition tunnel_inv :: "Tunnel \<Rightarrow> bool" where
  "tunnel_inv t \<longleftrightarrow>
     (t_closing t \<longleftrightarrow> t_closePhase t \<noteq> NotClosed)
     \<and> (t_closePhase t = Stopped \<longrightarrow> t_wait t = WaitDone)
     \<and> (case t_wait t of
          Running \<Rightarrow> t_sent t = [] \<and> t_exit t = None
        | Reaped closing \<Rightarrow> t_sent t = [] \<and> (\<exists>err. t_exit t = Some err \<and> (\<not> closing \<longrightarrow> t_waitErr t = err)) \<and> (closing \<longrightarrow> t_closing t)
        | WaitDone \<Rightarrow> (\<exists>err. t_exit t = Some err \<and> (t_sent t = [err] \<and> t_waitErr t = err \<or> t_sent t = [] \<and> t_closing t)))
     \<and> (t_sent t \<noteq> [] \<longleftrightarrow> ''process_exit'' \<in> set (t_events t))"

interpretation tunnel: invariant_system "\<lambda>t. t = newTunnel" "tunnel_step isExit" tunnel_inv for isExit
proof unfold_locales
  show "tunnel_inv t" if "t = newTunnel" for t
    using that by (simp add: tunnel_inv_def newTunnel_def)
  show "tunnel_inv t'" if i: "tunnel_inv t" and s: "tunnel_step isExit t t'" for t t'
    using s
    by cases (use i in \<open>auto simp: tunnel_inv_def wait_lock_def wait_finish_def close_begin_def close_end_def
        tunnelWaitError_def split: waitPhase.splits\<close>)
qed



section \<open>Starting\<close>

lemma start_loop_outcome:
  "start_loop scan events tail = (r, closed) \<Longrightarrow>
     (case r of
        Inr url \<Rightarrow> \<not> closed \<and> (\<exists>ps. scan (dt_data (foldl diagnosticTail_Write tail ps)) = Inr url)
      | Inl e \<Rightarrow> closed \<or> (\<exists>x. Exited x \<in> set events) \<or> (\<forall>ev \<in> set events. \<exists>p. ev = Output p))"
proof (induction scan events tail arbitrary: r closed rule: start_loop.induct)
  case (1 scan events tail)
  note eq = 1(2) [unfolded start_loop.simps [of scan events tail]]
  show ?case
  proof (cases "scan (dt_data tail)")
    case (Inr url)
    then have r: "r = Inr url" "\<not> closed" using eq by simp_all
    have "scan (dt_data (foldl diagnosticTail_Write tail [])) = Inr url" using Inr by simp
    then show ?thesis using r(2) unfolding r(1) sum.case by blast
  next
    case (Inl e)
    show ?thesis
    proof (cases events)
      case Nil
      then show ?thesis using eq Inl by auto
    next
      case (Cons ev evs)
      show ?thesis
      proof (cases ev)
        case (Output p)
        have "start_loop scan evs (diagnosticTail_Write tail p) = (r, closed)"
          using eq Inl Cons Output by simp
        from 1(1) [OF Inl Cons Output this] show ?thesis
          by (auto simp: Cons Output split: sum.splits) (metis foldl_Cons)+
      qed (use eq Inl Cons in auto)
    qed
  qed
qed

text \<open>A started \<open>cloudflared\<close> is never left running unnoticed: when \<open>StartTunnel\<close> has started the
  process and fails, it has closed the tunnel or the process has ended (or it still waits); it
  starts the process only for a loopback origin, and it succeeds only with a URL found in the last
  64 KiB of the output.\<close>

theorem StartTunnel_no_leak:
  assumes "StartTunnel parse print isLoopback env localURL events = (r, Some (path, args), closed)"
  shows "validateTunnelOrigin parse isLoopback localURL = None \<and> args = [''tunnel'', ''--no-autoupdate'', ''--url'', localURL]
    \<and> (case r of
         Inl e \<Rightarrow> closed \<or> (\<exists>x. Exited x \<in> set events) \<or> (\<forall>ev \<in> set events. \<exists>p. ev = Output p)
       | Inr url \<Rightarrow> \<not> closed \<and> (\<exists>ps. extractQuickTunnelURL parse print (last_n maxTunnelDiagnostics (concat ps)) = Inr url))"
proof -
  have l: "start_loop (extractQuickTunnelURL parse print) events \<lparr>dt_data = []\<rparr> = (r, closed)"
    and v: "validateTunnelOrigin parse isLoopback localURL = None" "args = [''tunnel'', ''--no-autoupdate'', ''--url'', localURL]"
    using assms by (auto simp: StartTunnel_def Let_def split: option.splits sum.splits prod.splits)
  have "dt_data (foldl diagnosticTail_Write \<lparr>dt_data = []\<rparr> ps) = last_n maxTunnelDiagnostics (concat ps)" for ps
    using dt.writes_content [of "\<lparr>dt_data = []\<rparr>" ps] by simp
  with start_loop_outcome [OF l] v show ?thesis by (auto split: sum.splits)
qed


definition demo_print :: "URL \<Rightarrow> string" where
  "demo_print u = ''https://'' @ u_Host u"

definition demo_env :: tunnelEnv where
  "demo_env = \<lparr>te_lookPath = Inr ''/bin/cloudflared'', te_version = (\<lambda>_. Inr ''2024.1.1''), te_start = (\<lambda>_ _. None)\<rparr>"

definition local_url :: URL where
  "local_url = \<lparr>u_Scheme = ''http'', u_Host = ''127.0.0.1:80'', u_User = False, u_Path = [], u_RawQuery = [], u_Fragment = []\<rparr>"

theorem StartTunnel_no_leak_witness:
  "snd (snd (StartTunnel (\<lambda>s. Inr local_url) demo_print (\<lambda>h. Some True) demo_env ''u'' [TimedOut]))"
proof -
  have v: "validateTunnelOrigin (\<lambda>s. Inr local_url) (\<lambda>h. Some True) ''u'' = None" by code_simp
  have "find_version False ''2024.1.1'' = Some (''2024'', ''1'', ''1'')" by code_simp
  then have p: "parseCloudflaredVersion ''2024.1.1'' = Inr ''2024.1.1''"
    by (simp add: parseCloudflaredVersion_def Atoi_def HasPrefix_def is_digit_def digits_value_def)
  have x: "extractQuickTunnelURL (\<lambda>s. Inr local_url) demo_print [] =
      Inl (Msg ''cloudflared did not report a valid Quick Tunnel URL'')"
    by (simp add: extractQuickTunnelURL_def Fields_def fields_from.simps)
  obtain r c where e: "StartTunnel (\<lambda>s. Inr local_url) demo_print (\<lambda>h. Some True) demo_env ''u'' [TimedOut] =
      (r, Some (''/bin/cloudflared'', [''tunnel'', ''--no-autoupdate'', ''--url'', ''u'']), c)"
    and "\<exists>e. r = Inl e"
    by (simp add: StartTunnel_def v demo_env_def p x start_loop.simps [of _ "[TimedOut]"])
  with StartTunnel_no_leak [OF e] show ?thesis by auto
qed

text \<open>When cloudflared exits with status 0 before it has reported a URL, the error wraps a nil error.\<close>

lemma start_loop_clean_exit:
  assumes "scan [] = Inl e"
  shows "\<exists>err. start_loop scan [Exited None] \<lparr>dt_data = []\<rparr> = (Inl err, False)
    \<and> error_text err = ''cloudflared exited before reporting a Quick Tunnel URL: %!w(<nil>): ''"
proof -
  have "leading_space [] = None" "trailing_space [] = None"
    using leading_space_Some [of "[]"] trailing_space_Some [of "[]"] by fastforce+
  then have "TrimSpace [] = []" by (rule TrimSpace_id)
  then show ?thesis using assms by (subst start_loop.simps) simp
qed

end
