(* ===== verification/Mirror_Manager.thy ===== *)
theory Mirror_Manager
  imports Mirror_Server Mirror_Tunnel
begin

text \<open>
  The mirror manager, \<open>internal/mirror/manager.go\<close>: starting, rotating and stopping the mirror and
  the viewers of its clients. Clients, viewers, opening attempts, servers and tunnels are named by
  numbers. Code between \<open>Lock\<close> and \<open>Unlock\<close> of \<open>m.mu\<close> is one atomic operation; calls to resources
  (server, tunnel, viewers) that happen outside are recorded as actions, with their results given by
  the environment. Go's iteration over maps has no order: the viewers to close are a set.
\<close>

section \<open>State\<close>

datatype State = StateStopped | StateStarting | StateReady | StateFailed

record HostSession =
  hs_ID :: string
  hs_WindowID :: string
  hs_Generation :: string
  hs_Name :: string
  hs_Kind :: string

record Snapshot =
  sn_State :: State
  sn_PublicURL :: string
  sn_PairingURL :: string
  sn_QR :: string
  sn_Err :: string
  sn_DiagnosticsWarning :: string
  sn_CleanupWarning :: string

text \<open>
  \<open>m_active\<close> and \<open>m_opening\<close> are the maps of the code; an \<open>openingViewer\<close> object is a number, and
  \<open>m_viewerOf\<close> is its \<open>viewer\<close> field.
\<close>

record Manager =
  m_target :: HostSession
  m_events :: "Snapshot list"
  m_state :: State
  m_publicURL :: string
  m_pairingURL :: string
  m_qr :: string
  m_errText :: string
  m_secret :: "Secret option"
  m_server :: "nat option"
  m_tunnel :: "nat option"
  m_startup :: "bool option"
  m_clients :: "nat set"
  m_active :: "nat \<Rightarrow> (nat \<times> nat) option"
  m_opening :: "nat \<Rightarrow> nat option"
  m_viewerOf :: "nat \<Rightarrow> nat option"
  m_shutdown :: bool
  m_shutdownAsked :: bool
  m_viewerOpen :: "nat set"
  m_diagnostics :: bool
  m_diagnosticsFailed :: bool
  m_diagnosticsWarning :: string
  m_cleanupWarning :: string

definition NewManager :: "string \<Rightarrow> HostSession option \<Rightarrow> bool \<Rightarrow> gerror + Manager" where
  "NewManager workspace target diagnostics =
     (if workspace = [] then Inl (Msg ''mirror workspace is required'')
      else case target of
        None \<Rightarrow> Inl (Msg ''mirror target is required'')
      | Some t \<Rightarrow>
          (case validateIdentity (hs_ID t) (hs_Generation t) of
             Some e \<Rightarrow> Inl e
           | None \<Rightarrow> Inr
               \<lparr>m_target = t, m_events = [], m_state = StateStopped, m_publicURL = [], m_pairingURL = [], m_qr = [],
                m_errText = [], m_secret = None, m_server = None, m_tunnel = None, m_startup = None, m_clients = {},
                m_active = (\<lambda>_. None), m_opening = (\<lambda>_. None), m_viewerOf = (\<lambda>_. None), m_shutdown = False,
                m_shutdownAsked = False, m_viewerOpen = {}, m_diagnostics = diagnostics, m_diagnosticsFailed = False,
                m_diagnosticsWarning = [], m_cleanupWarning = []\<rparr>))"

section \<open>Snapshots and events\<close>

definition snapshotLocked :: "Manager \<Rightarrow> Snapshot" where
  "snapshotLocked m =
     \<lparr>sn_State = m_state m, sn_PublicURL = m_publicURL m, sn_PairingURL = m_pairingURL m, sn_QR = m_qr m,
      sn_Err = m_errText m, sn_DiagnosticsWarning = m_diagnosticsWarning m, sn_CleanupWarning = m_cleanupWarning m\<rparr>"

definition eventCapacity :: nat where "eventCapacity = 64"

text \<open>When the channel is full every event in it is dropped for the new one.\<close>

definition publishSnapshot :: "Snapshot \<Rightarrow> Manager \<Rightarrow> Manager" where
  "publishSnapshot s m =
     (if length (m_events m) < eventCapacity then m\<lparr>m_events := m_events m @ [s]\<rparr>
      else m\<lparr>m_events := [s]\<rparr>)"

definition publish :: "Manager \<Rightarrow> Manager" where
  "publish m = publishSnapshot (snapshotLocked m) m"

definition ClientCount :: "Manager \<Rightarrow> nat" where
  "ClientCount m = card (m_clients m)"

text \<open>\<open>recordDiagnostic\<close>; \<open>ok\<close> is whether the sink takes the record.\<close>

definition recordDiagnostic :: "bool \<Rightarrow> Manager \<Rightarrow> Manager" where
  "recordDiagnostic ok m =
     (if \<not> m_diagnostics m \<or> m_diagnosticsFailed m \<or> ok then m
      else publish (m\<lparr>m_diagnosticsFailed := True, m_diagnosticsWarning := ''diagnostics unavailable''\<rparr>))"

definition recordViewerCleanupFailure :: "bool \<Rightarrow> gerror option \<Rightarrow> Manager \<Rightarrow> Manager" where
  "recordViewerCleanupFailure ok err m =
     (case err of
        None \<Rightarrow> m
      | Some e \<Rightarrow> recordDiagnostic ok (publish (m\<lparr>m_cleanupWarning := ''terminal cleanup was incomplete''\<rparr>)))"

definition failStart :: "gerror \<Rightarrow> Manager \<Rightarrow> gerror option \<times> Manager" where
  "failStart err m =
     (Some err,
      publish (if errors_is err ErrCanceled then m\<lparr>m_state := StateStopped, m_errText := []\<rparr>
               else m\<lparr>m_state := StateFailed, m_errText := error_text err\<rparr>))"

section \<open>Starting\<close>

text \<open>The calls the manager makes on its resources outside of its locks.\<close>

datatype action =
    StartServer nat Secret
  | StartTunnelFor nat nat
  | CloseTunnel nat
  | CloseServer nat
  | SetPublicHostOf nat string
  | SetSecretOf nat Secret
  | PreparedViewer
  | ClosePrepared
  | StartViewer nat
  | CloseViewer nat
  | CleanupFactory
  | CloseClient nat

text \<open>The library functions behind a pairing link: \<open>url.Parse\<close>, \<open>URL.String\<close>, \<open>net.ParseIP\<close> and the QR code.\<close>

record linkLib =
  ll_parse :: "string \<Rightarrow> gerror + URL"
  ll_print :: "URL \<Rightarrow> string"
  ll_isIP :: "string \<Rightarrow> bool"
  ll_draw :: "string \<Rightarrow> gerror + string"

definition linkOf :: "linkLib \<Rightarrow> string \<Rightarrow> Secret \<Rightarrow> gerror + string" where
  "linkOf lib = PairingURL (ll_parse lib) (ll_print lib) (ll_isIP lib)"

text \<open>
  What the environment answers during one \<open>start\<close>: the random bytes, the server, the tunnel with its
  URL, whether the caller's context or the one of the run was cancelled meanwhile, whether \<open>Shutdown\<close>
  asked for the end meanwhile, what \<open>ctx.Err()\<close> says, and whether the diagnostic sink takes records.
\<close>

record startEnv =
  se_readFull :: "nat \<Rightarrow> gerror + string"
  se_server :: "gerror + nat"
  se_tunnel :: "gerror + nat \<times> string"
  se_canceled :: bool
  se_asked :: bool
  se_ctxErr :: "gerror option"
  se_sink :: bool

definition beginStart :: "Manager \<Rightarrow> (gerror option \<times> Manager) + Manager" where
  "beginStart m =
     (case validateIdentity (hs_ID (m_target m)) (hs_Generation (m_target m)) of
        Some e \<Rightarrow> Inl (Some e, m)
      | None \<Rightarrow>
          if m_shutdown m \<or> m_shutdownAsked m then Inl (Some (Msg ''mirror manager is shut down''), m)
          else if m_shutdownAsked m then Inl (Some (Msg ''mirror manager is shutting down''), m)
          else if m_state m = StateReady then Inl (None, publish m)
          else Inr (publish (m\<lparr>m_state := StateStarting, m_errText := [], m_startup := Some False\<rparr>)))"

definition commitStart :: "Secret \<Rightarrow> nat \<Rightarrow> nat \<Rightarrow> string \<Rightarrow> string \<Rightarrow> string \<Rightarrow> Manager \<Rightarrow> Manager" where
  "commitStart secret server tunnel publicURL pairingURL qr m =
     publish (m\<lparr>m_secret := Some secret, m_server := Some server, m_tunnel := Some tunnel, m_startup := None,
       m_publicURL := publicURL, m_pairingURL := pairingURL, m_qr := qr, m_state := StateReady\<rparr>)"

text \<open>The first locked section of \<open>Shutdown\<close>, which does not wait for a running operation.\<close>

definition askShutdown :: "Manager \<Rightarrow> Manager" where
  "askShutdown m = m\<lparr>m_shutdownAsked := True, m_startup := map_option (\<lambda>_. True) (m_startup m)\<rparr>"

text \<open>The deferred function of \<open>start\<close>.\<close>

definition endStart :: "Manager \<Rightarrow> Manager" where
  "endStart m = m\<lparr>m_startup := None\<rparr>"

definition fails :: "gerror \<Rightarrow> action list \<Rightarrow> Manager \<Rightarrow> gerror option \<times> Manager \<times> action list" where
  "fails err acts m = (case failStart err m of (r, m') \<Rightarrow> (r, endStart m', acts))"

definition start :: "linkLib \<Rightarrow> startEnv \<Rightarrow> Manager \<Rightarrow> gerror option \<times> Manager \<times> action list" where
  "start lib env m =
     (case beginStart m of
        Inl (r, m') \<Rightarrow> (r, m', [])
      | Inr m1 \<Rightarrow>
          (case NewSecret (se_readFull env) of
             Inl e \<Rightarrow> fails e [] m1
           | Inr secret \<Rightarrow>
               let m2 = recordDiagnostic (se_sink env) m1 in
               (case se_server env of
                  Inl e \<Rightarrow> fails e [] (recordDiagnostic (se_sink env) m2)
                | Inr server \<Rightarrow>
                    let m3 = recordDiagnostic (se_sink env) m2; a1 = [StartServer server secret] in
                    (case se_tunnel env of
                       Inl e \<Rightarrow> fails e (a1 @ [CloseServer server]) (recordDiagnostic (se_sink env) m3)
                     | Inr (tunnel, url) \<Rightarrow>
                         let a2 = a1 @ [StartTunnelFor tunnel server]; undo = [CloseTunnel tunnel, CloseServer server] in
                         (case linkOf lib url secret of
                            Inl e \<Rightarrow> fails e (a2 @ undo) m3
                          | Inr pairingURL \<Rightarrow>
                              (case TerminalQR (ll_draw lib) pairingURL of
                                 Inl e \<Rightarrow> fails e (a2 @ undo) m3
                               | Inr qr \<Rightarrow>
                                   (case ll_parse lib url of
                                      Inl e \<Rightarrow> fails e (a2 @ undo) m3
                                    | Inr parsed \<Rightarrow>
                                        let a3 = a2 @ [SetPublicHostOf server (u_Host parsed)];
                                            m4 = (if se_asked env then askShutdown m3 else m3) in
                                        if m_startup m4 = Some True \<or> m_shutdownAsked m4 \<or> se_canceled env \<or> se_ctxErr env \<noteq> None
                                        then fails (case se_ctxErr env of None \<Rightarrow> Sentinel ErrCanceled | Some e \<Rightarrow> e)
                                          (a3 @ undo) m4
                                        else (None, commitStart secret server tunnel url pairingURL qr m4, a3))))))))"

section \<open>Closing what was taken over\<close>

text \<open>
  The viewers that \<open>detachClientsLocked\<close> returns. Go visits a map in any order: \<open>ord\<close> is the order in
  which the elements of a set come.
\<close>

definition detachedViewers :: "Manager \<Rightarrow> nat set" where
  "detachedViewers m =
     {v. \<exists>c o'. m_active m c = Some (o', v)} \<union> {v. \<exists>c o'. m_opening m c = Some o' \<and> m_viewerOf m o' = Some v}"

definition detachClientsLocked :: "Manager \<Rightarrow> Manager" where
  "detachClientsLocked m = m\<lparr>m_active := (\<lambda>_. None), m_opening := (\<lambda>_. None), m_clients := {},
     m_viewerOpen := m_viewerOpen m - {c. m_opening m c \<noteq> None}\<rparr>"

record managerCleanup =
  mc_server :: "nat option"
  mc_tunnel :: "nat option"
  mc_clients :: "nat list"
  mc_viewers :: "nat list"

definition clearLocked :: "(nat set \<Rightarrow> nat list) \<Rightarrow> State \<Rightarrow> string \<Rightarrow> Manager \<Rightarrow> managerCleanup \<times> Manager" where
  "clearLocked ord st errText m =
     (\<lparr>mc_server = m_server m, mc_tunnel = m_tunnel m, mc_clients = ord (m_clients m), mc_viewers = ord (detachedViewers m)\<rparr>,
      (detachClientsLocked m)\<lparr>m_server := None, m_tunnel := None, m_secret := None, m_publicURL := [], m_pairingURL := [],
       m_qr := [], m_cleanupWarning := [], m_state := st, m_errText := errText\<rparr>)"

text \<open>\<open>closes\<close> is the result of each call; the calls are returned in their order.\<close>

definition closeViewers :: "(action \<Rightarrow> gerror option) \<Rightarrow> nat list \<Rightarrow> gerror option \<times> action list" where
  "closeViewers closes vs = (let as = map CloseViewer vs in (errors_join (map closes as), as))"

definition closeClients :: "(action \<Rightarrow> gerror option) \<Rightarrow> nat list \<Rightarrow> gerror option \<times> action list" where
  "closeClients closes cs = (let as = map CloseClient cs in (errors_join (map closes as), as))"

definition managerCleanup_close :: "(action \<Rightarrow> gerror option) \<Rightarrow> managerCleanup \<Rightarrow> gerror option \<times> action list" where
  "managerCleanup_close closes c =
     (let (viewerErr, a1) = closeViewers closes (mc_viewers c);
          viewerFactoryErr = closes CleanupFactory;
          (clientErr, a2) = closeClients closes (mc_clients c);
          (tunnelErr, a3) = (case mc_tunnel c of None \<Rightarrow> (None, []) | Some t \<Rightarrow> (closes (CloseTunnel t), [CloseTunnel t]));
          (serverErr, a4) = (case mc_server c of None \<Rightarrow> (None, []) | Some s \<Rightarrow> (closes (CloseServer s), [CloseServer s]))
      in (errors_join [viewerErr, viewerFactoryErr, clientErr, serverErr, tunnelErr],
          a1 @ [CleanupFactory] @ a2 @ a3 @ a4))"

section \<open>Rotating\<close>

record rotateEnv =
  re_readFull :: "nat \<Rightarrow> gerror + string"
  re_others :: "Manager \<Rightarrow> Manager"
  re_closes :: "action \<Rightarrow> gerror option"
  re_sink :: bool

text \<open>\<open>re_others\<close> is what others did to the manager between the two locked sections.\<close>

definition commitRotate :: "Secret \<Rightarrow> string \<Rightarrow> string \<Rightarrow> Manager \<Rightarrow> Manager" where
  "commitRotate secret pairingURL qr m =
     publish (detachClientsLocked (m\<lparr>m_secret := Some secret, m_pairingURL := pairingURL, m_qr := qr\<rparr>))"

definition Rotate ::
    "(nat set \<Rightarrow> nat list) \<Rightarrow> linkLib \<Rightarrow> rotateEnv \<Rightarrow> Manager \<Rightarrow> gerror option \<times> Manager \<times> action list" where
  "Rotate ord lib env m =
     (if m_state m \<noteq> StateReady \<or> m_server m = None \<or> m_tunnel m = None
      then (Some (Msg ''mirror is not ready''), m, [])
      else case NewSecret (re_readFull env) of
        Inl e \<Rightarrow> (Some e, m, [])
      | Inr secret \<Rightarrow>
          (case linkOf lib (m_publicURL m) secret of
             Inl e \<Rightarrow> (Some e, m, [])
           | Inr pairingURL \<Rightarrow>
               (case TerminalQR (ll_draw lib) pairingURL of
                  Inl e \<Rightarrow> (Some e, m, [])
                | Inr qr \<Rightarrow>
                    let m1 = re_others env m in
                    if m_state m1 \<noteq> StateReady then (Some (Msg ''mirror stopped during pairing rotation''), m1, [])
                    else case m_server m1 of
                      None \<Rightarrow> (Some (Msg ''mirror stopped during pairing rotation''), m1, [])
                    | Some server \<Rightarrow>
                        let (viewerErr, a1) = closeViewers (re_closes env) (ord (detachedViewers m1));
                            m2 = recordDiagnostic (re_sink env) (commitRotate secret pairingURL qr m1);
                            cleanupErr = errors_join [viewerErr, re_closes env CleanupFactory];
                            m3 = publish (m2\<lparr>m_cleanupWarning :=
                              (if cleanupErr = None then [] else ''pairing rotated, but terminal cleanup was incomplete'')\<rparr>);
                            m4 = (if cleanupErr = None then m3 else recordDiagnostic (re_sink env) m3)
                        in (None, m4, [SetSecretOf server secret] @ a1 @ [CleanupFactory]))))"

section \<open>Stopping\<close>

text \<open>\<open>Shutdown\<close> after the operation lock is held; the snapshot is of the cleared manager.\<close>

definition finishShutdown ::
    "(nat set \<Rightarrow> nat list) \<Rightarrow> (action \<Rightarrow> gerror option) \<Rightarrow> Manager \<Rightarrow> gerror option \<times> Manager \<times> action list" where
  "finishShutdown ord closes m =
     (if m_shutdown m then (None, m, [])
      else let (cleanup, m1) = clearLocked ord StateStopped [] (m\<lparr>m_shutdown := True\<rparr>);
               (err, as) = managerCleanup_close closes cleanup
           in (err, publishSnapshot (snapshotLocked m1) m1, as))"

definition Shutdown_op ::
    "(nat set \<Rightarrow> nat list) \<Rightarrow> (action \<Rightarrow> gerror option) \<Rightarrow> Manager \<Rightarrow> gerror option \<times> Manager \<times> action list" where
  "Shutdown_op ord closes m = finishShutdown ord closes (askShutdown m)"

text \<open>
  \<open>watchTunnel\<close> when the tunnel has reported its end. The snapshot is taken before the diagnostic
  record is written and published after it.
\<close>

definition watchTunnel ::
    "(nat set \<Rightarrow> nat list) \<Rightarrow> (action \<Rightarrow> gerror option) \<Rightarrow> bool \<Rightarrow> nat \<Rightarrow> gerror option \<Rightarrow> Manager \<Rightarrow> Manager \<times> action list" where
  "watchTunnel ord closes sink tunnel err m =
     (if m_tunnel m \<noteq> Some tunnel \<or> m_shutdown m then (m, [])
      else let (cleanup, m1) = clearLocked ord StateFailed
                 (''Quick Tunnel exited: '' @ (case err of None \<Rightarrow> ''<nil>'' | Some e \<Rightarrow> error_text e)) m;
               (closeErr, as) = managerCleanup_close closes cleanup
           in (publishSnapshot (snapshotLocked m1) (recordDiagnostic sink m1), as))"

section \<open>Viewers\<close>

text \<open>
  \<open>Connected\<close> up to \<open>open\<close>. The flag \<open>viewerOpen\<close> of each client is the set \<open>m_viewerOpen\<close>. The identity
  of a viewer is always the one of the target, so it is not kept.
\<close>

definition admit :: "nat \<Rightarrow> Manager \<Rightarrow> gerror option \<times> Manager" where
  "admit client m =
     (if m_state m \<noteq> StateReady \<or> m_shutdown m then (Some (Msg ''mirror target is unavailable''), m)
      else let m1 = m\<lparr>m_clients := insert client (m_clients m)\<rparr> in
        if client \<in> m_viewerOpen m1 then (Some (Msg ''a terminal is already open''), m1)
        else (None, m1\<lparr>m_viewerOpen := insert client (m_viewerOpen m1)\<rparr>))"

text \<open>The first locked section of \<open>open\<close>; \<open>sent\<close> is the result of sending the ready frame.\<close>

definition reserve :: "nat \<Rightarrow> nat \<Rightarrow> gerror option \<Rightarrow> Manager \<Rightarrow> gerror option \<times> Manager" where
  "reserve client opening sent m =
     (if client \<notin> m_clients m then (Some (Msg ''mirror client disconnected''), m)
      else if m_opening m client \<noteq> None then (Some (Msg ''a terminal is already opening''), m)
      else if m_active m client \<noteq> None then (Some (Msg ''a terminal is already open''), m)
      else if m_state m \<noteq> StateReady \<or> m_shutdown m then (Some (Msg ''mirrored terminal ended''), m)
      else case sent of
        Some e \<Rightarrow> (Some e, m)
      | None \<Rightarrow> (None, m\<lparr>m_opening := (m_opening m)(client := Some opening), m_viewerOf := (m_viewerOf m)(opening := None)\<rparr>))"

definition removeOpening :: "nat \<Rightarrow> nat \<Rightarrow> Manager \<Rightarrow> Manager" where
  "removeOpening client opening m =
     (if m_opening m client = Some opening then m\<lparr>m_opening := (m_opening m)(client := None)\<rparr> else m)"

definition attach :: "nat \<Rightarrow> nat \<Rightarrow> nat \<Rightarrow> Manager \<Rightarrow> gerror option \<times> Manager" where
  "attach client opening viewer m =
     (if m_opening m client \<noteq> Some opening then (Some (Msg ''viewer opening was canceled''), m)
      else (None, m\<lparr>m_viewerOf := (m_viewerOf m)(opening := Some viewer)\<rparr>))"

definition activate :: "nat \<Rightarrow> nat \<Rightarrow> nat \<Rightarrow> Manager \<Rightarrow> gerror option \<times> Manager" where
  "activate client opening viewer m =
     (let reserved = (m_opening m client = Some opening);
          m1 = (if reserved then m\<lparr>m_opening := (m_opening m)(client := None)\<rparr> else m);
          connected = (client \<in> m_clients m1);
          existing = (m_active m1 client \<noteq> None);
          stillMirrored = (m_state m1 = StateReady \<and> \<not> m_shutdown m1)
      in if \<not> connected then (Some (Msg ''mirror client disconnected''), m1)
         else if existing then (Some (Msg ''a terminal is already open''), m1)
         else if \<not> stillMirrored then (Some (Msg ''mirrored terminal ended''), m1)
         else if \<not> reserved then (Some (Msg ''viewer opening was canceled''), m1)
         else (None, m1\<lparr>m_active := (m_active m1)(client := Some (opening, viewer))\<rparr>))"

text \<open>
  \<open>open\<close> as a whole: what the factory and the viewer answer, and in \<open>oe_others i\<close> what others did to the
  manager before its \<open>i\<close>-th locked section. \<open>oe_prepare\<close> is the geometry of the prepared viewer.
\<close>

record openEnv =
  oe_prepare :: "gerror + 16 word \<times> 16 word"
  oe_opening :: nat
  oe_sent :: "gerror option"
  oe_start :: "gerror + nat"
  oe_others :: "nat \<Rightarrow> Manager \<Rightarrow> Manager"
  oe_sink :: bool

definition open_viewer :: "openEnv \<Rightarrow> nat \<Rightarrow> Manager \<Rightarrow> gerror option \<times> Manager \<times> action list" where
  "open_viewer env client m =
     (let m0 = recordDiagnostic (oe_sink env) m in
      case oe_prepare env of
        Inl e \<Rightarrow> (Some e, recordDiagnostic (oe_sink env) m0, [])
      | Inr (columns, rows) \<Rightarrow>
          (case ValidateServerFrame TagReady
                  (VReady \<lparr>ready_ID = hs_ID (m_target m), ready_Generation = hs_Generation (m_target m),
                     ready_Columns = columns, ready_Rows = rows\<rparr>) of
             Some e \<Rightarrow> (Some e, recordDiagnostic (oe_sink env) m0, [PreparedViewer, ClosePrepared])
           | None \<Rightarrow>
               (case reserve client (oe_opening env) (oe_sent env) (oe_others env 1 m0) of
                  (Some e, m1) \<Rightarrow> (Some e, m1, [PreparedViewer, ClosePrepared])
                | (None, m1) \<Rightarrow>
                    (case oe_start env of
                       Inl e \<Rightarrow> (Some e, recordDiagnostic (oe_sink env) (removeOpening client (oe_opening env) (oe_others env 2 m1)),
                         [PreparedViewer, ClosePrepared])
                     | Inr viewer \<Rightarrow>
                         (case attach client (oe_opening env) viewer (oe_others env 2 m1) of
                            (Some e, m2) \<Rightarrow> (Some e, m2, [PreparedViewer, StartViewer viewer, CloseViewer viewer])
                          | (None, m2) \<Rightarrow>
                              (case activate client (oe_opening env) viewer (oe_others env 3 m2) of
                                 (Some e, m3) \<Rightarrow> (Some e, m3, [PreparedViewer, StartViewer viewer, CloseViewer viewer])
                               | (None, m3) \<Rightarrow> (None, recordDiagnostic (oe_sink env) m3, [PreparedViewer, StartViewer viewer])))))))"

definition Connected :: "openEnv \<Rightarrow> nat \<Rightarrow> Manager \<Rightarrow> gerror option \<times> Manager \<times> action list" where
  "Connected env client m =
     (case admit client m of
        (Some e, m1) \<Rightarrow> (Some e, m1, [])
      | (None, m1) \<Rightarrow>
          (case open_viewer env client m1 of
             (Some e, m2, as) \<Rightarrow> (Some e, m2\<lparr>m_viewerOpen := m_viewerOpen m2 - {client}\<rparr>, as)
           | (None, m2, as) \<Rightarrow> (None, m2, as)))"

text \<open>The locked sections of \<open>Close\<close> and \<open>Disconnected\<close>: the viewers they then close.\<close>

definition takenViewers :: "nat \<Rightarrow> Manager \<Rightarrow> nat set" where
  "takenViewers client m =
     (case m_active m client of None \<Rightarrow> {} | Some (o', v) \<Rightarrow> {v})
     \<union> (case m_opening m client of None \<Rightarrow> {} | Some o' \<Rightarrow> set_option (m_viewerOf m o'))"

definition Close_op :: "nat \<Rightarrow> Manager \<Rightarrow> Manager" where
  "Close_op client m = m\<lparr>m_active := (m_active m)(client := None), m_opening := (m_opening m)(client := None)\<rparr>"

definition Disconnected_op :: "nat \<Rightarrow> Manager \<Rightarrow> Manager" where
  "Disconnected_op client m = Close_op client (m\<lparr>m_clients := m_clients m - {client}\<rparr>)"

text \<open>\<open>Close\<close> closes the active viewer, or else the opening one.\<close>

definition closedByClose :: "nat \<Rightarrow> Manager \<Rightarrow> nat set" where
  "closedByClose client m =
     (case m_active m client of
        Some (o', v) \<Rightarrow> {v}
      | None \<Rightarrow> (case m_opening m client of None \<Rightarrow> {} | Some o' \<Rightarrow> set_option (m_viewerOf m o')))"

text \<open>\<open>Close\<close> as a whole, with the result of closing the viewer.\<close>

definition Manager_Close ::
    "(action \<Rightarrow> gerror option) \<Rightarrow> bool \<Rightarrow> nat \<Rightarrow> Manager \<Rightarrow> gerror option \<times> Manager \<times> action list" where
  "Manager_Close closes sink client m =
     (let m1 = Close_op client m in
      case m_active m client of
        Some (o', v) \<Rightarrow>
          (closes (CloseViewer v),
           recordViewerCleanupFailure sink (closes (CloseViewer v)) (recordDiagnostic sink m1), [CloseViewer v])
      | None \<Rightarrow>
          (case m_opening m client of
             None \<Rightarrow> (None, m1, [])
           | Some o' \<Rightarrow>
               (case m_viewerOf m o' of
                  None \<Rightarrow> (None, m1, [])
                | Some v \<Rightarrow> (closes (CloseViewer v), recordViewerCleanupFailure sink (closes (CloseViewer v)) m1, [CloseViewer v]))))"

definition Input_op :: "nat \<Rightarrow> Manager \<Rightarrow> gerror + nat" where
  "Input_op client m = (case m_active m client of None \<Rightarrow> Inl (Msg ''no terminal is open'') | Some (o', v) \<Rightarrow> Inr v)"

text \<open>Whether output of an opening attempt's viewer is sent to the client.\<close>

definition sendsViewerOutput :: "nat \<Rightarrow> nat option \<Rightarrow> Manager \<Rightarrow> bool" where
  "sendsViewerOutput client opening m =
     (case opening of
        None \<Rightarrow> False
      | Some o' \<Rightarrow> m_opening m client = Some o' \<or> (case m_active m client of None \<Rightarrow> False | Some (o2, v) \<Rightarrow> o2 = o'))"

definition watchViewer :: "nat \<Rightarrow> nat \<Rightarrow> Manager \<Rightarrow> Manager" where
  "watchViewer client viewer m =
     (case m_active m client of
        Some (o', v) \<Rightarrow>
          if v = viewer
          then m\<lparr>m_active := (m_active m)(client := None), m_viewerOpen := m_viewerOpen m - {client}\<rparr>
          else m
      | None \<Rightarrow> m)"

section \<open>Events\<close>

text \<open>The event channel never holds more than 64 snapshots, and the newest snapshot is always in it:
  a reader that falls behind loses old snapshots, never the latest one.\<close>

theorem publish_keeps_latest:
  assumes "length (m_events m) \<le> 64"
  shows "length (m_events (publishSnapshot s m)) \<le> 64 \<and> last (m_events (publishSnapshot s m)) = s
    \<and> m_events (publishSnapshot s m) \<noteq> []"
  using assms by (auto simp: publishSnapshot_def eventCapacity_def)

section \<open>What the operations leave alone\<close>

lemma publish_fields [simp]:
  "m_server (publish m) = m_server m" "m_tunnel (publish m) = m_tunnel m" "m_state (publish m) = m_state m"
  "m_secret (publish m) = m_secret m" "m_pairingURL (publish m) = m_pairingURL m" "m_publicURL (publish m) = m_publicURL m"
  "m_active (publish m) = m_active m" "m_opening (publish m) = m_opening m" "m_clients (publish m) = m_clients m"
  "m_viewerOf (publish m) = m_viewerOf m" "m_shutdown (publish m) = m_shutdown m" "m_qr (publish m) = m_qr m"
  "m_errText (publish m) = m_errText m" "m_shutdownAsked (publish m) = m_shutdownAsked m"
  "m_target (publish m) = m_target m" "m_diagnostics (publish m) = m_diagnostics m"
  "m_cleanupWarning (publish m) = m_cleanupWarning m" "m_viewerOpen (publish m) = m_viewerOpen m" "m_startup (publish m) = m_startup m"
  by (simp_all add: publish_def publishSnapshot_def)

lemma publishSnapshot_fields [simp]:
  "m_server (publishSnapshot s m) = m_server m" "m_tunnel (publishSnapshot s m) = m_tunnel m"
  "m_state (publishSnapshot s m) = m_state m" "m_secret (publishSnapshot s m) = m_secret m"
  "m_pairingURL (publishSnapshot s m) = m_pairingURL m" "m_publicURL (publishSnapshot s m) = m_publicURL m"
  "m_active (publishSnapshot s m) = m_active m" "m_opening (publishSnapshot s m) = m_opening m"
  "m_clients (publishSnapshot s m) = m_clients m" "m_viewerOf (publishSnapshot s m) = m_viewerOf m"
  "m_shutdown (publishSnapshot s m) = m_shutdown m" "m_shutdownAsked (publishSnapshot s m) = m_shutdownAsked m"
  "m_qr (publishSnapshot s m) = m_qr m"
  by (simp_all add: publishSnapshot_def)

lemma recordDiagnostic_fields [simp]:
  "m_server (recordDiagnostic ok m) = m_server m" "m_tunnel (recordDiagnostic ok m) = m_tunnel m"
  "m_state (recordDiagnostic ok m) = m_state m" "m_secret (recordDiagnostic ok m) = m_secret m"
  "m_pairingURL (recordDiagnostic ok m) = m_pairingURL m" "m_publicURL (recordDiagnostic ok m) = m_publicURL m"
  "m_active (recordDiagnostic ok m) = m_active m" "m_opening (recordDiagnostic ok m) = m_opening m"
  "m_clients (recordDiagnostic ok m) = m_clients m" "m_viewerOf (recordDiagnostic ok m) = m_viewerOf m"
  "m_shutdown (recordDiagnostic ok m) = m_shutdown m" "m_qr (recordDiagnostic ok m) = m_qr m"
  "m_shutdownAsked (recordDiagnostic ok m) = m_shutdownAsked m" "m_viewerOpen (recordDiagnostic ok m) = m_viewerOpen m"
  "m_cleanupWarning (recordDiagnostic ok m) = m_cleanupWarning m" "m_target (recordDiagnostic ok m) = m_target m"
  by (simp_all add: recordDiagnostic_def)

lemma askShutdown_fields [simp]:
  "m_server (askShutdown m) = m_server m" "m_tunnel (askShutdown m) = m_tunnel m" "m_state (askShutdown m) = m_state m"
  "m_secret (askShutdown m) = m_secret m" "m_shutdown (askShutdown m) = m_shutdown m"
  "m_active (askShutdown m) = m_active m" "m_opening (askShutdown m) = m_opening m" "m_clients (askShutdown m) = m_clients m"
  "m_viewerOf (askShutdown m) = m_viewerOf m" "m_shutdownAsked (askShutdown m)"
  by (simp_all add: askShutdown_def)

lemma fails_result:
  "fails e as m = (r, m', as') \<Longrightarrow> r = Some e \<and> as' = as \<and> m_server m' = m_server m \<and> m_tunnel m' = m_tunnel m
     \<and> m_secret m' = m_secret m \<and> m_shutdown m' = m_shutdown m \<and> m_state m' \<noteq> StateReady \<and> m_state m' \<noteq> StateStarting"
  by (cases "errors_is e ErrCanceled") (auto simp: fails_def failStart_def endStart_def)

lemma NewManager_fields:
  assumes "NewManager w t d = Inr m"
  shows "m_diagnostics m = d" "\<not> m_shutdown m" "\<not> m_shutdownAsked m" "m_clients m = {}" "m_state m = StateStopped"
    "m_active m = (\<lambda>_. None)" "m_opening m = (\<lambda>_. None)" "m_viewerOpen m = {}" "m_events m = []" "m_target m = the t"
    "m_server m = None" "m_tunnel m = None" "m_secret m = None" "m_startup m = None"
  using assms by (auto simp: NewManager_def split: if_splits option.splits)

section \<open>An example\<close>

text \<open>A manager, a link library that accepts everything and a start in which everything works.\<close>

definition demo_session :: HostSession where
  "demo_session = \<lparr>hs_ID = ''$1'', hs_WindowID = ''@1'', hs_Generation = ''123'', hs_Name = [], hs_Kind = []\<rparr>"

definition demo_manager :: Manager where
  "demo_manager = (case NewManager ''w'' (Some demo_session) False of Inr m \<Rightarrow> m)"

definition demo_lib :: linkLib where
  "demo_lib = \<lparr>ll_parse = (\<lambda>_. Inr demo_url), ll_print = u_Fragment, ll_isIP = (\<lambda>_. False), ll_draw = Inr\<rparr>"

definition ready_start :: startEnv where
  "ready_start = \<lparr>se_readFull = (\<lambda>n. Inr (replicate n CHR ''x'')), se_server = Inr 1, se_tunnel = Inr (2, ''u''),
     se_canceled = False, se_asked = False, se_ctxErr = None, se_sink = True\<rparr>"

lemma demo_manager_new: "NewManager ''w'' (Some demo_session) False = Inr demo_manager"
proof -
  have "validateIdentity (hs_ID demo_session) (hs_Generation demo_session) = None" by code_simp
  then show ?thesis by (simp add: demo_manager_def NewManager_def)
qed

lemma demo_link: "linkOf demo_lib u s = Inr (''k='' @ Secret_String s)"
proof -
  have "Hostname demo_url = ''a-b.trycloudflare.com''" "quickTunnelHost ''a-b.trycloudflare.com''" by code_simp+
  then show ?thesis by (simp add: linkOf_def demo_lib_def PairingURL_def demo_url_def)
qed

definition ready_secret :: Secret where
  "ready_secret = replicate 32 CHR ''x''"

definition demo_ready :: Manager where
  "demo_ready = fst (snd (start demo_lib ready_start demo_manager))"

lemmas demo_manager_fields = NewManager_fields [OF demo_manager_new]

lemma demo_beginStart: "beginStart demo_manager = Inr (publish (demo_manager\<lparr>m_state := StateStarting, m_errText := [], m_startup := Some False\<rparr>))"
proof -
  have "validateIdentity (hs_ID demo_session) (hs_Generation demo_session) = None" by code_simp
  then show ?thesis using demo_manager_fields by (simp add: beginStart_def)
qed

lemma demo_start_result:
  "start demo_lib ready_start demo_manager =
     (None, demo_ready, [StartServer 1 ready_secret, StartTunnelFor 2 1, SetPublicHostOf 1 ''a-b.trycloudflare.com''])"
  and demo_ready_fields:
  "m_state demo_ready = StateReady" "m_server demo_ready = Some 1" "m_tunnel demo_ready = Some 2" "m_secret demo_ready = Some ready_secret"
  "m_clients demo_ready = {}" "m_active demo_ready = (\<lambda>_. None)" "m_opening demo_ready = (\<lambda>_. None)" "m_viewerOpen demo_ready = {}"
  "\<not> m_shutdown demo_ready" "m_target demo_ready = demo_session"
proof -
  have "NewSecret (se_readFull ready_start) = Inr ready_secret" by (simp add: NewSecret_def ready_start_def ready_secret_def)
  moreover have "TerminalQR (ll_draw demo_lib) x = Inr x" for x by (simp add: TerminalQR_def demo_lib_def)
  moreover have "ll_parse demo_lib x = Inr demo_url" for x by (simp add: demo_lib_def)
  moreover have "se_server ready_start = Inr 1" "se_tunnel ready_start = Inr (2, ''u'')" "\<not> se_asked ready_start" "\<not> se_canceled ready_start"
      "se_ctxErr ready_start = None" by (simp_all add: ready_start_def)
  ultimately have "start demo_lib ready_start demo_manager =
      (None, commitStart ready_secret 1 2 ''u'' (''k='' @ Secret_String ready_secret) (''k='' @ Secret_String ready_secret)
        (publish (demo_manager\<lparr>m_state := StateStarting, m_errText := [], m_startup := Some False\<rparr>)),
       [StartServer 1 ready_secret, StartTunnelFor 2 1, SetPublicHostOf 1 ''a-b.trycloudflare.com''])"
    by (simp add: start_def demo_beginStart demo_link Let_def recordDiagnostic_def demo_manager_fields demo_url_def)
  then show "start demo_lib ready_start demo_manager =
     (None, demo_ready, [StartServer 1 ready_secret, StartTunnelFor 2 1, SetPublicHostOf 1 ''a-b.trycloudflare.com''])"
    and "m_state demo_ready = StateReady" "m_server demo_ready = Some 1" "m_tunnel demo_ready = Some 2" "m_secret demo_ready = Some ready_secret"
  "m_clients demo_ready = {}" "m_active demo_ready = (\<lambda>_. None)" "m_opening demo_ready = (\<lambda>_. None)" "m_viewerOpen demo_ready = {}"
  "\<not> m_shutdown demo_ready" "m_target demo_ready = demo_session"
    by (simp_all add: demo_ready_def commitStart_def demo_manager_fields)
qed

theorem publish_keeps_latest_witness:
  "last (m_events (publishSnapshot (snapshotLocked demo_manager) demo_manager)) = snapshotLocked demo_manager"
  using publish_keeps_latest [of demo_manager "snapshotLocked demo_manager"] by (simp add: demo_manager_fields)

section \<open>Rotation\<close>

text \<open>C30: A rotation that fails has changed nothing that a client or a reader of the status sees: secret,
  link and clients are as the others left them, and the server's secret was not touched. One that
  succeeds has first given the server the new secret, shows the link made from it, and has taken
  every client and viewer away from the manager and closed each of these viewers, so that none of
  them outlives the old secret; a failure of this cleanup is only reported as a warning.\<close>

theorem Rotate_all_or_nothing:
  assumes "Rotate ord lib env m = (r, m', as)" and "m_publicURL (re_others env m) = m_publicURL m"
  shows "case r of
      Some e \<Rightarrow> (m' = m \<or> m' = re_others env m) \<and> as = []
    | None \<Rightarrow> \<exists>server secret. m_server (re_others env m) = Some server
        \<and> as = [SetSecretOf server secret] @ map CloseViewer (ord (detachedViewers (re_others env m))) @ [CleanupFactory]
        \<and> m_secret m' = Some secret \<and> linkOf lib (m_publicURL m') secret = Inr (m_pairingURL m')
        \<and> m_clients m' = {} \<and> (\<forall>c. m_active m' c = None \<and> m_opening m' c = None) \<and> m_state m' = StateReady
        \<and> (m_cleanupWarning m' = [] \<longleftrightarrow>
             (\<forall>v \<in> set (ord (detachedViewers (re_others env m))). re_closes env (CloseViewer v) = None)
             \<and> re_closes env CleanupFactory = None)"
  using assms
  by (auto simp: Rotate_def Let_def commitRotate_def detachClientsLocked_def closeViewers_def
      split: if_splits sum.splits option.splits)

definition demo_rotate :: rotateEnv where
  "demo_rotate = \<lparr>re_readFull = (\<lambda>n. Inr (replicate n CHR ''y'')), re_others = (\<lambda>m. m), re_closes = (\<lambda>_. None), re_sink = True\<rparr>"

theorem Rotate_all_or_nothing_witness:
  "\<exists>m'. Rotate sorted_list_of_set demo_lib demo_rotate demo_ready =
       (None, m', [SetSecretOf 1 (replicate 32 CHR ''y''), CleanupFactory]) \<and> m_secret m' = Some (replicate 32 CHR ''y'')"
proof -
  have n: "NewSecret (re_readFull demo_rotate) = Inr (replicate 32 CHR ''y'')" by (simp add: NewSecret_def demo_rotate_def)
  have q: "TerminalQR (ll_draw demo_lib) x = Inr x" for x by (simp add: TerminalQR_def demo_lib_def)
  have v: "detachedViewers demo_ready = {}" by (simp add: detachedViewers_def demo_ready_fields)
  have d: "re_others demo_rotate m = m" "re_closes demo_rotate a = None" for m a by (simp_all add: demo_rotate_def)
  obtain m' where m': "Rotate sorted_list_of_set demo_lib demo_rotate demo_ready =
       (None, m', [SetSecretOf 1 (replicate 32 CHR ''y''), CleanupFactory])"
    by (simp add: Rotate_def demo_ready_fields n q demo_link v d closeViewers_def Let_def errors_join_def)
  with Rotate_all_or_nothing [OF m'] show ?thesis by (auto simp: d)
qed

section \<open>Releasing everything\<close>

text \<open>
  Closing goes on whatever fails, in the order viewers, factory, clients, tunnel, server, and the
  error is nil exactly when every call succeeded.
\<close>

lemma managerCleanup_close_all:
  assumes "managerCleanup_close closes c = (err, as)"
  shows "as = map CloseViewer (mc_viewers c) @ [CleanupFactory] @ map CloseClient (mc_clients c)
      @ map CloseTunnel (case mc_tunnel c of None \<Rightarrow> [] | Some t \<Rightarrow> [t])
      @ map CloseServer (case mc_server c of None \<Rightarrow> [] | Some s \<Rightarrow> [s])
    \<and> (err = None \<longleftrightarrow> (\<forall>a \<in> set as. closes a = None))"
  using assms
  by (auto simp: managerCleanup_close_def closeViewers_def closeClients_def Let_def split: option.splits)

text \<open>C31: The first \<open>Shutdown\<close> of a manager closes every viewer, every client, the tunnel and the server it
  holds, in this order and whatever fails on the way, reports an error exactly when one of these
  calls failed, and leaves a manager that holds nothing, has forgotten the secret and links and
  refuses every later start; a second one does nothing.\<close>

theorem Shutdown_releases_everything:
  assumes "set (ord (detachedViewers m)) = detachedViewers m" and "set (ord (m_clients m)) = m_clients m"
    and "\<not> m_shutdown m" and "Shutdown_op ord closes m = (err, m', as)"
  shows "set as = CloseViewer ` detachedViewers m \<union> CloseClient ` m_clients m \<union> {CleanupFactory}
      \<union> CloseTunnel ` set_option (m_tunnel m) \<union> CloseServer ` set_option (m_server m)
    \<and> (err = None \<longleftrightarrow> (\<forall>a \<in> set as. closes a = None))
    \<and> m_server m' = None \<and> m_tunnel m' = None \<and> m_secret m' = None \<and> m_pairingURL m' = [] \<and> m_qr m' = []
    \<and> m_clients m' = {} \<and> detachedViewers m' = {} \<and> m_state m' = StateStopped
    \<and> Shutdown_op ord closes m' = (None, askShutdown m', [])
    \<and> (\<exists>e. start lib env m' = (Some e, m', []))"
proof -
  let ?c = "fst (clearLocked ord StateStopped [] ((askShutdown m)\<lparr>m_shutdown := True\<rparr>))"
  have c: "managerCleanup_close closes ?c = (err, as)" and m': "m_shutdown m'" "m_shutdownAsked m'"
      "m_server m' = None" "m_tunnel m' = None" "m_secret m' = None" "m_pairingURL m' = []" "m_qr m' = []"
      "m_clients m' = {}" "m_active m' = (\<lambda>_. None)" "m_opening m' = (\<lambda>_. None)" "m_state m' = StateStopped"
    using assms(3,4)
    by (auto simp: Shutdown_op_def finishShutdown_def clearLocked_def detachClientsLocked_def Let_def split: prod.splits)
  have "detachedViewers ((askShutdown m)\<lparr>m_shutdown := True\<rparr>) = detachedViewers m"
    by (simp add: detachedViewers_def)
  then have "set as = CloseViewer ` detachedViewers m \<union> CloseClient ` m_clients m \<union> {CleanupFactory}
      \<union> CloseTunnel ` set_option (m_tunnel m) \<union> CloseServer ` set_option (m_server m)"
    using managerCleanup_close_all [OF c] assms(1,2) by (auto simp: clearLocked_def split: option.splits)
  moreover have "\<exists>e. start lib env m' = (Some e, m', [])"
    using m'(1) by (auto simp: start_def beginStart_def split: option.splits)
  moreover have "Shutdown_op ord closes m' = (None, askShutdown m', [])" "detachedViewers m' = {}"
    using m' by (simp_all add: Shutdown_op_def finishShutdown_def detachedViewers_def)
  ultimately show ?thesis using m' managerCleanup_close_all [OF c] by auto
qed

theorem Shutdown_releases_everything_witness:
  "\<exists>err m' as. Shutdown_op sorted_list_of_set (\<lambda>_. Some (Msg [])) demo_ready = (err, m', as)
     \<and> set as = {CleanupFactory, CloseTunnel 2, CloseServer 1} \<and> err \<noteq> None \<and> m_server m' = None"
proof -
  have v: "detachedViewers demo_ready = {}" by (simp add: detachedViewers_def demo_ready_fields)
  obtain err m' as where s: "Shutdown_op sorted_list_of_set (\<lambda>_. Some (Msg [])) demo_ready = (err, m', as)" by (rule prod_cases3)
  have "set (sorted_list_of_set (detachedViewers demo_ready)) = detachedViewers demo_ready"
    "set (sorted_list_of_set (m_clients demo_ready)) = m_clients demo_ready" by (simp_all add: v demo_ready_fields)
  note r = Shutdown_releases_everything [OF this demo_ready_fields(9) s, where lib = demo_lib and env = ready_start]
  from r [THEN conjunct1] have as: "set as = {CleanupFactory, CloseTunnel 2, CloseServer 1}" by (auto simp: v demo_ready_fields)
  moreover have "err \<noteq> None" using r [THEN conjunct2, THEN conjunct1] as by auto
  moreover have "m_server m' = None" using r by blast
  ultimately show ?thesis using s by blast
qed

section \<open>Opening a viewer\<close>

lemma reserve_error:
  "m_opening m c \<noteq> Some o' \<Longrightarrow> reserve c o' s m = (Some e, m') \<Longrightarrow> m_opening m' c \<noteq> Some o'"
  by (auto simp: reserve_def split: if_splits option.splits)

lemma removeOpening_gone [simp]: "m_opening (removeOpening c o' m) c \<noteq> Some o'"
  by (simp add: removeOpening_def)

lemma attach_error: "attach c o' v m = (Some e, m') \<Longrightarrow> m_opening m' c \<noteq> Some o'"
  by (auto simp: attach_def split: if_splits)

lemma activate_error: "activate c o' v m = (Some e, m') \<Longrightarrow> m_opening m' c \<noteq> Some o'"
  by (auto simp: activate_def Let_def split: if_splits)

lemma activate_ok:
  "activate c o' v m = (None, m') \<Longrightarrow>
     m_active m' c = Some (o', v) \<and> m_opening m' c = None \<and> c \<in> m_clients m' \<and> m_state m' = StateReady"
  by (auto simp: activate_def Let_def split: if_splits)

definition open_actions :: "action list set" where
  "open_actions = {[], [PreparedViewer, ClosePrepared]} \<union> range (\<lambda>v. [PreparedViewer, StartViewer v, CloseViewer v])"

lemma open_viewer_result:
  assumes "open_viewer env c m = (r, m', as)" and "m_opening m c \<noteq> Some (oe_opening env)"
    and others: "\<forall>i m. m_opening m c \<noteq> Some (oe_opening env) \<longrightarrow> m_opening (oe_others env i m) c \<noteq> Some (oe_opening env)"
  shows "case r of
      Some e \<Rightarrow> as \<in> open_actions \<and> m_opening m' c \<noteq> Some (oe_opening env)
    | None \<Rightarrow> \<exists>v. as = [PreparedViewer, StartViewer v] \<and> m_active m' c = Some (oe_opening env, v) \<and> m_opening m' c = None
        \<and> c \<in> m_clients m' \<and> m_state m' = StateReady"
proof -
  let ?o = "oe_opening env" and ?m0 = "recordDiagnostic (oe_sink env) m"
  have m0: "m_opening (oe_others env 1 ?m0) c \<noteq> Some ?o" using others assms(2) by simp
  obtain r1 m1 where 1: "reserve c ?o (oe_sent env) (oe_others env 1 ?m0) = (r1, m1)" by (rule prod.exhaust)
  note run = assms(1) [unfolded open_viewer_def Let_def 1]
  show ?thesis
  proof (cases r1)
    case (Some e)
    then show ?thesis using run reserve_error [OF m0] 1 assms(2)
      by (auto simp: open_actions_def split: sum.splits option.splits prod.splits)
  next
    case None
    show ?thesis using run None assms(2)
      by (auto simp: open_actions_def split: sum.splits option.splits prod.splits
          dest: attach_error activate_error activate_ok)
  qed
qed

text \<open>C32: \<open>Connected\<close> leaves no half-open viewer: when it fails after the preparation of the viewer, what was
  prepared, or the viewer when it was already started, has been closed, the client's flag is
  cleared and the manager holds no opening attempt of this call; when it succeeds, exactly one
  viewer was started, nothing was closed and the viewer is the client's active one. This holds
  whatever others did between the locked sections, as long as they never invent an opening
  attempt or move this one to another client.\<close>

theorem Connected_no_half_open:
  assumes "Connected env c m = (r, m', as)" and "m_opening m c \<noteq> Some (oe_opening env)"
    and "\<forall>i m. m_opening m c \<noteq> Some (oe_opening env) \<longrightarrow> m_opening (oe_others env i m) c \<noteq> Some (oe_opening env)"
  shows "case r of
      Some e \<Rightarrow> as \<in> open_actions \<and> m_opening m' c \<noteq> Some (oe_opening env) \<and> (as \<noteq> [] \<longrightarrow> c \<notin> m_viewerOpen m')
    | None \<Rightarrow> \<exists>v. as = [PreparedViewer, StartViewer v] \<and> m_active m' c = Some (oe_opening env, v) \<and> m_opening m' c = None
        \<and> c \<in> m_clients m' \<and> m_state m' = StateReady"
proof (cases "admit c m")
  case (Pair x m1)
  have free: "m_opening m1 c \<noteq> Some (oe_opening env)"
    using Pair assms(2) by (auto simp: admit_def Let_def split: if_splits)
  obtain r2 m2 as2 where o: "open_viewer env c m1 = (r2, m2, as2)" by (rule prod_cases3)
  show ?thesis
    using assms(1) Pair o free open_viewer_result [OF o free assms(3)]
    by (cases x; cases r2) (auto simp: Connected_def open_actions_def)
qed

definition demo_open :: openEnv where
  "demo_open = \<lparr>oe_prepare = Inr (80, 24), oe_opening = 5, oe_sent = None, oe_start = Inr 9, oe_others = (\<lambda>_ m. m), oe_sink = True\<rparr>"

theorem Connected_no_half_open_witness:
  "\<exists>m'. Connected demo_open 7 demo_ready = (None, m', [PreparedViewer, StartViewer 9]) \<and> m_active m' 7 = Some (5, 9)"
proof -
  have f: "ValidateServerFrame TagReady (VReady \<lparr>ready_ID = hs_ID demo_session, ready_Generation = hs_Generation demo_session,
      ready_Columns = 80, ready_Rows = 24\<rparr>) = None" by code_simp
  obtain m' where m': "Connected demo_open 7 demo_ready = (None, m', [PreparedViewer, StartViewer 9])"
    by (simp add: Connected_def admit_def open_viewer_def demo_ready_fields demo_open_def Let_def f reserve_def attach_def
        activate_def)
  have "m_opening demo_ready 7 \<noteq> Some (oe_opening demo_open)"
    "\<forall>i m. m_opening m 7 \<noteq> Some (oe_opening demo_open) \<longrightarrow> m_opening (oe_others demo_open i m) 7 \<noteq> Some (oe_opening demo_open)"
    by (simp_all add: demo_open_def demo_ready_fields)
  from Connected_no_half_open [OF m' this] m' show ?thesis by (auto simp: demo_open_def)
qed

section \<open>A stale event\<close>

text \<open>
  \<open>watchTunnel\<close> publishes a snapshot it took before it wrote its diagnostic record: when the sink fails
  on this record, the warning is published and then the older snapshot without it.
\<close>

lemma watchTunnel_stale_event:
  assumes "m_tunnel m = Some t" and "\<not> m_shutdown m" and "m_diagnostics m" and "\<not> m_diagnosticsFailed m"
    and "m_diagnosticsWarning m = []" and "watchTunnel ord closes False t err m = (m', as)"
  shows "m_diagnosticsWarning m' = ''diagnostics unavailable'' \<and> sn_DiagnosticsWarning (last (m_events m')) = []"
  using assms
  by (auto simp: watchTunnel_def clearLocked_def detachClientsLocked_def Let_def recordDiagnostic_def publish_def
      publishSnapshot_def snapshotLocked_def split: prod.splits if_splits)

end
