(* ===== verification/Share_Service.thy ===== *)
theory Share_Service
  imports Share_Process Mirror_Manager
begin

text \<open>
  The worker of an instance, \<open>internal/share/service.go\<close>: the handler behind its control socket, which
  works on the instance store and on the mirror manager, and \<open>Run\<close>, which puts the parts together and
  takes them down again. The parts that \<open>Options\<close> has as functions (helper, mirror, control server,
  readiness report) are parameters of \<open>Run\<close>; the store is the one of the model.
\<close>

section \<open>The handler\<close>

primrec mirrorStateName :: "State \<Rightarrow> string" where
  "mirrorStateName StateStarting = ''starting''"
| "mirrorStateName StateReady = ''ready''"
| "mirrorStateName StateFailed = ''failed''"
| "mirrorStateName StateStopped = ''stopped''"

definition snapshotWarnings :: "Snapshot \<Rightarrow> string" where
  "snapshotWarnings s =
     JoinStr (filter (\<lambda>x. x \<noteq> []) [sn_DiagnosticsWarning s, sn_CleanupWarning s]) ''; ''"

definition statusOf :: "Record \<Rightarrow> Snapshot \<Rightarrow> nat \<Rightarrow> Status" where
  "statusOf r s clients =
     \<lparr>st_ID = r_ID r, st_Name = r_Name r, st_State = mirrorStateName (sn_State s), st_PairingURL = sn_PairingURL s,
      st_QR = sn_QR s, st_Directory = r_Directory r, st_Clients = clients, st_StartedAt = r_StartedAt r,
      st_Target = r_Target r, st_Warning = snapshotWarnings s\<rparr>"

text \<open>
  The state behind the handler: its fields, the file system and the manager; \<open>sh_canceled\<close> is whether
  \<open>cancel\<close> was called.
\<close>

record 'c service =
  sh_record :: Record
  sh_shutdown :: bool
  sh_canceled :: bool
  sh_files :: "'c world"
  sh_manager :: Manager

definition handler_Status :: "'c service \<Rightarrow> Status" where
  "handler_Status h = statusOf (sh_record h) (snapshotLocked (sh_manager h)) (ClientCount (sh_manager h))"

definition handler_Rename ::
    "'c encoder \<Rightarrow> 'c decoder \<Rightarrow> (rune \<Rightarrow> bool) \<Rightarrow> Store \<Rightarrow> string \<Rightarrow> ('c service, Status) io" where
  "handler_Rename enc dec up store name h =
     (case RenameIfPID enc dec up store (r_ID (sh_record h)) (r_PID (sh_record h)) name (sh_files h) of
        (Inl e, f) \<Rightarrow> (Inl e, h\<lparr>sh_files := f\<rparr>)
      | (Inr renamed, f) \<Rightarrow>
          if \<not> renamed then (Inl (Msg ''wrap instance ownership changed''), h\<lparr>sh_files := f\<rparr>)
          else let h' = h\<lparr>sh_files := f, sh_record := (sh_record h)\<lparr>r_Name := name\<rparr>\<rparr> in (Inr (handler_Status h'), h'))"

definition handler_Rotate :: "(nat set \<Rightarrow> nat list) \<Rightarrow> linkLib \<Rightarrow> rotateEnv \<Rightarrow> ('c service, Status) io" where
  "handler_Rotate ord lib env h =
     (if m_state (sh_manager h) \<noteq> StateReady then (Inl (Sentinel ErrNotReady), h)
      else case Rotate ord lib env (sh_manager h) of
        (Some e, m', _) \<Rightarrow> (Inl e, h\<lparr>sh_manager := m'\<rparr>)
      | (None, m', _) \<Rightarrow> (Inr (handler_Status (h\<lparr>sh_manager := m'\<rparr>)), h\<lparr>sh_manager := m'\<rparr>))"

definition handler_Shutdown :: "('c service, unit) io" where
  "handler_Shutdown h = (Inr (), h\<lparr>sh_shutdown := True, sh_canceled := True\<rparr>)"

definition shutdownRequested :: "'c service \<Rightarrow> bool" where
  "shutdownRequested h = sh_shutdown h"

definition serviceHandler ::
    "'c encoder \<Rightarrow> 'c decoder \<Rightarrow> (rune \<Rightarrow> bool) \<Rightarrow> Store \<Rightarrow> (nat set \<Rightarrow> nat list) \<Rightarrow> linkLib \<Rightarrow> rotateEnv \<Rightarrow> 'c service Handler" where
  "serviceHandler enc dec up store ord lib env =
     \<lparr>hd_Status = handler_Status, hd_Rename = handler_Rename enc dec up store, hd_Rotate = handler_Rotate ord lib env,
      hd_Shutdown = handler_Shutdown\<rparr>"

section \<open>Running\<close>

text \<open>
  The calls of \<open>Run\<close> in their order: what was set up, and what was taken down.
\<close>

datatype runEvent =
    LeaseAcquired | HelperCreated | MirrorCreated | MirrorStarted | ControlSeen | Published | ReadyReported
  | ControlStopped | MirrorShutdown | HelperClosed | Pruned | LeaseReleased | RecordRemoved

text \<open>
  The parts: \<open>'x\<close> is their common state. \<open>so_controlEnd\<close> is what the deferred function finds when it
  waits for the control server (\<open>None\<close>: nothing in five seconds).
\<close>

record ('x, 'hp, 'mi) parts =
  so_createHelper :: "Target \<Rightarrow> string \<Rightarrow> ('x, 'hp) io"
  so_closeHelper :: "'hp \<Rightarrow> ('x, unit) io"
  so_newMirror :: "'hp \<Rightarrow> Record \<Rightarrow> ('x, 'mi) io"
  so_startMirror :: "'mi \<Rightarrow> ('x, unit) io"
  so_shutdownMirror :: "'mi \<Rightarrow> ('x, unit) io"
  so_snapshot :: "'mi \<Rightarrow> 'x \<Rightarrow> Snapshot"
  so_clientCount :: "'mi \<Rightarrow> 'x \<Rightarrow> nat"
  so_controlEnd :: "gerror option option"
  so_ready :: "(Status \<Rightarrow> ('x, unit) io) option"

record ('c, 'x) runState =
  rs_files :: "'c world"
  rs_ext :: 'x
  rs_log :: "runEvent list"

definition noted :: "runEvent \<Rightarrow> ('c, 'x) runState \<Rightarrow> ('c, 'x) runState" where
  "noted e s = s\<lparr>rs_log := rs_log s @ [e]\<rparr>"

definition files :: "('c world, 'a) io \<Rightarrow> (('c, 'x) runState, 'a) io" where
  "files m s = (case m (rs_files s) of (r, f) \<Rightarrow> (r, s\<lparr>rs_files := f\<rparr>))"

definition ext :: "('x, 'a) io \<Rightarrow> (('c, 'x) runState, 'a) io" where
  "ext m s = (case m (rs_ext s) of (r, x) \<Rightarrow> (r, s\<lparr>rs_ext := x\<rparr>))"

text \<open>One look of \<open>waitForControl\<close> at the socket, and what the \<open>select\<close> then picks.\<close>

datatype probe = ProbeCtx gerror | ProbeEnded "gerror option" | ProbeTick

fun waitForControl :: "(bool \<times> probe) list \<Rightarrow> gerror option option" where
  "waitForControl [] = None"
| "waitForControl ((seen, p) # ps) =
     (if seen then Some None
      else case p of
        ProbeCtx e \<Rightarrow> Some (Some e)
      | ProbeEnded None \<Rightarrow> Some (Some (Msg ''wrap control server stopped before readiness''))
      | ProbeEnded (Some e) \<Rightarrow> Some (Some (Wrapf ''start Wrap control server: '' e))
      | ProbeTick \<Rightarrow> waitForControl ps)"

text \<open>What the main loop sees; the flag is \<open>handler.shutdownRequested()\<close> at that time.\<close>

datatype runSignal =
    RunCtxDone gerror bool
  | ControlEnded "gerror option" bool
  | MirrorEvent Snapshot
  | EventsClosed
  | Tick "gerror option"

fun run_loop :: "runSignal list \<Rightarrow> gerror option option" where
  "run_loop [] = None"
| "run_loop (RunCtxDone e asked # _) = Some (if asked then None else Some e)"
| "run_loop (ControlEnded err asked # _) =
     Some (case err of
             None \<Rightarrow> if asked then None else Some (Msg ''wrap control server stopped'')
           | Some e \<Rightarrow> Some (Wrapf ''wrap control server: '' e))"
| "run_loop (MirrorEvent s # ss) =
     (if sn_State s = StateFailed then Some (Some (Msg (if sn_Err s = [] then ''mirror failed'' else sn_Err s))) else run_loop ss)"
| "run_loop (EventsClosed # ss) = run_loop ss"
| "run_loop (Tick err # ss) =
     (case err of None \<Rightarrow> run_loop ss | Some e \<Rightarrow> Some (Some (Wrapf ''validate Wrap target: '' e)))"

text \<open>
  A function of \<open>Run\<close> that is about to return: \<open>retErr\<close>, \<open>cleanupErr\<close> and \<open>published\<close>. The deferred
  functions change them; \<open>None\<close> stands for a \<open>Run\<close> that has not returned yet.
\<close>

record ('c, 'x) returning =
  rt_err :: "gerror option"
  rt_cleanup :: "gerror option"
  rt_published :: bool
  rt_state :: "('c, 'x) runState"

definition returns :: "gerror option \<Rightarrow> bool \<Rightarrow> ('c, 'x) runState \<Rightarrow> ('c, 'x) returning option" where
  "returns err published s = Some \<lparr>rt_err = err, rt_cleanup = None, rt_published = published, rt_state = s\<rparr>"

definition joinCleanupError :: "gerror option \<Rightarrow> ('c, 'x) returning \<Rightarrow> ('c, 'x) returning" where
  "joinCleanupError err r =
     r\<lparr>rt_cleanup := errors_join [rt_cleanup r, err], rt_err := errors_join [rt_err r, err]\<rparr>"

definition deferCleanup ::
    "runEvent \<Rightarrow> (('c, 'x) runState, unit) io \<Rightarrow> ('c, 'x) returning option \<Rightarrow> ('c, 'x) returning option" where
  "deferCleanup ev op ret = map_option (\<lambda>r.
     case op (rt_state r) of (res, s) \<Rightarrow> joinCleanupError (errOf res) (r\<lparr>rt_state := noted ev s\<rparr>)) ret"

definition deferPrune ::
    "'c decoder \<Rightarrow> (rune \<Rightarrow> bool) \<Rightarrow> Store \<Rightarrow> ('c, 'x) returning option \<Rightarrow> ('c, 'x) returning option" where
  "deferPrune dec up store ret = map_option (\<lambda>r.
     case files (PruneCompletedArtifacts dec up store 32) (rt_state r) of
       (res, s) \<Rightarrow> r\<lparr>rt_err := errors_join [rt_err r, errOf res], rt_state := noted Pruned s\<rparr>) ret"

definition deferRemove ::
    "'c decoder \<Rightarrow> (rune \<Rightarrow> bool) \<Rightarrow> Store \<Rightarrow> Record \<Rightarrow> ('c, 'x) returning option \<Rightarrow> ('c, 'x) returning option" where
  "deferRemove dec up store rec ret = map_option (\<lambda>r.
     if \<not> rt_published r \<or> rt_cleanup r \<noteq> None then r
     else case files (RemoveIfPID dec up store (r_ID rec) (r_PID rec)) (rt_state r) of
       (res, s) \<Rightarrow> r\<lparr>rt_err := errors_join [rt_err r, errOf res], rt_state := noted RecordRemoved s\<rparr>) ret"

definition stopControl :: "gerror option option \<Rightarrow> (('c, 'x) runState, unit) io" where
  "stopControl end s =
     (case end of
        None \<Rightarrow> (Inl (Msg ''control server did not stop''), s)
      | Some None \<Rightarrow> (Inr (), s)
      | Some (Some e) \<Rightarrow> (if errors_is e ErrCanceled then Inr () else Inl e, s))"

text \<open>From the start of the control server on.\<close>

definition runServing ::
    "'c encoder \<Rightarrow> 'c decoder \<Rightarrow> (rune \<Rightarrow> bool) \<Rightarrow> (Target \<Rightarrow> string) \<Rightarrow> Store \<Rightarrow> ('x, 'hp, 'mi) parts \<Rightarrow> (bool \<times> probe) list
     \<Rightarrow> runSignal list \<Rightarrow> Record \<Rightarrow> 'mi \<Rightarrow> ('c, 'x) runState \<Rightarrow> ('c, 'x) returning option" where
  "runServing enc dec up key store parts probes signals rec mirror s =
     (case waitForControl probes of
        None \<Rightarrow> None
      | Some (Some e) \<Rightarrow> returns (Some e) False s
      | Some None \<Rightarrow>
          (case files (Store_Create enc dec up key store rec) (noted ControlSeen s) of
             (Inl e, s) \<Rightarrow> returns (Some (Wrapf ''publish Wrap instance: '' e)) False s
           | (Inr _, s) \<Rightarrow>
               let s = noted Published s;
                   reported = (case so_ready parts of
                     None \<Rightarrow> (Inr (), s)
                   | Some ready \<Rightarrow> ext (ready (statusOf rec (so_snapshot parts mirror (rs_ext s)) (so_clientCount parts mirror (rs_ext s)))) s)
               in (case reported of
                     (Inl e, s) \<Rightarrow> returns (Some (Wrapf ''report Wrap readiness: '' e)) True s
                   | (Inr _, s) \<Rightarrow>
                       (case run_loop signals of None \<Rightarrow> None | Some err \<Rightarrow> returns err True (noted ReadyReported s)))))"

text \<open>With a helper session: the mirror is made and started.\<close>

definition runMirror ::
    "'c encoder \<Rightarrow> 'c decoder \<Rightarrow> (rune \<Rightarrow> bool) \<Rightarrow> (Target \<Rightarrow> string) \<Rightarrow> Store \<Rightarrow> ('x, 'hp, 'mi) parts \<Rightarrow> (bool \<times> probe) list
     \<Rightarrow> runSignal list \<Rightarrow> Record \<Rightarrow> 'hp \<Rightarrow> ('c, 'x) runState \<Rightarrow> ('c, 'x) returning option" where
  "runMirror enc dec up key store parts probes signals rec helper s =
     (case ext (so_newMirror parts helper rec) s of
        (Inl e, s) \<Rightarrow> returns (Some (Wrapf ''create Wrap mirror: '' e)) False s
      | (Inr mirror, s) \<Rightarrow>
          deferCleanup MirrorShutdown (ext (so_shutdownMirror parts mirror))
            (case ext (so_startMirror parts mirror) (noted MirrorCreated s) of
               (Inl e, s) \<Rightarrow> returns (Some (Wrapf ''start Wrap mirror: '' e)) False s
             | (Inr _, s) \<Rightarrow>
                 deferCleanup ControlStopped (stopControl (so_controlEnd parts))
                   (runServing enc dec up key store parts probes signals rec mirror (noted MirrorStarted s))))"

text \<open>With the lease: the helper session is created.\<close>

definition runLeased ::
    "'c encoder \<Rightarrow> 'c decoder \<Rightarrow> (rune \<Rightarrow> bool) \<Rightarrow> (Target \<Rightarrow> string) \<Rightarrow> Store \<Rightarrow> ('x, 'hp, 'mi) parts \<Rightarrow> (bool \<times> probe) list
     \<Rightarrow> runSignal list \<Rightarrow> Record \<Rightarrow> ('c, 'x) runState \<Rightarrow> ('c, 'x) returning option" where
  "runLeased enc dec up key store parts probes signals rec s =
     (case ext (so_createHelper parts (r_Target rec) (r_ID rec)) s of
        (Inl e, s) \<Rightarrow> returns (Some (Wrapf ''create Wrap tmux helper: '' e)) False s
      | (Inr helper, s) \<Rightarrow>
          deferCleanup HelperClosed (ext (so_closeHelper parts helper))
            (runMirror enc dec up key store parts probes signals rec helper (noted HelperCreated s)))"

definition Run ::
    "'c encoder \<Rightarrow> 'c decoder \<Rightarrow> (rune \<Rightarrow> bool) \<Rightarrow> (Target \<Rightarrow> string) \<Rightarrow> Store \<Rightarrow> ('x, 'hp, 'mi) parts \<Rightarrow> (bool \<times> probe) list
     \<Rightarrow> runSignal list \<Rightarrow> int \<Rightarrow> Record \<Rightarrow> ('c, 'x) runState \<Rightarrow> ('c, 'x) returning option" where
  "Run enc dec up key store parts probes signals pid rec s =
     (let rec = rec\<lparr>r_PID := pid\<rparr> in
      case Record_Validate up rec of
        Some e \<Rightarrow> returns (Some (Wrapf ''validate Wrap instance: '' e)) False s
      | None \<Rightarrow>
          if s_StateRoot store = [] then returns (Some (Msg ''wrap instance store is required'')) False s
          else case ForRecord store rec of
            Inl e \<Rightarrow> returns (Some (Wrapf ''resolve Wrap worker runtime: '' e)) False s
          | Inr workerStore \<Rightarrow>
              (case files (AcquireLease workerStore (r_ID rec)) s of
                 (Inl e, s) \<Rightarrow> returns (Some (Wrapf ''acquire Wrap worker lease: '' e)) False s
               | (Inr lease, s) \<Rightarrow>
                   deferRemove dec up store rec
                     (deferCleanup LeaseReleased (files (Lease_Close lease))
                       (deferPrune dec up store
                         (runLeased enc dec up key store parts probes signals rec (noted LeaseAcquired s))))))"

section \<open>What is taken down\<close>

definition setup_order :: "runEvent list" where
  "setup_order = [LeaseAcquired, HelperCreated, MirrorCreated, MirrorStarted, ControlSeen, Published, ReadyReported]"

definition takedown :: "runEvent list \<Rightarrow> bool \<Rightarrow> runEvent list" where
  "takedown setup clean =
     (if MirrorStarted \<in> set setup then [ControlStopped] else [])
     @ (if MirrorCreated \<in> set setup then [MirrorShutdown] else [])
     @ (if HelperCreated \<in> set setup then [HelperClosed] else [])
     @ (if LeaseAcquired \<in> set setup then [Pruned, LeaseReleased] else [])
     @ (if Published \<in> set setup \<and> clean then [RecordRemoved] else [])"

text \<open>
  The log of a returning \<open>Run\<close> after the setup \<open>setup\<close> and the deferred calls \<open>tail\<close>; an error of a
  deferred cleanup is always part of the result.
\<close>

definition phase :: "runEvent list \<Rightarrow> runEvent list \<Rightarrow> runEvent list \<Rightarrow> ('c, 'x) returning \<Rightarrow> bool" where
  "phase log setup tail r \<longleftrightarrow> rs_log (rt_state r) = log @ setup @ tail \<and> (rt_published r \<longleftrightarrow> Published \<in> set setup)
     \<and> (rt_cleanup r \<noteq> None \<longrightarrow> rt_err r \<noteq> None)"

definition keeps_log :: "(('c, 'x) runState, 'a) io \<Rightarrow> bool" where
  "keeps_log op \<longleftrightarrow> (\<forall>s. rs_log (snd (op s)) = rs_log s)"

lemma keeps_log_parts [simp]: "keeps_log (files m)" "keeps_log (ext n)" "keeps_log (stopControl e)"
  by (auto simp: keeps_log_def files_def ext_def stopControl_def split: prod.splits option.splits)

lemma keeps_logD: "keeps_log op \<Longrightarrow> op s = (r, s') \<Longrightarrow> rs_log s' = rs_log s"
  unfolding keeps_log_def by (metis snd_conv)

lemmas part_log = keeps_logD [OF keeps_log_parts(1)] keeps_logD [OF keeps_log_parts(2)]

lemma noted_log [simp]: "rs_log (noted e s) = rs_log s @ [e]"
  by (simp add: noted_def)

lemma returns_phase: "returns err p s = Some r \<Longrightarrow> rs_log s = log @ setup \<Longrightarrow> p = (Published \<in> set setup) \<Longrightarrow> phase log setup [] r"
  by (auto simp: returns_def phase_def)

lemma errors_join_Some [simp]: "\<exists>y. errors_join [Some e, x] = Some y"
  using errors_join_None [of "[Some e, x]"] by (cases "errors_join [Some e, x]") auto

lemma deferCleanup_phase:
  assumes "deferCleanup ev op ret = Some r" and "keeps_log op" and "\<And>r0. ret = Some r0 \<Longrightarrow> phase log setup tail r0"
  shows "phase log setup (tail @ [ev]) r"
proof -
  obtain r0 where r0: "ret = Some r0" using assms(1) by (auto simp: deferCleanup_def)
  obtain res s where o: "op (rt_state r0) = (res, s)" by (rule prod.exhaust)
  have "errors_join [rt_cleanup r0, errOf res] \<noteq> None \<longrightarrow> errors_join [rt_err r0, errOf res] \<noteq> None"
    using assms(3) [OF r0] unfolding errors_join_None by (simp add: phase_def)
  moreover have r: "r = joinCleanupError (errOf res) (r0\<lparr>rt_state := noted ev s\<rparr>)"
    using assms(1) r0 by (simp add: deferCleanup_def o)
  ultimately show ?thesis
    using assms(3) [OF r0] keeps_logD [OF assms(2) o] unfolding r phase_def joinCleanupError_def by simp
qed

lemma deferPrune_phase:
  assumes "deferPrune dec up store ret = Some r" and "\<And>r0. ret = Some r0 \<Longrightarrow> phase log setup tail r0"
  shows "phase log setup (tail @ [Pruned]) r"
proof -
  obtain r0 where r0: "ret = Some r0" using assms(1) by (auto simp: deferPrune_def)
  then show ?thesis
    using assms(1) assms(2) [OF r0] by (auto simp: deferPrune_def phase_def simp del: not_None_eq dest: part_log split: prod.splits)
qed

lemma deferRemove_phase:
  assumes "deferRemove dec up store rec ret = Some r" and "\<And>r0. ret = Some r0 \<Longrightarrow> phase log setup tail r0"
  shows "phase log setup (tail @ (if Published \<in> set setup \<and> rt_cleanup r = None then [RecordRemoved] else [])) r"
proof -
  obtain r0 where r0: "ret = Some r0" using assms(1) by (auto simp: deferRemove_def)
  then show ?thesis
    using assms(1) assms(2) [OF r0]
    by (auto simp: deferRemove_def phase_def dest: part_log split: prod.splits if_splits)
qed

lemma runServing_phase:
  assumes "runServing enc dec up key store parts probes signals rec mirror s = Some r" and "rs_log s = log @ take 4 setup_order"
  shows "\<exists>n \<in> {4, 5, 6, 7}. phase log (take n setup_order) [] r"
  using assms
  by (auto simp: runServing_def Let_def setup_order_def phase_def returns_def split: option.splits prod.splits sum.splits
      dest!: part_log)

text \<open>A deferred call after a phase that is only known up to its setup.\<close>

lemma deferCleanup_phases:
  assumes "deferCleanup ev op ret = Some r" and "keeps_log op"
    and "\<And>r0. ret = Some r0 \<Longrightarrow> \<exists>n \<in> N. phase log (take n setup_order) (f n) r0"
  shows "\<exists>n \<in> N. phase log (take n setup_order) (f n @ [ev]) r"
proof -
  obtain r0 where r0: "ret = Some r0" using assms(1) by (auto simp: deferCleanup_def)
  then obtain n where n: "n \<in> N" "phase log (take n setup_order) (f n) r0" using assms(3) by blast
  have "phase log (take n setup_order) (f n @ [ev]) r"
    by (rule deferCleanup_phase [OF assms(1,2)]) (use r0 n(2) in simp)
  with n(1) show ?thesis by blast
qed

text \<open>The part of the takedown that belongs to the mirror and the helper.\<close>

definition mirror_down :: "nat \<Rightarrow> runEvent list" where
  "mirror_down n = (if 4 \<le> n then [ControlStopped] else []) @ (if 3 \<le> n then [MirrorShutdown] else [])"

lemma runMirror_phase:
  assumes "runMirror enc dec up key store parts probes signals rec helper s = Some r" and "rs_log s = log @ take 2 setup_order"
  shows "\<exists>n \<in> {2, 3, 4, 5, 6, 7}. phase log (take n setup_order) (mirror_down n) r"
proof -
  obtain x s1 where 1: "ext (so_newMirror parts helper rec) s = (x, s1)" by (rule prod.exhaust)
  have s1: "rs_log s1 = log @ take 2 setup_order" using part_log(2) [OF 1] assms(2) by simp
  show ?thesis
  proof (cases x)
    case (Inl e)
    then have "phase log (take 2 setup_order) [] r"
      using assms(1) 1 s1 by (intro returns_phase [where s = s1 and p = False]) (auto simp: runMirror_def setup_order_def)
    then show ?thesis by (intro bexI [of _ 2]) (simp_all add: mirror_down_def)
  next
    case (Inr mirror)
    obtain y s2 where 2: "ext (so_startMirror parts mirror) (noted MirrorCreated s1) = (y, s2)" by (rule prod.exhaust)
    have s2: "rs_log s2 = log @ take 3 setup_order" using part_log(2) [OF 2] s1 by (simp add: setup_order_def)
    let ?ret = "case y of Inl e \<Rightarrow> returns (Some (Wrapf ''start Wrap mirror: '' e)) False s2
        | Inr _ \<Rightarrow> deferCleanup ControlStopped (stopControl (so_controlEnd parts))
            (runServing enc dec up key store parts probes signals rec mirror (noted MirrorStarted s2))"
    have r: "deferCleanup MirrorShutdown (ext (so_shutdownMirror parts mirror)) ?ret = Some r"
      using assms(1) by (simp add: runMirror_def 1 2 Inr split: sum.split)
    have "\<exists>n \<in> {3, 4, 5, 6, 7}. phase log (take n setup_order) (if 4 \<le> n then [ControlStopped] else []) r0" if "?ret = Some r0" for r0
    proof (cases y)
      case (Inl e)
      then have "phase log (take 3 setup_order) [] r0"
        using that s2 by (intro returns_phase [where s = s2 and p = False]) (auto simp: setup_order_def)
      then show ?thesis by (intro bexI [of _ 3]) simp_all
    next
      case (Inr u)
      have "rs_log (noted MirrorStarted s2) = log @ take 4 setup_order" using s2 by (simp add: setup_order_def)
      note serving = runServing_phase [OF _ this]
      have "deferCleanup ControlStopped (stopControl (so_controlEnd parts))
          (runServing enc dec up key store parts probes signals rec mirror (noted MirrorStarted s2)) = Some r0"
        using that Inr by simp
      then have "\<exists>n \<in> {4, 5, 6, 7}. phase log (take n setup_order) ([] @ [ControlStopped]) r0"
        by (rule deferCleanup_phases [where f = "\<lambda>_. []"]) (simp, erule serving)
      then show ?thesis by auto
    qed
    from deferCleanup_phases [OF r _ this] have
      "\<exists>n \<in> {3, 4, 5, 6, 7}. phase log (take n setup_order) ((if 4 \<le> n then [ControlStopped] else []) @ [MirrorShutdown]) r" by simp
    then show ?thesis by (auto simp: mirror_down_def)
  qed
qed

lemma runLeased_phase:
  assumes "runLeased enc dec up key store parts probes signals rec s = Some r" and "rs_log s = log @ take 1 setup_order"
  shows "\<exists>n \<in> {1, 2, 3, 4, 5, 6, 7}. phase log (take n setup_order) (mirror_down n @ (if 2 \<le> n then [HelperClosed] else [])) r"
proof -
  obtain x s1 where 1: "ext (so_createHelper parts (r_Target rec) (r_ID rec)) s = (x, s1)" by (rule prod.exhaust)
  have s1: "rs_log s1 = log @ take 1 setup_order" using part_log(2) [OF 1] assms(2) by simp
  show ?thesis
  proof (cases x)
    case (Inl e)
    then have "phase log (take 1 setup_order) [] r"
      using assms(1) 1 s1 by (intro returns_phase [where s = s1 and p = False]) (auto simp: runLeased_def setup_order_def)
    then show ?thesis by (intro bexI [of _ 1]) (simp_all add: mirror_down_def)
  next
    case (Inr helper)
    have l: "rs_log (noted HelperCreated s1) = log @ take 2 setup_order" using s1 by (simp add: setup_order_def)
    have "deferCleanup HelperClosed (ext (so_closeHelper parts helper))
        (runMirror enc dec up key store parts probes signals rec helper (noted HelperCreated s1)) = Some r"
      using assms(1) by (simp add: runLeased_def 1 Inr)
    from deferCleanup_phases [OF this _ runMirror_phase [OF _ l]] show ?thesis by auto
  qed
qed

lemma takedown_take:
  "n \<in> {1, 2, 3, 4, 5, 6, 7} \<Longrightarrow> takedown (take n setup_order) clean =
     (((mirror_down n @ (if 2 \<le> n then [HelperClosed] else [])) @ [Pruned]) @ [LeaseReleased])
     @ (if Published \<in> set (take n setup_order) \<and> clean then [RecordRemoved] else [])"
  by (auto simp: takedown_def mirror_down_def setup_order_def)


section \<open>Requests take effect\<close>

text \<open>C35: A rename request that is answered with a status has taken effect everywhere: the answer carries the
  new name, the handler has it, and exactly the stored record of this process was renamed; one that
  is answered with an error leaves the handler's record as it is. The mirror is not touched.\<close>

theorem rename_request_takes_effect:
  assumes "json_codec enc dec"
    and "Server_handle decR (serviceHandler enc dec up store ord lib env) i input h = (resp, stop, h')"
    and "readRequest decR input = Inr q" and "q_Action q = ActionRename" and "q_InstanceID q = i"
  shows "(case resp of
      RespStatus st \<Rightarrow> st_Name st = q_Name q \<and> sh_record h' = (sh_record h)\<lparr>r_Name := q_Name q\<rparr>
        \<and> (\<exists>c. stored dec up store (sh_files h) (r_ID (sh_record h)) = Some c \<and> r_PID c = r_PID (sh_record h)
             \<and> stored dec up store (sh_files h') =
                 (stored dec up store (sh_files h))(r_ID (sh_record h) \<mapsto> c\<lparr>r_Name := q_Name q\<rparr>))
    | RespError _ \<Rightarrow> sh_record h' = sh_record h)
    \<and> sh_manager h' = sh_manager h \<and> \<not> stop" (is "?effect \<and> ?rest")
proof -
  obtain x f where x: "RenameIfPID enc dec up store (r_ID (sh_record h)) (r_PID (sh_record h)) (q_Name q) (sh_files h) = (x, f)"
    by (rule prod.exhaust)
  have run: "(resp, stop, h') = respond (handler_Rename enc dec up store (q_Name q) h)"
    using assms(2-5) by (simp add: Server_handle_def serviceHandler_def ActionStatus_def ActionRename_def)
  have ?effect
  proof (cases x)
    case (Inr renamed)
    then show ?thesis
      using run RenameIfPID_result [OF assms(1) x [unfolded Inr]]
      by (cases renamed) (auto simp: respond_def handler_Rename_def x Let_def handler_Status_def statusOf_def)
  qed (use run in \<open>auto simp: respond_def handler_Rename_def x\<close>)
  moreover have ?rest
    using run by (auto simp: respond_def handler_Rename_def x Let_def split: sum.splits if_splits)
  ultimately show ?thesis ..
qed

text \<open>A rotate request that is answered with a status has rotated: the link in the answer is the one made
  from the secret the manager now has, the answer counts no clients, and the record is untouched.
  When the mirror is not ready, the answer says so and nothing changes.\<close>

theorem rotate_request_takes_effect:
  assumes "Server_handle decR (serviceHandler enc dec up store ord lib env) i input h = (resp, stop, h')"
    and "readRequest decR input = Inr q" and "q_Action q = ActionRotate" and "q_InstanceID q = i"
  shows "(case resp of
      RespStatus st \<Rightarrow> m_state (sh_manager h) = StateReady \<and> st_Clients st = 0 \<and> st_State st = ''ready''
        \<and> (\<exists>secret. m_secret (sh_manager h') = Some secret
             \<and> linkOf lib (m_publicURL (sh_manager h)) secret = Inr (st_PairingURL st))
    | RespError e \<Rightarrow> m_state (sh_manager h) \<noteq> StateReady \<longrightarrow> ce_Code e = CodeNotReady \<and> h' = h)
    \<and> sh_record h' = sh_record h \<and> sh_files h' = sh_files h \<and> \<not> stop"
proof -
  obtain x m' as where x: "Rotate ord lib env (sh_manager h) = (x, m', as)" by (rule prod_cases3)
  have rot: "x = None \<Longrightarrow> m_clients m' = {} \<and> m_state m' = StateReady
      \<and> (\<exists>secret. m_secret m' = Some secret \<and> linkOf lib (m_publicURL (sh_manager h)) secret = Inr (m_pairingURL m'))"
    using x by (auto simp: Rotate_def Let_def commitRotate_def detachClientsLocked_def closeViewers_def
        split: if_splits sum.splits option.splits)
  have "(resp, stop, h') = respond (handler_Rotate ord lib env h)"
    using assms(1-4) by (simp add: Server_handle_def serviceHandler_def ActionStatus_def ActionRename_def ActionRotate_def)
  then show ?thesis
    using rot
    by (cases x; cases "m_state (sh_manager h) = StateReady")
       (auto simp: respond_def handler_Rotate_def x handler_Status_def statusOf_def snapshotLocked_def ClientCount_def
         responseError_def)
qed

section \<open>Examples\<close>

definition demo_service :: "Manager \<Rightarrow> Record service" where
  "demo_service m = \<lparr>sh_record = demo_record, sh_shutdown = False, sh_canceled = False, sh_files = demo_final, sh_manager = m\<rparr>"

definition demo_action :: "string \<Rightarrow> string \<Rightarrow> Request" where
  "demo_action a name = \<lparr>q_InstanceID = ''abcdef01'', q_Action = a, q_Name = name\<rparr>"

lemma demo_action_read:
  assumes "Request_validate (demo_action a name) = None"
  shows "readRequest (\<lambda>_. Inr (demo_action a name, AtEOF)) [newline] = Inr (demo_action a name)"
  by (simp add: readRequest_def read_line_def assms MaxRequestBytes_def)

theorem rename_request_takes_effect_witness:
  "\<exists>st h'. Server_handle (\<lambda>_. Inr (demo_action ActionRename ''web'', AtEOF))
      (serviceHandler demo_enc demo_dec (\<lambda>_. False) demo_store sorted_list_of_set demo_lib demo_rotate) ''abcdef01'' [newline]
      (demo_service demo_manager) = (RespStatus st, False, h') \<and> st_Name st = ''web''"
proof -
  let ?hnd = "serviceHandler demo_enc demo_dec (\<lambda>_. False) demo_store sorted_list_of_set demo_lib demo_rotate"
  have "Request_validate (demo_action ActionRename ''web'') = None" by code_simp
  note rd = demo_action_read [OF this]
  have q: "q_Action (demo_action ActionRename ''web'') = ActionRename" "q_InstanceID (demo_action ActionRename ''web'') = ''abcdef01''"
      "q_Name (demo_action ActionRename ''web'') = ''web''" by (simp_all add: demo_action_def)
  obtain resp stop h' where r: "Server_handle (\<lambda>_. Inr (demo_action ActionRename ''web'', AtEOF)) ?hnd ''abcdef01'' [newline]
      (demo_service demo_manager) = (resp, stop, h')" by (rule prod_cases3)
  have "r_PID demo_record = 77" by (simp add: demo_record_def)
  moreover have "ActionRename \<noteq> ActionStatus" by (simp add: ActionRename_def ActionStatus_def)
  ultimately have "\<exists>st. resp = RespStatus st"
    using r demo_rename
    by (auto simp: Server_handle_def rd q serviceHandler_def handler_Rename_def demo_service_def demo_id respond_def Let_def)
  then obtain st where st: "resp = RespStatus st" ..
  from rename_request_takes_effect [OF demo_codec r rd q(1,2)] show ?thesis using r unfolding st q(3) by auto
qed

theorem rotate_request_takes_effect_witness:
  "\<exists>e. Server_handle (\<lambda>_. Inr (demo_action ActionRotate [], AtEOF))
      (serviceHandler demo_enc demo_dec (\<lambda>_. False) demo_store sorted_list_of_set demo_lib demo_rotate) ''abcdef01'' [newline]
      (demo_service demo_manager) = (RespError e, False, demo_service demo_manager) \<and> ce_Code e = CodeNotReady"
proof -
  let ?hnd = "serviceHandler demo_enc demo_dec (\<lambda>_. False) demo_store sorted_list_of_set demo_lib demo_rotate"
  have "Request_validate (demo_action ActionRotate []) = None" by code_simp
  note rd = demo_action_read [OF this]
  have q: "q_Action (demo_action ActionRotate []) = ActionRotate" "q_InstanceID (demo_action ActionRotate []) = ''abcdef01''"
    by (simp_all add: demo_action_def)
  obtain resp stop h' where r: "Server_handle (\<lambda>_. Inr (demo_action ActionRotate [], AtEOF)) ?hnd ''abcdef01'' [newline]
      (demo_service demo_manager) = (resp, stop, h')" by (rule prod_cases3)
  have n: "m_state (sh_manager (demo_service demo_manager)) \<noteq> StateReady" by (simp add: demo_service_def demo_manager_fields)
  note t = rotate_request_takes_effect [OF r rd q]
  show ?thesis using t r n by (cases resp) auto
qed

text \<open>A run whose helper session cannot be created.\<close>

definition no_helper :: "(unit, unit, unit) parts" where
  "no_helper = \<lparr>so_createHelper = (\<lambda>_ _. failE (Ext ''no server'')), so_closeHelper = (\<lambda>_. returnE ()), so_newMirror = (\<lambda>_ _. returnE ()),
     so_startMirror = (\<lambda>_. returnE ()), so_shutdownMirror = (\<lambda>_. returnE ()), so_snapshot = (\<lambda>_ _. snapshotLocked demo_manager),
     so_clientCount = (\<lambda>_ _. 0), so_controlEnd = None, so_ready = None\<rparr>"

definition demo_run :: "(Record, unit) returning option" where
  "demo_run = Run demo_enc demo_dec (\<lambda>_. False) key_text demo_store no_helper [] [] 77 demo_record
     \<lparr>rs_files = demo_world, rs_ext = (), rs_log = []\<rparr>"

lemma demo_run_log: "map_option (\<lambda>r. rs_log (rt_state r)) demo_run = Some [LeaseAcquired, Pruned, LeaseReleased]"
proof -
  have "demo_record\<lparr>r_PID := 77\<rparr> = demo_record" by (simp add: demo_record_def)
  then show ?thesis
    unfolding demo_run_def Run_def Let_def by (simp only: demo_valid option.case) code_simp
qed


end
