(* ===== verification/Server_Lifecycle.thy ===== *)
theory Server_Lifecycle
  imports Mirror_Server
begin

text \<open>
  Starting and closing the local mirror server, \<open>internal/mirror/server.go\<close>: \<open>StartLocalServer\<close>, the
  goroutine \<open>runRemoteDiagnostics\<close>, and any number of concurrent \<open>Close\<close> calls next to the WebSocket
  handlers of the theory \<open>Mirror_Server\<close>. Close call number 0 is the one of the goroutine that waits for
  the server's context; its own context is never done. Of \<open>net/http\<close> the model uses what the
  documentation of \<open>Server.Shutdown\<close> promises: when it returns nil, no request is served outside
  hijacked connections (here: a handler before its upgrade) and none will be.
\<close>

section \<open>State\<close>

datatype reporterPhase = Looping | Draining | Drained

text \<open>Where a \<open>Close\<close> call is: before it, after \<open>cancel\<close>, after \<open>Shutdown\<close>, after the handlers have ended, after
  the reporter was told to stop, returned.\<close>

datatype closePhase =
    NotCalled
  | Canceled
  | Shut "gerror option"
  | Waited "gerror option"
  | Stopped "gerror option"
  | Returned "gerror option"

record serverLife =
  lf_sys :: serverSystem
  lf_canceled :: bool
  lf_serving :: bool
  lf_reporter :: reporterPhase
  lf_emitted :: "DiagnosticRecord list"
  lf_announced :: "nat set"
  lf_stopOnce :: bool
  lf_closes :: "nat \<Rightarrow> closePhase"

abbreviation lf_diagnostics :: "serverLife \<Rightarrow> remoteDiagnostics" where
  "lf_diagnostics l \<equiv> ls_diagnostics (sv_server (lf_sys l))"

definition with_diagnostics :: "remoteDiagnostics \<Rightarrow> serverSystem \<Rightarrow> serverSystem" where
  "with_diagnostics d y = y\<lparr>sv_server := (sv_server y)\<lparr>ls_diagnostics := d\<rparr>\<rparr>"

definition serverRecord :: "string \<Rightarrow> string \<Rightarrow> DiagnosticRecord" where
  "serverRecord component event =
     \<lparr>d_Level = ''info'', d_Component = component, d_Event = event, d_Code = [], d_Path = [], d_ViewerGeometry = None\<rparr>"

text \<open>\<open>emitDiagnostic(s.record, event)\<close>; the recorder of the model keeps what it is given.\<close>

definition report :: "DiagnosticRecord \<Rightarrow> serverLife \<Rightarrow> serverLife" where
  "report r l = l\<lparr>lf_emitted :=
     emitDiagnostic (if rd_record (lf_diagnostics l) then Some (\<lambda>r rs. rs @ [r]) else None) r (lf_emitted l)\<rparr>"

section \<open>Operations\<close>

definition startLocalServer :: "gerror option \<Rightarrow> Secret \<Rightarrow> string \<Rightarrow> bool \<Rightarrow> gerror + serverLife" where
  "startLocalServer listenErr secret publicHost recording =
     (case listenErr of
        Some e \<Rightarrow> Inl (Wrapf ''listen for mirror server: '' e)
      | None \<Rightarrow>
          let y = \<lparr>sv_server = StartLocalServer secret publicHost recording, sv_phase = (\<lambda>_. Finished), sv_next = 0,
                   sv_pending = {}, sv_closed = {}, sv_secrets = [secret]\<rparr>
          in Inr (report (serverRecord ''server'' ''started'')
               \<lparr>lf_sys = y, lf_canceled = False, lf_serving = True, lf_reporter = Looping, lf_emitted = [],
                lf_announced = {}, lf_stopOnce = False, lf_closes = (\<lambda>_. NotCalled)\<rparr>))"

text \<open>One turn of \<open>runRemoteDiagnostics\<close>: a record of the queue, or the signal to stop; after the signal the
  rest of the queue and then the end. The turn is \<open>None\<close> while it blocks. \<open>stopFirst\<close> is the choice of \<open>select\<close>
  when both are ready.\<close>

definition reporterTurn :: "bool \<Rightarrow> serverLife \<Rightarrow> serverLife option" where
  "reporterTurn stopFirst l =
     (let d = lf_diagnostics l in
      case lf_reporter l of
        Looping \<Rightarrow>
          if rd_stopped d \<and> (stopFirst \<or> rd_queue d = []) then Some (l\<lparr>lf_reporter := Draining\<rparr>)
          else (case emitNext d of
             (None, _) \<Rightarrow> None
           | (Some r, d') \<Rightarrow> Some ((report r l)\<lparr>lf_sys := with_diagnostics d' (lf_sys l)\<rparr>))
      | Draining \<Rightarrow>
          (case emitNext d of
             (None, _) \<Rightarrow> Some (l\<lparr>lf_reporter := Drained\<rparr>)
           | (Some r, d') \<Rightarrow> Some ((report r l)\<lparr>lf_sys := with_diagnostics d' (lf_sys l)\<rparr>))
      | Drained \<Rightarrow> None)"

text \<open>A handler that \<open>Shutdown\<close> waits for: its connection is not yet hijacked by the upgrade.\<close>

fun beforeUpgrade :: "phase \<Rightarrow> bool" where
  "beforeUpgrade Entered = True"
| "beforeUpgrade Holding = True"
| "beforeUpgrade (Captured _ _ _) = True"
| "beforeUpgrade _ = False"

definition closeAt :: "nat \<Rightarrow> closePhase \<Rightarrow> serverLife \<Rightarrow> serverLife" where
  "closeAt j p l = l\<lparr>lf_closes := (lf_closes l)(j := p)\<rparr>"

text \<open>The pieces of \<open>Close\<close>, in order; \<open>ctxErr\<close> is the error of a context that is done before the wait is over.\<close>

definition closeCancel :: "nat \<Rightarrow> serverLife \<Rightarrow> serverLife" where
  "closeCancel j l = closeAt j Canceled (l\<lparr>lf_canceled := True\<rparr>)"

definition closeShutdown :: "nat \<Rightarrow> gerror option \<Rightarrow> serverLife \<Rightarrow> serverLife" where
  "closeShutdown j err l = closeAt j (Shut err) (if err = None then l\<lparr>lf_serving := False\<rparr> else l)"

definition closeHandlers :: "nat \<Rightarrow> gerror option \<Rightarrow> gerror option \<Rightarrow> serverLife \<Rightarrow> serverLife" where
  "closeHandlers j ctxErr err l =
     (case ctxErr of
        None \<Rightarrow> closeAt j (Waited err) l
      | Some e \<Rightarrow> closeAt j (Returned (errors_join [err, Some (Wrapf ''wait for mirror WebSocket handlers: '' e)])) l)"

definition closeStop :: "nat \<Rightarrow> gerror option \<Rightarrow> serverLife \<Rightarrow> serverLife" where
  "closeStop j err l =
     closeAt j (Stopped err) (l\<lparr>lf_sys := with_diagnostics (stopRemoteDiagnostics (lf_diagnostics l)) (lf_sys l)\<rparr>)"

definition closeDrained :: "nat \<Rightarrow> gerror option \<Rightarrow> gerror option \<Rightarrow> serverLife \<Rightarrow> serverLife" where
  "closeDrained j ctxErr err l =
     (case ctxErr of
        None \<Rightarrow> closeAt j (Returned err)
          (if lf_stopOnce l then l else (report (serverRecord ''server'' ''stopped'') l)\<lparr>lf_stopOnce := True\<rparr>)
      | Some e \<Rightarrow> closeAt j (Returned (errors_join [err, Some (Wrapf ''drain mirror diagnostics: '' e)])) l)"

section \<open>Everything at once\<close>

inductive life_step :: "serverLife \<Rightarrow> serverLife \<Rightarrow> bool" where
  lf_handler: "handler_step (lf_sys l) y \<Longrightarrow> lf_serving l \<or> sv_next y = sv_next (lf_sys l) \<Longrightarrow> life_step l (l\<lparr>lf_sys := y\<rparr>)"
| lf_announce: "sv_phase (lf_sys l) i = Registered secret version \<Longrightarrow> i \<notin> lf_announced l \<Longrightarrow>
     life_step l ((report (serverRecord ''handshake'' ''authenticated'') l)\<lparr>lf_announced := insert i (lf_announced l)\<rparr>)"
| lf_turn: "reporterTurn stopFirst l = Some l' \<Longrightarrow> life_step l l'"
| lf_cancel: "life_step l (l\<lparr>lf_canceled := True\<rparr>)"
| lf_close: "lf_closes l j = NotCalled \<Longrightarrow> j = 0 \<longrightarrow> lf_canceled l \<Longrightarrow> life_step l (closeCancel j l)"
| lf_shutdown: "lf_closes l j = Canceled \<Longrightarrow> err = None \<longrightarrow> (\<forall>i. \<not> beforeUpgrade (sv_phase (lf_sys l) i)) \<Longrightarrow>
     life_step l (closeShutdown j err l)"
| lf_handlers: "lf_closes l j = Shut err \<Longrightarrow> \<forall>i. sv_phase (lf_sys l) i = Finished \<Longrightarrow> life_step l (closeHandlers j None err l)"
| lf_handlers_late: "lf_closes l j = Shut err \<Longrightarrow> j \<noteq> 0 \<Longrightarrow> life_step l (closeHandlers j (Some e) err l)"
| lf_stop: "lf_closes l j = Waited err \<Longrightarrow> life_step l (closeStop j err l)"
| lf_drained: "lf_closes l j = Stopped err \<Longrightarrow> lf_reporter l = Drained \<Longrightarrow> life_step l (closeDrained j None err l)"
| lf_drained_late: "lf_closes l j = Stopped err \<Longrightarrow> j \<noteq> 0 \<Longrightarrow> life_step l (closeDrained j (Some e) err l)"

definition life_init :: "serverLife \<Rightarrow> bool" where
  "life_init l \<longleftrightarrow> (\<exists>secret publicHost recording. startLocalServer None secret publicHost recording = Inr l)"


section \<open>The invariant\<close>

abbreviation quiet :: "serverSystem \<Rightarrow> bool" where
  "quiet y \<equiv> \<forall>i. sv_phase y i = Finished"

definition isStopped :: "DiagnosticRecord \<Rightarrow> bool" where
  "isStopped r \<longleftrightarrow> d_Event r = ''stopped''"

fun closing_ok :: "serverLife \<Rightarrow> closePhase \<Rightarrow> bool" where
  "closing_ok l NotCalled = True"
| "closing_ok l Canceled = lf_canceled l"
| "closing_ok l (Shut e) = (lf_canceled l \<and> (e = None \<longrightarrow> \<not> lf_serving l))"
| "closing_ok l (Waited e) = (lf_canceled l \<and> (e = None \<longrightarrow> \<not> lf_serving l \<and> quiet (lf_sys l)))"
| "closing_ok l (Stopped e) = (lf_canceled l \<and> rd_stopped (lf_diagnostics l)
     \<and> (e = None \<longrightarrow> \<not> lf_serving l \<and> quiet (lf_sys l)))"
| "closing_ok l (Returned e) = (lf_canceled l
     \<and> (e = None \<longrightarrow> \<not> lf_serving l \<and> quiet (lf_sys l) \<and> lf_reporter l = Drained \<and> lf_stopOnce l))"

definition reporter_ok :: "serverLife \<Rightarrow> bool" where
  "reporter_ok l \<longleftrightarrow> (lf_reporter l \<noteq> Looping \<longrightarrow> rd_stopped (lf_diagnostics l))
     \<and> (lf_reporter l = Drained \<longrightarrow> rd_queue (lf_diagnostics l) = [])"

definition records_ok :: "serverLife \<Rightarrow> bool" where
  "records_ok l \<longleftrightarrow> list_all (\<lambda>r. \<not> isStopped r) (rd_queue (lf_diagnostics l))
     \<and> length (filter isStopped (lf_emitted l)) = of_bool (lf_stopOnce l \<and> rd_record (lf_diagnostics l))"

definition life_inv :: "serverLife \<Rightarrow> bool" where
  "life_inv l \<longleftrightarrow> server_inv (lf_sys l) \<and> (\<not> lf_serving l \<longrightarrow> (\<forall>i. \<not> beforeUpgrade (sv_phase (lf_sys l) i)))
     \<and> (\<forall>j. closing_ok l (lf_closes l j)) \<and> reporter_ok l \<and> records_ok l"

text \<open>What the handlers do to the queue: they file at most one record, never that of the end of the server.\<close>

definition files :: "remoteDiagnostics \<Rightarrow> remoteDiagnostics \<Rightarrow> bool" where
  "files d d' \<longleftrightarrow> d' = d \<or> (\<exists>now key r. \<not> isStopped r \<and> d' = recordRemoteDiagnostic now key r d)"

lemma files_record: "\<not> isStopped r \<Longrightarrow> files d (recordRemoteDiagnostic now key r d)"
  unfolding files_def by blast

lemma files_simps [simp]:
  "files d d" "files d (recordHandshakeRejection now cd d)" "files d (recordMissingAsset now name d)"
  "ls_diagnostics (rejected now cd s) = recordHandshakeRejection now cd (ls_diagnostics s)"
proof -
  show "files d (recordHandshakeRejection now cd d)" unfolding recordHandshakeRejection_def
    by (rule files_record) (simp add: isStopped_def)
  show "files d (recordMissingAsset now name d)" unfolding recordMissingAsset_def
    by (cases "requiredMirrorAsset name") (simp_all add: files_record isStopped_def, simp add: files_def)
qed (simp_all add: files_def rejected_def)

lemma handler_diagnostics: "handler_step y y' \<Longrightarrow> files (ls_diagnostics (sv_server y)) (ls_diagnostics (sv_server y'))"
  by (cases rule: handler_step.cases)
     (auto simp: move_def piece_defs SetSecret_def SetPublicHost_def)

lemma recordRemoteDiagnostic_fields [simp]:
  "rd_record (recordRemoteDiagnostic now key r d) = rd_record d"
  "rd_stopped (recordRemoteDiagnostic now key r d) = rd_stopped d"
  "rd_stopped d \<Longrightarrow> rd_queue (recordRemoteDiagnostic now key r d) = rd_queue d"
  by (simp_all add: recordRemoteDiagnostic_def)

lemma recordRemoteDiagnostic_queue:
  "list_all P (rd_queue d) \<Longrightarrow> P r \<Longrightarrow> list_all P (rd_queue (recordRemoteDiagnostic now key r d))"
  by (simp add: recordRemoteDiagnostic_def)

lemma handler_keeps:
  assumes "handler_step y y'"
  shows "rd_record (ls_diagnostics (sv_server y')) = rd_record (ls_diagnostics (sv_server y))"
    and "rd_stopped (ls_diagnostics (sv_server y')) = rd_stopped (ls_diagnostics (sv_server y))"
    and "rd_stopped (ls_diagnostics (sv_server y)) \<Longrightarrow>
      rd_queue (ls_diagnostics (sv_server y')) = rd_queue (ls_diagnostics (sv_server y))"
    and "list_all (\<lambda>r. \<not> isStopped r) (rd_queue (ls_diagnostics (sv_server y))) \<Longrightarrow>
      list_all (\<lambda>r. \<not> isStopped r) (rd_queue (ls_diagnostics (sv_server y')))"
  using handler_diagnostics [OF assms] unfolding files_def by (auto intro: recordRemoteDiagnostic_queue)

lemma handler_quiet: "handler_step y y' \<Longrightarrow> sv_next y' = sv_next y \<Longrightarrow> quiet y \<Longrightarrow> quiet y'"
  by (cases rule: handler_step.cases) (force simp: move_def)+

lemma handler_upgrade:
  assumes "handler_step y y'" and "sv_next y' = sv_next y" and "\<forall>i. \<not> beforeUpgrade (sv_phase y i)"
  shows "\<forall>i. \<not> beforeUpgrade (sv_phase y' i)"
proof -
  have n: "sv_phase y i \<noteq> Entered" "sv_phase y i \<noteq> Holding" "sv_phase y i \<noteq> Captured host secret version" for i host secret version
    using assms(3) by (metis beforeUpgrade.simps)+
  show ?thesis using assms(1) by cases (use assms(2,3) n in \<open>auto simp: move_def piece_defs\<close>)
qed

text \<open>What the close calls rely on only grows: cancellation, the end of serving, the end of the handlers, the end of
  the reporter.\<close>

definition further :: "serverLife \<Rightarrow> serverLife \<Rightarrow> bool" where
  "further l l' \<longleftrightarrow> (lf_canceled l \<longrightarrow> lf_canceled l') \<and> (lf_serving l' \<longrightarrow> lf_serving l)
     \<and> (\<not> lf_serving l \<longrightarrow> quiet (lf_sys l) \<longrightarrow> quiet (lf_sys l'))
     \<and> (rd_stopped (lf_diagnostics l) \<longrightarrow> rd_stopped (lf_diagnostics l'))
     \<and> (lf_reporter l = Drained \<longrightarrow> lf_reporter l' = Drained) \<and> (lf_stopOnce l \<longrightarrow> lf_stopOnce l')"

lemma closing_further: "further l l' \<Longrightarrow> closing_ok l p \<Longrightarrow> closing_ok l' p"
  by (cases p) (auto simp: further_def)

lemma closes_further:
  "further l l' \<Longrightarrow> lf_closes l' = lf_closes l \<Longrightarrow> \<forall>j. closing_ok l (lf_closes l j) \<Longrightarrow> \<forall>j. closing_ok l' (lf_closes l' j)"
  by (simp add: closing_further)

lemmas life_defs = life_inv_def reporter_ok_def records_ok_def

lemma closeAt_inv: "life_inv l \<Longrightarrow> closing_ok l p \<Longrightarrow> life_inv (closeAt j p l)"
proof -
  assume l: "life_inv l" "closing_ok l p"
  have f: "further l (closeAt j p l)" by (simp add: further_def closeAt_def)
  have "closing_ok (closeAt j p l) (lf_closes (closeAt j p l) k)" for k
    using l closing_further [OF f] by (simp add: closeAt_def life_inv_def)
  then show ?thesis using l(1) by (simp add: life_inv_def closeAt_def reporter_ok_def records_ok_def)
qed

lemma report_fields [simp]:
  "lf_sys (report r l) = lf_sys l" "lf_canceled (report r l) = lf_canceled l" "lf_serving (report r l) = lf_serving l"
  "lf_reporter (report r l) = lf_reporter l" "lf_stopOnce (report r l) = lf_stopOnce l" "lf_closes (report r l) = lf_closes l"
  "lf_announced (report r l) = lf_announced l"
  "lf_emitted (report r l) = lf_emitted l @ (if rd_record (lf_diagnostics l) then [r] else [])"
  by (simp_all add: report_def emitDiagnostic_def)

lemma with_diagnostics_fields [simp]:
  "sv_phase (with_diagnostics d y) = sv_phase y" "ls_diagnostics (sv_server (with_diagnostics d y)) = d"
  "server_inv (with_diagnostics d y) = server_inv y"
  by (simp_all add: with_diagnostics_def diagnostics_inv)

lemma serverRecord_stopped [simp]: "isStopped (serverRecord c e) = (e = ''stopped'')"
  by (simp add: isStopped_def serverRecord_def)

lemma emitNext_cases:
  "emitNext d = (x, d') \<Longrightarrow> (x = None \<and> rd_queue d = [] \<and> d' = d) \<or> (\<exists>r rs. x = Some r \<and> rd_queue d = r # rs \<and> d' = d\<lparr>rd_queue := rs\<rparr>)"
  by (auto simp: emitNext_def split: list.splits)

lemma handler_inv:
  assumes l: "life_inv l" and h: "handler_step (lf_sys l) y" "lf_serving l \<or> sv_next y = sv_next (lf_sys l)"
  shows "life_inv (l\<lparr>lf_sys := y\<rparr>)"
proof -
  have "further l (l\<lparr>lf_sys := y\<rparr>)"
    using h(2) handler_quiet [OF h(1)] handler_keeps(2) [OF h(1)] by (auto simp: further_def)
  then have "\<forall>j. closing_ok (l\<lparr>lf_sys := y\<rparr>) (lf_closes l j)"
    using l closing_further by (auto simp: life_inv_def)
  moreover have "server_inv y" using l handler_step_inv [OF _ h(1)] by (simp add: life_inv_def)
  moreover have "\<not> lf_serving l \<longrightarrow> (\<forall>i. \<not> beforeUpgrade (sv_phase y i))"
    using l h(2) handler_upgrade [OF h(1)] by (auto simp: life_inv_def)
  ultimately show ?thesis
    using l handler_keeps [OF h(1)]
    by (auto simp: life_defs)
qed

lemma reporterTurn_cases:
  assumes "reporterTurn stopFirst l = Some l'"
  obtains (emit) r rs where "lf_reporter l \<noteq> Drained" "rd_queue (lf_diagnostics l) = r # rs"
      "l' = (report r l)\<lparr>lf_sys := with_diagnostics ((lf_diagnostics l)\<lparr>rd_queue := rs\<rparr>) (lf_sys l)\<rparr>"
    | (drain) "lf_reporter l = Looping" "rd_stopped (lf_diagnostics l)" "l' = l\<lparr>lf_reporter := Draining\<rparr>"
    | (finish) "lf_reporter l = Draining" "rd_queue (lf_diagnostics l) = []" "l' = l\<lparr>lf_reporter := Drained\<rparr>"
  using assms unfolding reporterTurn_def Let_def
  by (auto split: reporterPhase.splits if_splits prod.splits option.splits dest!: emitNext_cases)

lemma turn_inv:
  assumes "life_inv l" and "reporterTurn stopFirst l = Some l'"
  shows "life_inv l'"
  using assms(2)
proof (cases rule: reporterTurn_cases)
  case (emit r rs)
  have "further l l'" by (simp add: further_def emit(3))
  then show ?thesis using assms(1) emit
    by (auto simp: life_defs intro: closing_further)
next
  case drain
  have "further l l'" using drain by (simp add: further_def)
  then show ?thesis using assms(1) drain
    by (auto simp: life_defs intro: closing_further)
next
  case finish
  have "further l l'" using finish by (simp add: further_def)
  then show ?thesis using assms(1) finish
    by (auto simp: life_defs intro: closing_further)
qed

lemma errors_join_second [simp]: "errors_join [err, Some e] \<noteq> None"
  by (cases err) (simp_all add: errors_join_def List.map_filter_def)

lemma lf_announce_inv:
  assumes l: "life_inv l" and lf_announce: "l' = (report (serverRecord ''handshake'' ''authenticated'') l)\<lparr>lf_announced := insert i (lf_announced l)\<rparr>"
      "sv_phase (lf_sys l) i = Registered secret version"
      "i \<notin> lf_announced l"
  shows "life_inv l'"
proof -
  have "further l l'" by (simp add: further_def lf_announce(1))
  then show ?thesis using l unfolding lf_announce(1)
    by (auto simp: life_defs intro: closing_further)
qed

lemma lf_close_inv:
  assumes l: "life_inv l" and lf_close: "l' = closeCancel j l"
      "lf_closes l j = NotCalled"
      "j = 0 \<longrightarrow> lf_canceled l"
  shows "life_inv l'"
proof -
  let ?m = "l\<lparr>lf_canceled := True\<rparr>"
  have "further l ?m" by (simp add: further_def)
  then have "life_inv ?m" using l by (auto simp: life_defs intro: closing_further)
  then show ?thesis unfolding lf_close(1) closeCancel_def by (rule closeAt_inv) simp
qed

lemma lf_shutdown_inv:
  assumes l: "life_inv l" and lf_shutdown: "l' = closeShutdown j err l"
      "lf_closes l j = Canceled"
      "err = None \<longrightarrow> (\<forall>i. \<not> beforeUpgrade (sv_phase (lf_sys l) i))"
  shows "life_inv l'"
proof -
  let ?m = "if err = None then l\<lparr>lf_serving := False\<rparr> else l"
  have "further l ?m" by (simp add: further_def)
  then have "life_inv ?m" using l lf_shutdown(3)
    by (auto simp: life_defs intro: closing_further)
  moreover have "lf_canceled l" using l lf_shutdown(2) by (metis life_inv_def closing_ok.simps(2))
  ultimately show ?thesis unfolding lf_shutdown(1) closeShutdown_def by (intro closeAt_inv) auto
qed

lemma lf_handlers_inv:
  assumes l: "life_inv l" and lf_handlers: "l' = closeHandlers j None err l"
      "lf_closes l j = Shut err"
      "\<forall>i. sv_phase (lf_sys l) i = Finished"
  shows "life_inv l'"
proof -
  have "closing_ok l (Shut err)" using l lf_handlers(2) by (metis life_inv_def)
  then show ?thesis using lf_handlers(3) unfolding lf_handlers(1) closeHandlers_def option.case
    by (intro closeAt_inv l) simp
qed

lemma lf_handlers_late_inv:
  assumes l: "life_inv l" and lf_handlers_late: "l' = closeHandlers j (Some e) err l"
      "lf_closes l j = Shut err"
      "j \<noteq> 0"
  shows "life_inv l'"
proof -
  have "closing_ok l (Shut err)" using l lf_handlers_late(2) by (metis life_inv_def)
  then show ?thesis unfolding lf_handlers_late(1) closeHandlers_def option.case
    by (intro closeAt_inv l) simp
qed

lemma lf_stop_inv:
  assumes l: "life_inv l" and lf_stop: "l' = closeStop j err l"
      "lf_closes l j = Waited err"
  shows "life_inv l'"
proof -
  let ?m = "l\<lparr>lf_sys := with_diagnostics (stopRemoteDiagnostics (lf_diagnostics l)) (lf_sys l)\<rparr>"
  have "further l ?m" by (simp add: further_def stopRemoteDiagnostics_def)
  then have "life_inv ?m" using l
    by (auto simp: life_defs stopRemoteDiagnostics_def intro: closing_further)
  moreover have "closing_ok l (Waited err)" using l lf_stop(2) by (metis life_inv_def)
  ultimately show ?thesis unfolding lf_stop(1) closeStop_def by (intro closeAt_inv) (auto simp: stopRemoteDiagnostics_def)
qed

lemma lf_drained_inv:
  assumes l: "life_inv l" and lf_drained: "l' = closeDrained j None err l"
      "lf_closes l j = Stopped err"
      "lf_reporter l = Drained"
  shows "life_inv l'"
proof -
  let ?m = "if lf_stopOnce l then l else (report (serverRecord ''server'' ''stopped'') l)\<lparr>lf_stopOnce := True\<rparr>"
  have "further l ?m" by (simp add: further_def)
  then have "life_inv ?m" using l
    by (auto simp: life_defs intro: closing_further)
  moreover have "closing_ok l (Stopped err)" using l lf_drained(2) by (metis life_inv_def)
  ultimately show ?thesis using lf_drained(3) unfolding lf_drained(1) closeDrained_def option.case
    by (intro closeAt_inv) auto
qed

lemma lf_drained_late_inv:
  assumes l: "life_inv l" and lf_drained_late: "l' = closeDrained j (Some e) err l"
      "lf_closes l j = Stopped err"
      "j \<noteq> 0"
  shows "life_inv l'"
proof -
  have "closing_ok l (Stopped err)" using l lf_drained_late(2) by (metis life_inv_def)
  then show ?thesis unfolding lf_drained_late(1) closeDrained_def option.case
    by (intro closeAt_inv l) simp
qed

lemma life_step_inv:
  assumes l: "life_inv l" and st: "life_step l l'"
  shows "life_inv l'"
  using st
proof cases
  case (lf_handler y)
  then show ?thesis using handler_inv [OF l] by simp
next
  case (lf_announce i secret version)
  then show ?thesis by (rule lf_announce_inv [OF l])
next
  case (lf_turn stopFirst)
  then show ?thesis using turn_inv [OF l] by simp
next
  case lf_cancel
  have "further l l'" by (simp add: further_def lf_cancel)
  then show ?thesis using l unfolding lf_cancel
    by (auto simp: life_defs intro: closing_further)
next
  case (lf_close j)
  then show ?thesis by (rule lf_close_inv [OF l])
next
  case (lf_shutdown j err)
  then show ?thesis by (rule lf_shutdown_inv [OF l])
next
  case (lf_handlers j err)
  then show ?thesis by (rule lf_handlers_inv [OF l])
next
  case (lf_handlers_late j err e)
  then show ?thesis by (rule lf_handlers_late_inv [OF l])
next
  case (lf_stop j err)
  then show ?thesis by (rule lf_stop_inv [OF l])
next
  case (lf_drained j err)
  then show ?thesis by (rule lf_drained_inv [OF l])
next
  case (lf_drained_late j err e)
  then show ?thesis by (rule lf_drained_late_inv [OF l])
qed

interpretation life: invariant_system life_init life_step life_inv
proof unfold_locales
  show "life_inv l" if "life_init l" for l
    using that
    by (auto simp: life_init_def startLocalServer_def Let_def life_defs
        server_inv_def StartLocalServer_def registered_def)
qed (rule life_step_inv)


section \<open>After a close that reports no error\<close>

lemma returned_step:
  assumes "life_inv l" and "lf_closes l j = Returned None" and "life_step l l'"
  shows "lf_closes l' j = Returned None \<and> lf_emitted l' = lf_emitted l"
proof -
  have c: "closing_ok l (Returned None)" using assms(1,2) by (metis life_inv_def)
  show ?thesis
    using assms(3)
  proof cases
    case (lf_turn stopFirst)
    from lf_turn show ?thesis using c assms(2) by (cases rule: reporterTurn_cases) auto
  qed (use c assms(2) in \<open>auto simp: closeAt_def closeCancel_def closeShutdown_def closeHandlers_def closeStop_def closeDrained_def\<close>)
qed

lemma returned_steps:
  assumes "life_step\<^sup>*\<^sup>* l l'" and "life_inv l" and "lf_closes l j = Returned None"
  shows "life_inv l' \<and> lf_closes l' j = Returned None \<and> lf_emitted l' = lf_emitted l"
  using assms(1) by (induction rule: rtranclp_induct) (use assms(2,3) in \<open>auto dest: life_step_inv returned_step\<close>)

lemma returned_quiet: "life_inv l \<Longrightarrow> lf_closes l j = Returned None \<Longrightarrow> quiet (lf_sys l)"
  by (metis life_inv_def closing_ok.simps(6))

text \<open>C11: A \<open>Close\<close> that returns nil has stopped the server for good: no handler runs, no slot is taken, no client is
  registered, every queued diagnostic has been written and the end of the server was recorded exactly once
  (if anything is recorded), whatever other close calls, requests and rotations ran at the same time; and
  nothing is recorded and no handler runs at any later time.\<close>

theorem Close_nil_is_final:
  assumes "reachable life_init life_step l" and "lf_closes l j = Returned None"
  shows "(\<forall>i. sv_phase (lf_sys l) i = Finished)
    \<and> ls_handshakes (sv_server (lf_sys l)) = 0 \<and> ls_clients (sv_server (lf_sys l)) = 0
    \<and> ls_connections (sv_server (lf_sys l)) = (\<lambda>_. None)
    \<and> rd_queue (lf_diagnostics l) = []
    \<and> length (filter isStopped (lf_emitted l)) = of_bool (rd_record (lf_diagnostics l))
    \<and> (\<forall>l'. life_step\<^sup>*\<^sup>* l l' \<longrightarrow> lf_emitted l' = lf_emitted l \<and> (\<forall>i. sv_phase (lf_sys l') i = Finished))"
proof -
  have i: "life_inv l" using assms(1) by (rule life.reachable_inv)
  have c: "closing_ok l (Returned None)" using i assms(2) by (metis life_inv_def)
  then have q: "quiet (lf_sys l)" "lf_reporter l = Drained" "lf_stopOnce l" by auto
  have s: "server_inv (lf_sys l)" and r: "reporter_ok l" "records_ok l" using i by (simp_all add: life_inv_def)
  have "ls_connections (sv_server (lf_sys l)) k = None" for k
    using server_limits [OF s, of k] q(1) by (simp add: registered_def)
  then have 1: "ls_connections (sv_server (lf_sys l)) = (\<lambda>_. None)" by blast
  have 2: "ls_handshakes (sv_server (lf_sys l)) = 0" "ls_clients (sv_server (lf_sys l)) = 0"
    using s q(1) by (simp_all add: server_inv_def Let_def)
  have 3: "lf_emitted l' = lf_emitted l \<and> quiet (lf_sys l')" if "life_step\<^sup>*\<^sup>* l l'" for l'
    using returned_steps [OF that i assms(2)] returned_quiet by blast
  have 4: "rd_queue (lf_diagnostics l) = []" "length (filter isStopped (lf_emitted l)) = of_bool (rd_record (lf_diagnostics l))"
    using r q(2,3) by (simp_all add: reporter_ok_def records_ok_def)
  show ?thesis by (intro conjI allI impI) (use q(1) 1 2 3 4 in blast)+
qed

section \<open>A close call can always end\<close>

definition handlers_run :: "serverSystem \<Rightarrow> serverSystem \<Rightarrow> bool" where
  "handlers_run y y' \<longleftrightarrow> handler_step y y' \<and> sv_next y' = sv_next y"

fun rank :: "phase \<Rightarrow> nat" where
  "rank Entered = 8" | "rank Holding = 7" | "rank (Captured _ _ _) = 6" | "rank (Accepted _ _) = 5"
| "rank (Authenticated _ _) = 4" | "rank (Admitted _ _) = 3" | "rank (Registered _ _) = 2" | "rank Leaving = 1"
| "rank Finished = 0"

lemma advance:
  "handler_step y (move i ps y) \<Longrightarrow> rank (fst ps) < n \<Longrightarrow> \<exists>p s. handlers_run y (move i (p, s) y) \<and> rank p < n"
  by (intro exI [of _ "fst ps"] exI [of _ "snd ps"]) (simp add: handlers_run_def move_def)

lemma handler_advances:
  assumes "sv_phase y i \<noteq> Finished"
  shows "\<exists>p s. handlers_run y (move i (p, s) y) \<and> rank p < rank (sv_phase y i)"
proof (cases "sv_phase y i")
  case Entered
  then show ?thesis by (intro advance [OF sv_acquire [OF Entered]]) (simp add: acquireHandshake_def)
next
  case Holding
  then show ?thesis by (intro advance [OF sv_capture [OF Holding]]) (simp add: captureCredential_def)
next
  case (Captured h s v)
  then show ?thesis by (intro advance [OF sv_check [OF Captured]]) (simp add: checkRequest_def)
next
  case (Accepted s v)
  then show ?thesis by (intro advance [OF sv_handshake [OF Accepted]]) (simp add: finishHandshake_def)
next
  case (Authenticated s v)
  then show ?thesis by (intro advance [OF sv_admit [OF Authenticated]]) (simp add: admitClient_def)
next
  case (Admitted s v)
  then show ?thesis by (intro advance [OF sv_register [OF Admitted]]) (simp add: registerClient_def)
next
  case (Registered s v)
  then show ?thesis by (intro advance [OF sv_unregister [OF Registered]]) simp
next
  case Leaving
  then show ?thesis by (intro advance [OF sv_leave [OF Leaving]]) simp
qed (use assms in simp)

lemma handler_finishes: "\<exists>y'. handlers_run\<^sup>*\<^sup>* y y' \<and> sv_phase y' = (sv_phase y)(i := Finished)"
proof (induction "rank (sv_phase y i)" arbitrary: y rule: less_induct)
  case less
  show ?case
  proof (cases "sv_phase y i = Finished")
    case False
    then obtain p s where m: "handlers_run y (move i (p, s) y)" "rank p < rank (sv_phase y i)"
      using handler_advances by blast
    then obtain y' where "handlers_run\<^sup>*\<^sup>* (move i (p, s) y) y'" "sv_phase y' = (sv_phase (move i (p, s) y))(i := Finished)"
      using less [of "move i (p, s) y"] by (auto simp: move_def)
    with m(1) show ?thesis by (intro exI [of _ y']) (simp add: move_def converse_rtranclp_into_rtranclp)
  qed (auto simp: fun_upd_idem)
qed

lemma handlers_finish:
  assumes "finite {i. sv_phase y i \<noteq> Finished}"
  shows "\<exists>y'. handlers_run\<^sup>*\<^sup>* y y' \<and> quiet y'"
  using assms
proof (induction "{i. sv_phase y i \<noteq> Finished}" arbitrary: y rule: finite_psubset_induct)
  case psubset
  show ?case
  proof (cases "quiet y")
    case False
    then obtain i where i: "sv_phase y i \<noteq> Finished" by blast
    obtain y1 where y1: "handlers_run\<^sup>*\<^sup>* y y1" "sv_phase y1 = (sv_phase y)(i := Finished)" using handler_finishes by blast
    have "{k. sv_phase y1 k \<noteq> Finished} \<subset> {k. sv_phase y k \<noteq> Finished}" using i y1(2) by auto
    then obtain y2 where "handlers_run\<^sup>*\<^sup>* y1 y2" "quiet y2" using psubset(2) by blast
    with y1(1) show ?thesis by (meson rtranclp_trans)
  qed auto
qed

lemma life_handlers:
  "handlers_run\<^sup>*\<^sup>* y y' \<Longrightarrow> lf_sys l = y \<Longrightarrow> life_step\<^sup>*\<^sup>* l (l\<lparr>lf_sys := y'\<rparr>)"
proof (induction rule: rtranclp_induct)
  case (step y1 y2)
  have "life_step (l\<lparr>lf_sys := y1\<rparr>) (l\<lparr>lf_sys := y1\<rparr>\<lparr>lf_sys := y2\<rparr>)"
    by (rule lf_handler) (use step(2) in \<open>simp_all add: handlers_run_def\<close>)
  with step show ?case by (simp add: rtranclp.rtrancl_into_rtrancl)
qed auto

lemma reporter_drains:
  assumes "rd_stopped (lf_diagnostics l)" and "reporter_ok l"
  shows "\<exists>l'. life_step\<^sup>*\<^sup>* l l' \<and> lf_reporter l' = Drained \<and> lf_closes l' = lf_closes l"
proof -
  have d: "\<exists>l'. life_step\<^sup>*\<^sup>* l l' \<and> lf_reporter l' = Drained \<and> lf_closes l' = lf_closes l" if "lf_reporter l = Draining" for l
    using that
  proof (induction "rd_queue (lf_diagnostics l)" arbitrary: l)
    case Nil
    then have "reporterTurn True l = Some (l\<lparr>lf_reporter := Drained\<rparr>)"
      by (simp add: reporterTurn_def emitNext_def Let_def)
    then show ?case by (intro exI [of _ "l\<lparr>lf_reporter := Drained\<rparr>"]) (auto intro: lf_turn)
  next
    case (Cons r rs)
    let ?m = "(report r l)\<lparr>lf_sys := with_diagnostics ((lf_diagnostics l)\<lparr>rd_queue := rs\<rparr>) (lf_sys l)\<rparr>"
    have "reporterTurn True l = Some ?m"
      using Cons(3) Cons(2) [symmetric] by (simp add: reporterTurn_def emitNext_def Let_def)
    then have "life_step l ?m" by (rule lf_turn)
    moreover obtain l' where "life_step\<^sup>*\<^sup>* ?m l'" "lf_reporter l' = Drained" "lf_closes l' = lf_closes ?m"
      using Cons(1) [of ?m] Cons(3) by auto
    ultimately show ?case by (intro exI [of _ l']) (auto intro: converse_rtranclp_into_rtranclp)
  qed
  show ?thesis
  proof (cases "lf_reporter l")
    case Looping
    then have "life_step l (l\<lparr>lf_reporter := Draining\<rparr>)"
      using assms(1) by (intro lf_turn [of True]) (simp add: reporterTurn_def Let_def)
    with d [of "l\<lparr>lf_reporter := Draining\<rparr>"] show ?thesis by (auto intro: converse_rtranclp_into_rtranclp)
  qed (use d in auto)
qed

text \<open>The stages of a close call, each of which can be left.\<close>

lemma closes_at [simp]:
  "lf_closes (closeShutdown j err l) j = Shut err" "lf_closes (closeHandlers j None err l) j = Waited err"
  "lf_closes (closeStop j err l) j = Stopped err" "lf_closes (closeDrained j None err l) j = Returned err"
  by (simp_all add: closeShutdown_def closeHandlers_def closeStop_def closeDrained_def closeAt_def)

lemma stopped_ends:
  assumes "life_inv l" and "lf_closes l j = Stopped err"
  shows "\<exists>l'. life_step\<^sup>*\<^sup>* l l' \<and> lf_closes l' j = Returned err"
proof -
  have "closing_ok l (Stopped err)" "reporter_ok l" using assms by (metis life_inv_def)+
  then obtain m where m: "life_step\<^sup>*\<^sup>* l m" "lf_reporter m = Drained" "lf_closes m j = Stopped err"
    using reporter_drains [of l] assms(2) by auto
  then have "life_step m (closeDrained j None err m)" by (intro lf_drained)
  with m(1) show ?thesis
    by (intro exI [of _ "closeDrained j None err m"]) auto
qed

lemma waited_ends:
  assumes "life_inv l" and "lf_closes l j = Waited err"
  shows "\<exists>l'. life_step\<^sup>*\<^sup>* l l' \<and> lf_closes l' j = Returned err"
proof -
  have s: "life_step l (closeStop j err l)" using assms(2) by (rule lf_stop)
  then obtain l' where "life_step\<^sup>*\<^sup>* (closeStop j err l) l'" "lf_closes l' j = Returned err"
    using stopped_ends [OF life_step_inv [OF assms(1) s] closes_at(3)] by blast
  with s show ?thesis by (meson converse_rtranclp_into_rtranclp)
qed

lemma life_quiet:
  assumes "life_inv l"
  obtains y where "life_step\<^sup>*\<^sup>* l (l\<lparr>lf_sys := y\<rparr>)" "quiet y" "life_inv (l\<lparr>lf_sys := y\<rparr>)"
proof -
  have "finite {i. sv_phase (lf_sys l) i \<noteq> Finished}" using assms by (simp add: life_inv_def server_inv_def Let_def)
  then obtain y where y: "handlers_run\<^sup>*\<^sup>* (lf_sys l) y" "quiet y" using handlers_finish by blast
  from life_handlers [OF y(1) refl] have "life_step\<^sup>*\<^sup>* l (l\<lparr>lf_sys := y\<rparr>)" .
  with y(2) that show ?thesis using life.steps_inv assms by blast
qed

lemma shut_ends:
  assumes "life_inv l" and "lf_closes l j = Shut err"
  shows "\<exists>l'. life_step\<^sup>*\<^sup>* l l' \<and> lf_closes l' j = Returned err"
proof -
  obtain y where y: "life_step\<^sup>*\<^sup>* l (l\<lparr>lf_sys := y\<rparr>)" "quiet y" "life_inv (l\<lparr>lf_sys := y\<rparr>)" by (rule life_quiet [OF assms(1)])
  let ?m = "closeHandlers j None err (l\<lparr>lf_sys := y\<rparr>)"
  have s: "life_step (l\<lparr>lf_sys := y\<rparr>) ?m" using y(2) assms(2) by (intro lf_handlers) simp_all
  then obtain l' where "life_step\<^sup>*\<^sup>* ?m l'" "lf_closes l' j = Returned err"
    using waited_ends [OF life_step_inv [OF y(3) s] closes_at(2)] by blast
  with y(1) s show ?thesis by (meson converse_rtranclp_into_rtranclp rtranclp_trans)
qed

lemma canceled_ends:
  assumes "life_inv l" and "lf_closes l j = Canceled"
  shows "\<exists>l'. life_step\<^sup>*\<^sup>* l l' \<and> lf_closes l' j = Returned None"
proof -
  obtain y where y: "life_step\<^sup>*\<^sup>* l (l\<lparr>lf_sys := y\<rparr>)" "quiet y" "life_inv (l\<lparr>lf_sys := y\<rparr>)" by (rule life_quiet [OF assms(1)])
  let ?m = "closeShutdown j None (l\<lparr>lf_sys := y\<rparr>)"
  have s: "life_step (l\<lparr>lf_sys := y\<rparr>) ?m" using y(2) assms(2) by (intro lf_shutdown) simp_all
  then obtain l' where "life_step\<^sup>*\<^sup>* ?m l'" "lf_closes l' j = Returned None"
    using shut_ends [OF life_step_inv [OF y(3) s] closes_at(1)] by blast
  with y(1) s show ?thesis by (meson converse_rtranclp_into_rtranclp rtranclp_trans)
qed

text \<open>No combination of handlers, rotations, diagnostics and other close calls blocks a close call: from every
  state that can occur, a call that was made can run to its return, and one that \<open>Shutdown\<close> has not yet failed
  can return nil.\<close>

theorem Close_can_return:
  assumes "reachable life_init life_step l" and "lf_closes l j \<noteq> NotCalled"
  shows "\<exists>l' err. life_step\<^sup>*\<^sup>* l l' \<and> lf_closes l' j = Returned err
    \<and> (lf_closes l j \<in> {Canceled, Shut None, Waited None, Stopped None} \<longrightarrow> err = None)"
proof -
  have i: "life_inv l" using assms(1) by (rule life.reachable_inv)
  show ?thesis
  proof (cases "lf_closes l j")
    case NotCalled
    then show ?thesis using assms(2) by simp
  next
    case Canceled
    then show ?thesis using canceled_ends [OF i] by blast
  next
    case (Shut err)
    then show ?thesis using shut_ends [OF i Shut] by (auto intro: exI [of _ err])
  next
    case (Waited err)
    then show ?thesis using waited_ends [OF i Waited] by auto
  next
    case (Stopped err)
    then show ?thesis using stopped_ends [OF i Stopped] by auto
  next
    case (Returned err)
    then show ?thesis by auto
  qed
qed

section \<open>One server, started and closed\<close>

definition demo_served :: serverLife where
  "demo_served = projr (startLocalServer None demo_secret ''h'' True)"

lemma demo_served_init: "life_init demo_served"
  unfolding life_init_def demo_served_def by (intro exI [of _ demo_secret] exI [of _ "''h''"] exI [of _ True]) (simp add: startLocalServer_def Let_def)

definition demo_shut :: serverLife where
  "demo_shut = closeDrained 1 None None ((closeStop 1 None (closeHandlers 1 None None
     (closeShutdown 1 None (closeCancel 1 demo_served))))\<lparr>lf_reporter := Drained\<rparr>)"

lemmas demo_served_simps = demo_served_def startLocalServer_def Let_def closeCancel_def closeShutdown_def closeHandlers_def
  closeStop_def closeDrained_def closeAt_def StartLocalServer_def

lemma demo_shut_reachable: "reachable life_init life_step demo_shut"
proof -
  let ?a = "closeCancel 1 demo_served"
  let ?b = "closeShutdown 1 None ?a"
  let ?c = "closeHandlers 1 None None ?b"
  let ?d = "closeStop 1 None ?c"
  have "reachable life_init life_step demo_served" using demo_served_init by (rule reach_init)
  then have "reachable life_init life_step ?a" by (rule reach_step) (rule lf_close, simp_all add: demo_served_simps)
  then have "reachable life_init life_step ?b" by (rule reach_step) (rule lf_shutdown, simp_all add: demo_served_simps)
  then have "reachable life_init life_step ?c" by (rule reach_step) (rule lf_handlers, simp_all add: demo_served_simps)
  then have "reachable life_init life_step ?d" by (rule reach_step) (rule lf_stop, simp_all add: demo_served_simps)
  then have "reachable life_init life_step (?d\<lparr>lf_reporter := Draining\<rparr>)"
    by (rule reach_step) (rule lf_turn [of True], simp add: demo_served_simps reporterTurn_def stopRemoteDiagnostics_def)
  then have "reachable life_init life_step (?d\<lparr>lf_reporter := Draining\<rparr>\<lparr>lf_reporter := Drained\<rparr>)"
    by (rule reach_step) (rule lf_turn [of True], simp add: demo_served_simps reporterTurn_def stopRemoteDiagnostics_def emitNext_def)
  then have "reachable life_init life_step (?d\<lparr>lf_reporter := Drained\<rparr>)" by simp
  then show ?thesis unfolding demo_shut_def by (rule reach_step) (rule lf_drained, simp_all add: demo_served_simps)
qed

theorem Close_nil_is_final_witness:
  "lf_closes demo_shut 1 = Returned None \<and> length (filter isStopped (lf_emitted demo_shut)) = 1"
proof -
  have r: "lf_closes demo_shut 1 = Returned None" by (simp add: demo_shut_def)
  have "rd_record (lf_diagnostics demo_shut)"
    by (simp add: demo_shut_def demo_served_simps stopRemoteDiagnostics_def)
  moreover have "length (filter isStopped (lf_emitted demo_shut)) = of_bool (rd_record (lf_diagnostics demo_shut))"
    using Close_nil_is_final [OF demo_shut_reachable r] by blast
  ultimately show ?thesis using r by simp
qed

theorem Close_can_return_witness: "\<exists>l' err. life_step\<^sup>*\<^sup>* demo_shut l' \<and> lf_closes l' 1 = Returned err"
  proof -
  have "lf_closes demo_shut 1 \<noteq> NotCalled" by (simp add: demo_shut_def)
  from Close_can_return [OF demo_shut_reachable this] show ?thesis by blast
qed

end
