(* ===== verification/Control_Client.thy ===== *)
theory Control_Client
  imports Control_Protocol
begin

text \<open>
  The connection of a control call, \<open>internal/control/client.go\<close>: dialling, the deadline, sending the request,
  reading the reply, and which error each of them gives (\<open>callContextError\<close>). With \<open>Call\<close> and the server's
  \<open>handle\<close> of the theory \<open>Control_Protocol\<close> this is the whole way of a request and back.
\<close>

definition maxResponseBytes :: nat where "maxResponseBytes = 1048576"

text \<open>
  The connection: what dialling, \<open>SetDeadline\<close> and writing report, the bytes that the peer sends for a
  request, the error of the call's context when dialling, writing and reading have ended (0, 1, 2), which
  errors are network timeouts, and whether the deadline has passed by then. The call's context always
  has a deadline.
\<close>

record controlConn =
  cn_dial :: "string \<Rightarrow> gerror option"
  cn_setDeadline :: "gerror option"
  cn_write :: "string \<Rightarrow> gerror option"
  cn_input :: "string \<Rightarrow> string"
  cn_ctxErr :: "nat \<Rightarrow> gerror option"
  cn_timeout :: "gerror \<Rightarrow> bool"
  cn_late :: bool

definition callContextError :: "gerror option \<Rightarrow> (gerror \<Rightarrow> bool) \<Rightarrow> bool \<Rightarrow> gerror \<Rightarrow> gerror option" where
  "callContextError ctxErr timeout late operationErr =
     (case ctxErr of
        Some e \<Rightarrow> Some e
      | None \<Rightarrow> if timeout operationErr \<and> late then Some (Sentinel ErrDeadlineExceeded) else None)"

definition connError :: "controlConn \<Rightarrow> nat \<Rightarrow> string \<Rightarrow> gerror \<Rightarrow> gerror" where
  "connError conn i doing e =
     (case callContextError (cn_ctxErr conn i) (cn_timeout conn) (cn_late conn) e of Some c \<Rightarrow> c | None \<Rightarrow> Wrapf doing e)"

text \<open>The part of \<open>Call\<close> between encoding the request and looking at the reply.\<close>

definition exchange :: "(string \<Rightarrow> gerror + reply) \<Rightarrow> controlConn \<Rightarrow> string \<Rightarrow> string \<Rightarrow> gerror + reply" where
  "exchange decReply conn socketPath payload =
     (case cn_dial conn socketPath of
        Some e \<Rightarrow> Inl (case cn_ctxErr conn 0 of Some c \<Rightarrow> c | None \<Rightarrow> Wrapf ''connect to Wrap control socket: '' e)
      | None \<Rightarrow>
     (case cn_setDeadline conn of
        Some e \<Rightarrow> Inl (Wrapf ''set control deadline: '' e)
      | None \<Rightarrow>
     (case cn_write conn payload of
        Some e \<Rightarrow> Inl (connError conn 1 ''write control request: '' e)
      | None \<Rightarrow>
     (case decReply (take (maxResponseBytes + 1) (cn_input conn payload)) of
        Inl e \<Rightarrow> Inl (connError conn 2 ''decode control response: '' e)
      | Inr reply \<Rightarrow> Inr reply))))"

text \<open>What the server sends back on a connection: \<open>writeResponse\<close> of the response.\<close>

definition writeResponse :: "(response \<Rightarrow> string) \<Rightarrow> response \<times> bool \<times> 'h \<Rightarrow> string" where
  "writeResponse encReply x = encReply (fst x)"

fun reply_of :: "response \<Rightarrow> reply" where
  "reply_of (RespStatus st) = Reply (Some st) None"
| "reply_of (RespError e) = Reply None (Some e)"

section \<open>A remote call is a local call\<close>

text \<open>The operation a request asks for, on the handler itself: the reference that the control socket implements.\<close>

definition perform :: "'h Handler \<Rightarrow> Request \<Rightarrow> 'h \<Rightarrow> (gerror + Status) \<times> 'h" where
  "perform hnd r h =
     (if q_Action r = ActionStatus then (Inr (hd_Status hnd h), h)
      else if q_Action r = ActionRename then hd_Rename hnd (q_Name r) h
      else if q_Action r = ActionRotate then hd_Rotate hnd h
      else (case hd_Shutdown hnd h of (Inl e, h') \<Rightarrow> (Inl e, h') | (Inr _, h') \<Rightarrow> (Inr (hd_Status hnd h'), h')))"

definition remote_result :: "gerror + Status \<Rightarrow> (gerror + CtlError) + Status" where
  "remote_result r = (case r of Inl e \<Rightarrow> Inl (Inr (responseError e)) | Inr st \<Rightarrow> Inr st)"

lemma Server_handle_perform:
  assumes "readRequest dec input = Inr r" and "q_InstanceID r = instanceID"
  shows "\<exists>stop. Server_handle dec hnd instanceID input h =
    (case perform hnd r h of (Inl e, h') \<Rightarrow> (RespError (responseError e), False, h') | (Inr st, h') \<Rightarrow> (RespStatus st, stop, h'))"
  using assms
  by (auto simp: Server_handle_def perform_def respond_def split: prod.splits sum.splits)

lemma readRequest_line:
  assumes "dec (line @ [newline]) = Inr (r, AtEOF)" and "newline \<notin> set line" and "length line < MaxRequestBytes"
    and "Request_validate r = None"
  shows "readRequest dec (line @ [newline]) = Inr r"
proof -
  have "IndexByte (line @ [newline]) newline = Some (length line)" using assms(2) by (simp add: IndexByte_append)
  then have "read_line (MaxRequestBytes + 1) (line @ [newline]) = (line @ [newline], True)"
    using assms(3) by (simp add: read_line_def Let_def)
  then show ?thesis using assms by (simp add: readRequest_def)
qed


text \<open>C12: Calling over the control socket is calling the handler: when request and reply survive their encoding and the
  connection does its work, \<open>Call\<close> returns what the operation itself returns, an error in the public form that
  \<open>responseError\<close> gives it, and the handler is left in the state that the operation leaves.\<close>

theorem remote_call_is_local_call:
  assumes "IsAbs socketPath" and "Request_validate request = None" and "q_InstanceID request = instanceID"
    and "enc request = Inr (line @ [newline])" and "newline \<notin> set line" and "length line < MaxRequestBytes"
    and "dec (line @ [newline]) = Inr (request, AtEOF)"
    and "Server_handle dec hnd instanceID (line @ [newline]) h = (resp, stop, h')"
    and "decReply (encReply resp) = Inr (reply_of resp)" and "length (encReply resp) \<le> maxResponseBytes"
    and "cn_dial conn socketPath = None" and "cn_setDeadline conn = None" and "\<And>p. cn_write conn p = None"
    and "\<And>p. cn_input conn p = writeResponse encReply (Server_handle dec hnd instanceID p h)"
  shows "Call enc (exchange decReply conn) socketPath request = remote_result (fst (perform hnd request h))
    \<and> h' = snd (perform hnd request h)"
proof -
  have "readRequest dec (line @ [newline]) = Inr request" using assms(2,5-7) by (intro readRequest_line)
  from Server_handle_perform [OF this assms(3), of hnd h] obtain stop' where
    sh: "Server_handle dec hnd instanceID (line @ [newline]) h =
      (case perform hnd request h of (Inl e, h') \<Rightarrow> (RespError (responseError e), False, h') | (Inr st, h') \<Rightarrow> (RespStatus st, stop', h'))"
    by blast
  obtain r h1 where p1: "perform hnd request h = (r, h1)" by (rule prod.exhaust)
  have p: "perform hnd request h = (r, h')" and resp: "resp = (case r of Inl e \<Rightarrow> RespError (responseError e) | Inr st \<Rightarrow> RespStatus st)"
    using sh unfolding assms(8) p1 by (cases r; simp)+
  have "exchange decReply conn socketPath (line @ [newline]) = Inr (reply_of resp)"
    using assms(8-14) by (simp add: exchange_def writeResponse_def)
  then have "Call enc (exchange decReply conn) socketPath request =
      (case resp of RespStatus st \<Rightarrow> Inr st | RespError e \<Rightarrow> Inl (Inr e))"
    using assms(1,2,4,6) by (cases resp) (simp_all add: Call_def)
  then show ?thesis by (cases r) (simp_all add: p resp remote_result_def)
qed

section \<open>Errors of a call\<close>

text \<open>A bad path and an invalid request are refused before anything is sent.\<close>

lemma Call_checks_first:
  "\<not> IsAbs socketPath \<or> Request_validate request \<noteq> None \<Longrightarrow>
    \<exists>e. Call enc x socketPath request = Inl e \<and> Call enc y socketPath request = Inl e"
  by (auto simp: Call_def)

text \<open>A call that was canceled or ran out of time says so, whatever the connection reported; only then does it.\<close>

lemma exchange_context_error:
  assumes "exchange decReply conn socketPath payload = Inl e" and "cn_setDeadline conn = None" and "\<And>i. cn_ctxErr conn i = Some c"
  shows "e = c"
  using assms by (auto simp: exchange_def connError_def callContextError_def split: option.splits sum.splits)

lemma exchange_other_error:
  assumes "exchange decReply conn socketPath payload = Inl e" and "\<And>i. cn_ctxErr conn i = None" and "\<not> cn_late conn"
  shows "\<exists>doing cause. e = Wrapf doing cause"
  using assms by (auto simp: exchange_def connError_def callContextError_def split: option.splits sum.splits)

section \<open>A call that shuts a worker down\<close>

definition demo_conn :: controlConn where
  "demo_conn = \<lparr>cn_dial = (\<lambda>_. None), cn_setDeadline = None, cn_write = (\<lambda>_. None),
     cn_input = (\<lambda>p. writeResponse (\<lambda>_. ''{}'') (Server_handle (\<lambda>_. Inr (demo_request, AtEOF)) demo_handler ''abcdef01'' p False)),
     cn_ctxErr = (\<lambda>_. None), cn_timeout = (\<lambda>_. False), cn_late = False\<rparr>"

theorem remote_call_is_local_call_witness:
  "Call (\<lambda>_. Inr (''{}'' @ [newline])) (exchange (\<lambda>_. Inr (Reply (Some demo_status) None)) demo_conn) ''/s'' demo_request =
     remote_result (fst (perform demo_handler demo_request False))
   \<and> snd (perform demo_handler demo_request False)"
proof -
  have v: "Request_validate demo_request = None" "q_InstanceID demo_request = ''abcdef01''"
    by (simp_all add: Request_validate_def demo_request_def refusing_run_facts ActionStatus_def ActionRotate_def ActionShutdown_def)
  have n: "newline \<notin> set ''{}''" by (simp add: newline_def)
  have r: "readRequest (\<lambda>_. Inr (demo_request, AtEOF)) (''{}'' @ [newline]) = Inr demo_request"
    using v(1) n by (intro readRequest_line) (simp_all add: MaxRequestBytes_def)
  have h: "Server_handle (\<lambda>_. Inr (demo_request, AtEOF)) demo_handler ''abcdef01'' (''{}'' @ [newline]) False =
      (RespStatus demo_status, True, True)"
    using r v(2) unfolding Server_handle_def
    by (simp add: demo_request_def demo_handler_def ActionStatus_def ActionRename_def ActionRotate_def)
  have "Call (\<lambda>_. Inr (''{}'' @ [newline])) (exchange (\<lambda>_. Inr (Reply (Some demo_status) None)) demo_conn) ''/s'' demo_request =
     remote_result (fst (perform demo_handler demo_request False))
   \<and> True = snd (perform demo_handler demo_request False)"
    by (rule remote_call_is_local_call [where encReply = "\<lambda>_. ''{}''", OF _ v refl n _ refl h])
       (simp_all add: demo_conn_def MaxRequestBytes_def maxResponseBytes_def IsAbs_def HasPrefix_def)
  then show ?thesis by blast
qed

end
