(* ===== verification/Diagnostics_Portable.thy ===== *)
theory Diagnostics_Portable
  imports Mirror_Diagnostics
begin

text \<open>
  Opening the diagnostic log where the system has no \<open>O_NOFOLLOW\<close>, \<open>internal/mirror/diagnostics_file_portable.go\<close>
  and \<open>diagnostics_file_other.go\<close>: look at the path, open it, and compare what was opened with what was seen.
  The file operations are parameters, so that other processes may change the path between them; files are
  identified as \<open>os.SameFile\<close> does it. The last section runs it on the file system of the instance store
  and compares it with the opener for Unix.
\<close>

record fileInfo =
  fi_regular :: bool
  fi_file :: nat

text \<open>\<open>po_openFile True\<close> creates the file and fails when there is one (\<open>O_CREATE|O_EXCL\<close>). The
  result is an open file.\<close>

record 'w portableDiagnosticFileOps =
  po_lstat :: "('w, fileInfo) io"
  po_openFile :: "bool \<Rightarrow> ('w, nat) io"
  po_stat :: "nat \<Rightarrow> ('w, fileInfo) io"
  po_close :: "nat \<Rightarrow> 'w \<Rightarrow> 'w"

definition validatePortableDiagnosticFile ::
    "'w portableDiagnosticFileOps \<Rightarrow> fileInfo option \<Rightarrow> gerror + nat \<Rightarrow> ('w, nat) io" where
  "validatePortableDiagnosticFile ops expected r w =
     (case r of
        Inl e \<Rightarrow> (Inl e, w)
      | Inr file \<Rightarrow>
          (case po_stat ops file w of
             (Inl e, w1) \<Rightarrow> (Inl e, po_close ops file w1)
           | (Inr opened, w1) \<Rightarrow>
               if \<not> fi_regular opened \<or> (case expected of None \<Rightarrow> False | Some i \<Rightarrow> fi_file i \<noteq> fi_file opened)
               then (Inl (Msg ''mirror diagnostic log changed or is not a regular file''), po_close ops file w1)
               else (Inr file, w1)))"

text \<open>The rounds that are left.\<close>

fun portable_rounds :: "nat \<Rightarrow> 'w portableDiagnosticFileOps \<Rightarrow> ('w, nat) io" where
  "portable_rounds 0 ops w = (Inl (Msg ''mirror diagnostic log changed while opening''), w)"
| "portable_rounds (Suc n) ops w =
     (case po_lstat ops w of
        (Inl e, w1) \<Rightarrow>
          if errors_is e ErrNotExist then
            (case po_openFile ops True w1 of (r, w2) \<Rightarrow>
               if (case r of Inl e \<Rightarrow> errors_is e ErrExist | Inr _ \<Rightarrow> False) then portable_rounds n ops w2
               else validatePortableDiagnosticFile ops None r w2)
          else (Inl e, w1)
      | (Inr info, w1) \<Rightarrow>
          if \<not> fi_regular info then (Inl (Msg ''mirror diagnostic log is not a regular file''), w1)
          else
            (case po_openFile ops False w1 of (r, w2) \<Rightarrow>
               if (case r of Inl e \<Rightarrow> errors_is e ErrNotExist | Inr _ \<Rightarrow> False) then portable_rounds n ops w2
               else validatePortableDiagnosticFile ops (Some info) r w2))"

definition openDiagnosticLogPortable :: "'w portableDiagnosticFileOps \<Rightarrow> ('w, nat) io" where
  "openDiagnosticLogPortable = portable_rounds 8"

section \<open>What is opened\<close>

text \<open>The file was seen: an open that succeeded is that of a regular file which was created by it, or which is
  the very file that the path named, not through a link, just before.\<close>

definition seen_before :: "'w portableDiagnosticFileOps \<Rightarrow> nat \<Rightarrow> 'w \<Rightarrow> bool" where
  "seen_before ops file w' \<longleftrightarrow>
     (\<exists>w0 w1 w2 opened. po_stat ops file w2 = (Inr opened, w') \<and> fi_regular opened
        \<and> (po_openFile ops True w1 = (Inr file, w2) \<and> (\<exists>e. po_lstat ops w0 = (Inl e, w1) \<and> errors_is e ErrNotExist)
          \<or> po_openFile ops False w1 = (Inr file, w2)
             \<and> (\<exists>info. po_lstat ops w0 = (Inr info, w1) \<and> fi_regular info \<and> fi_file info = fi_file opened)))"

lemma seen_created:
  "po_lstat ops w0 = (Inl e, w1) \<Longrightarrow> errors_is e ErrNotExist \<Longrightarrow> po_openFile ops True w1 = (Inr file, w2) \<Longrightarrow>
    po_stat ops file w2 = (Inr opened, w') \<Longrightarrow> fi_regular opened \<Longrightarrow> seen_before ops file w'"
  unfolding seen_before_def by blast

lemma seen_named:
  "po_lstat ops w0 = (Inr info, w1) \<Longrightarrow> fi_regular info \<Longrightarrow> po_openFile ops False w1 = (Inr file, w2) \<Longrightarrow>
    po_stat ops file w2 = (Inr opened, w') \<Longrightarrow> fi_regular opened \<Longrightarrow> fi_file info = fi_file opened \<Longrightarrow> seen_before ops file w'"
  unfolding seen_before_def by blast

lemma validate_Inr:
  "validatePortableDiagnosticFile ops expected r w = (Inr file, w') \<Longrightarrow>
    r = Inr file \<and> (\<exists>opened. po_stat ops file w = (Inr opened, w') \<and> fi_regular opened
      \<and> (\<forall>i. expected = Some i \<longrightarrow> fi_file i = fi_file opened))"
  by (auto simp: validatePortableDiagnosticFile_def split: sum.splits prod.splits if_splits option.splits)

lemma portable_rounds_Inr: "portable_rounds n ops w = (Inr file, w') \<Longrightarrow> seen_before ops file w'"
proof (induction n arbitrary: w)
  case (Suc n)
  show ?case
  proof (cases "po_lstat ops w")
    case (Pair l w1)
    show ?thesis
    proof (cases l)
      case (Inl e)
      obtain r w2 where o: "po_openFile ops True w1 = (r, w2)" by (rule prod.exhaust)
      show ?thesis
        using Suc Pair Inl o
        by (auto split: if_splits sum.splits dest!: validate_Inr intro: seen_created seen_named)
    next
      case (Inr info)
      obtain r w2 where o: "po_openFile ops False w1 = (r, w2)" by (rule prod.exhaust)
      show ?thesis
        using Suc Pair Inr o
        by (auto split: if_splits sum.splits dest!: validate_Inr intro: seen_created seen_named)
    qed
  qed
qed simp

section \<open>Every file is closed or returned, within eight rounds\<close>

text \<open>The operations with a ledger: how often files were opened, and which of them are open.\<close>

record openLedger =
  og_opens :: nat
  og_open :: "nat list"

definition ledgered :: "'w portableDiagnosticFileOps \<Rightarrow> ('w \<times> openLedger) portableDiagnosticFileOps" where
  "ledgered ops =
     \<lparr>po_lstat = (\<lambda>(w, g). case po_lstat ops w of (r, w') \<Rightarrow> (r, (w', g))),
      po_openFile = (\<lambda>c (w, g). case po_openFile ops c w of (r, w') \<Rightarrow>
        (r, (w', \<lparr>og_opens = Suc (og_opens g), og_open = (case r of Inl _ \<Rightarrow> og_open g | Inr f \<Rightarrow> f # og_open g)\<rparr>))),
      po_stat = (\<lambda>f (w, g). case po_stat ops f w of (r, w') \<Rightarrow> (r, (w', g))),
      po_close = (\<lambda>f (w, g). (po_close ops f w, g\<lparr>og_open := remove1 f (og_open g)\<rparr>))\<rparr>"

lemma validate_ledger:
  assumes "validatePortableDiagnosticFile (ledgered ops) expected r (w, g) = (x, w', g')"
    and "og_open g = (case r of Inl _ \<Rightarrow> fs | Inr f \<Rightarrow> f # fs)"
  shows "og_open g' = (case x of Inl _ \<Rightarrow> fs | Inr f \<Rightarrow> f # fs) \<and> og_opens g' = og_opens g"
  using assms
  by (auto simp: validatePortableDiagnosticFile_def ledgered_def split: sum.splits prod.splits if_splits option.splits)

lemma portable_rounds_ledger:
  assumes "portable_rounds n (ledgered ops) (w, g) = (x, w', g')"
  shows "og_open g' = (case x of Inl _ \<Rightarrow> og_open g | Inr f \<Rightarrow> f # og_open g) \<and> og_opens g' \<le> og_opens g + n"
  using assms
proof (induction n arbitrary: w g)
  case (Suc n)
  obtain l w1 where l: "po_lstat ops w = (l, w1)" by (rule prod.exhaust)
  then have l': "po_lstat (ledgered ops) (w, g) = (l, w1, g)" by (simp add: ledgered_def)
  have round: ?case
    if "(if retry then portable_rounds n (ledgered ops) (w2, g2)
         else validatePortableDiagnosticFile (ledgered ops) expected r (w2, g2)) = (x, w', g')"
      and o: "po_openFile (ledgered ops) c (w1, g) = (r, w2, g2)" and "retry \<Longrightarrow> \<exists>e. r = Inl e" for retry expected c r w2 g2
  proof -
    have g2: "og_opens g2 = Suc (og_opens g)" "og_open g2 = (case r of Inl _ \<Rightarrow> og_open g | Inr f \<Rightarrow> f # og_open g)"
      using o by (auto simp: ledgered_def split: prod.splits)
    show ?thesis
    proof (cases retry)
      case True
      then show ?thesis using that(1,3) g2 Suc.IH [of w2 g2] by (auto split: sum.splits)
    next
      case False
      then show ?thesis using that(1) g2 validate_ledger by fastforce
    qed
  qed
  show ?case
  proof (cases l)
    case (Inl e)
    obtain r w2 g2 where o: "po_openFile (ledgered ops) True (w1, g) = (r, w2, g2)" by (rule prod_cases3)
    show ?thesis
    proof (cases "errors_is e ErrNotExist")
      case True
      then show ?thesis using Suc.prems Inl l' o
        by (intro round [OF _ o, where retry = "case r of Inl e \<Rightarrow> errors_is e ErrExist | Inr _ \<Rightarrow> False" and expected = None])
           (auto split: sum.splits)
    qed (use Suc.prems Inl l' in auto)
  next
    case (Inr info)
    obtain r w2 g2 where o: "po_openFile (ledgered ops) False (w1, g) = (r, w2, g2)" by (rule prod_cases3)
    show ?thesis
    proof (cases "fi_regular info")
      case True
      then show ?thesis using Suc.prems Inr l' o
        by (intro round [OF _ o, where retry = "case r of Inl e \<Rightarrow> errors_is e ErrNotExist | Inr _ \<Rightarrow> False" and expected = "Some info"])
           (auto split: sum.splits)
    qed (use Suc.prems Inr l' in auto)
  qed
qed auto

text \<open>Whatever happens to the path meanwhile, the portable opener opens at most eight times and either
  returns a file it has seen, which alone is left open, or leaves nothing open.\<close>

theorem portable_open_is_safe:
  assumes "openDiagnosticLogPortable (ledgered ops) (w, \<lparr>og_opens = 0, og_open = []\<rparr>) = (x, w', g')"
  shows "og_opens g' \<le> 8
    \<and> (case x of Inl e \<Rightarrow> og_open g' = []
         | Inr file \<Rightarrow> og_open g' = [file] \<and> seen_before (ledgered ops) file (w', g'))"
  using assms portable_rounds_ledger [of 8 ops w "\<lparr>og_opens = 0, og_open = []\<rparr>" x w' g'] portable_rounds_Inr [of 8 "ledgered ops"]
  by (auto simp: openDiagnosticLogPortable_def split: sum.splits)


section \<open>On a path that nobody else changes\<close>

definition infoOf :: "'c node \<Rightarrow> fileInfo" where
  "infoOf n = (case n of Regular inode _ _ _ \<Rightarrow> \<lparr>fi_regular = True, fi_file = inode\<rparr> | _ \<Rightarrow> \<lparr>fi_regular = False, fi_file = 0\<rparr>)"

text \<open>\<open>os.Lstat\<close> and \<open>os.OpenFile\<close> of \<open>diagnostics_file_other.go\<close>, on the file system of the instance store.\<close>

definition fileOps :: "string \<Rightarrow> string world portableDiagnosticFileOps" where
  "fileOps p =
     \<lparr>po_lstat = reading (\<lambda>w. map_sum id infoOf (Lstat p w)),
      po_openFile = (\<lambda>create. bindE fault (\<lambda>_ w.
        case lookup w p of
          None \<Rightarrow> if create then (Inr (w_next w), put p (Regular (w_next w) (w_now w) True None) (w\<lparr>w_next := Suc (w_next w)\<rparr>))
                  else (Inl (Sentinel ErrNotExist), w)
        | Some n \<Rightarrow> if create then (Inl (Sentinel ErrExist), w)
                  else (case n of Regular inode _ _ _ \<Rightarrow> (Inr inode, w) | _ \<Rightarrow> (Inl (Ext ''cannot open''), w)))),
      po_stat = (\<lambda>file. bindE fault (\<lambda>_. returnE \<lparr>fi_regular = True, fi_file = file\<rparr>)),
      po_close = (\<lambda>file w. snd (CloseFile w))\<rparr>"

text \<open>The scheduled failures are others than the two that the portable opener takes for a race.\<close>

definition ordinary :: "gerror option \<Rightarrow> bool" where
  "ordinary f = (case f of None \<Rightarrow> True | Some e \<Rightarrow> \<not> errors_is e ErrNotExist \<and> \<not> errors_is e ErrExist)"

lemma fault_ordinary:
  "list_all ordinary (w_faults w) \<Longrightarrow> fault w = (Inl e, w') \<Longrightarrow> \<not> errors_is e ErrNotExist \<and> \<not> errors_is e ErrExist"
  by (auto simp: fault_def ordinary_def split: list.splits option.splits)

lemma validate_fileOps:
  "map_prod (map_sum id (\<lambda>_. ())) id (validatePortableDiagnosticFile (fileOps p) expected (Inr file) w) = orClose fault w"
  if "expected = None \<or> expected = Some \<lparr>fi_regular = True, fi_file = file\<rparr>"
  using that by (auto simp: validatePortableDiagnosticFile_def fileOps_def orClose_def io_simps split: prod.splits sum.splits)

lemma fault_files: "w_files (snd (fault w)) = w_files w"
  by (simp add: fault_def split: list.splits option.splits)

lemma round_free:
  assumes "list_all ordinary (w_faults w)" and "lookup w p = None"
  shows "map_prod (map_sum id (\<lambda>_. ())) id (portable_rounds (Suc n) (fileOps p) w) = openDiagnosticLog p w"
proof -
  obtain f w1 where f: "fault w = (f, w1)" by (rule prod.exhaust)
  then have l1: "lookup w1 p = None" using fault_lookup [of w p] assms(2) by simp
  let ?w2 = "put p (Regular (w_next w1) (w_now w1) True None) (w1\<lparr>w_next := Suc (w_next w1)\<rparr>)"
  have ls: "po_lstat (fileOps p) w = (Inl (Sentinel ErrNotExist), w)"
    using assms(2) by (simp add: fileOps_def reading_def Lstat_def)
  have op: "po_openFile (fileOps p) True w = (case f of Inl e \<Rightarrow> (Inl e, w1) | Inr _ \<Rightarrow> (Inr (w_next w1), ?w2))"
    using f l1 by (simp add: fileOps_def bindE_apply split: sum.splits)
  show ?thesis
  proof (cases f)
    case (Inl e)
    then show ?thesis using fault_ordinary [OF assms(1)] f ls op
      by (simp add: openDiagnosticLog_def bindE_apply validatePortableDiagnosticFile_def)
  next
    case (Inr u)
    then show ?thesis using f ls op l1 validate_fileOps [of None "w_next w1" p ?w2]
      by (simp add: openDiagnosticLog_def bindE_apply)
  qed
qed

lemma round_regular:
  assumes "list_all ordinary (w_faults w)" and "lookup w p = Some (Regular inode m rd c)"
  shows "map_prod (map_sum id (\<lambda>_. ())) id (portable_rounds (Suc n) (fileOps p) w) = openDiagnosticLog p w"
proof -
  obtain f w1 where f: "fault w = (f, w1)" by (rule prod.exhaust)
  then have l1: "lookup w1 p = Some (Regular inode m rd c)" using fault_lookup [of w p] assms(2) by simp
  let ?i = "\<lparr>fi_regular = True, fi_file = inode\<rparr>"
  have ls: "po_lstat (fileOps p) w = (Inr ?i, w)"
    using assms(2) by (simp add: fileOps_def reading_def Lstat_def infoOf_def)
  have op: "po_openFile (fileOps p) False w = (case f of Inl e \<Rightarrow> (Inl e, w1) | Inr _ \<Rightarrow> (Inr inode, w1))"
    using f l1 by (simp add: fileOps_def bindE_apply split: sum.splits)
  show ?thesis
  proof (cases f)
    case (Inl e)
    then show ?thesis using fault_ordinary [OF assms(1)] f ls op
      by (simp add: openDiagnosticLog_def bindE_apply validatePortableDiagnosticFile_def)
  next
    case (Inr u)
    then show ?thesis using f ls op l1 validate_fileOps [of "Some ?i" inode p w1]
      by (simp add: openDiagnosticLog_def bindE_apply)
  qed
qed

lemma round_other:
  assumes "lookup w p = Some n" and "\<not> is_regular n"
  shows "\<exists>e. portable_rounds (Suc k) (fileOps p) w = (Inl e, w)"
  using assms by (cases n) (simp_all add: fileOps_def reading_def Lstat_def infoOf_def is_regular_def)

lemma openDiagnosticLog_other:
  assumes "lookup w p = Some n" and "\<not> is_regular n"
  shows "\<exists>e w'. openDiagnosticLog p w = (Inl e, w') \<and> w_files w' = w_files w"
proof -
  obtain f w1 where f: "fault w = (f, w1)" by (rule prod.exhaust)
  then have l1: "lookup w1 p = Some n" "w_files w1 = w_files w" using fault_lookup [of w p] fault_files [of w] assms(1) by simp_all
  show ?thesis
  proof (cases f)
    case (Inr u)
    then show ?thesis using f l1 assms(2) fault_files [of w1]
      by (cases n) (auto simp: openDiagnosticLog_def io_simps CloseFile_def is_regular_def split: prod.splits)
  qed (use f l1 in \<open>simp add: openDiagnosticLog_def bindE_apply\<close>)
qed



text \<open>The path goes away between the look and the open, every time: eight opens, an error and no open file.\<close>

theorem portable_open_is_safe_witness:
  "og_opens (snd (snd (openDiagnosticLogPortable
     (ledgered \<lparr>po_lstat = (\<lambda>w. (Inr \<lparr>fi_regular = True, fi_file = 1\<rparr>, w)), po_openFile = (\<lambda>_ w. (Inl (Sentinel ErrNotExist), w)),
       po_stat = (\<lambda>_ w. (Inl (Msg []), w)), po_close = (\<lambda>_ w. w)\<rparr>) ((), \<lparr>og_opens = 0, og_open = []\<rparr>)))) \<le> 8"
proof -
  let ?r = "openDiagnosticLogPortable
     (ledgered \<lparr>po_lstat = (\<lambda>w. (Inr \<lparr>fi_regular = True, fi_file = 1\<rparr>, w)), po_openFile = (\<lambda>_ w. (Inl (Sentinel ErrNotExist), w)),
       po_stat = (\<lambda>_ w. (Inl (Msg []), w)), po_close = (\<lambda>_ w. w)\<rparr>) ((), \<lparr>og_opens = 0, og_open = []\<rparr>)"
  obtain x w g where r: "?r = (x, w, g)" by (rule prod_cases3)
  from portable_open_is_safe [OF r] have "og_opens g \<le> 8" by blast
  then show ?thesis unfolding r by simp
qed

end
