(* ===== verification/Cli_Args.thy ===== *)
theory Cli_Args
  imports Share_Process
begin

text \<open>
  The command line, \<open>cmd/wrap/main.go\<close> and the parts of \<open>cmd/wrap/commands.go\<close> that read or build
  arguments and texts: dispatching a command, the flags of the worker, the command line that brings
  Wrap back inside tmux, the locations of the store, and text that is safe to print on a terminal.
\<close>

section \<open>Commands\<close>

type_synonym 'w command = "'w \<Rightarrow> gerror option \<times> 'w"

definition cfail :: "gerror \<Rightarrow> 'w command" where
  "cfail e w = (Some e, w)"

text \<open>A command that is not available is \<open>None\<close> (nil).\<close>

record 'w commandFuncs =
  cf_start :: "(string \<Rightarrow> 'w command) option"
  cf_list :: "(bool \<Rightarrow> 'w command) option"
  cf_show :: "(string \<Rightarrow> bool \<Rightarrow> 'w command) option"
  cf_regen :: "(string \<Rightarrow> bool \<Rightarrow> 'w command) option"
  cf_kill :: "(string \<Rightarrow> bool \<Rightarrow> 'w command) option"
  cf_doctor :: "(bool \<Rightarrow> 'w command) option"
  cf_version :: "'w command option"
  cf_help :: "'w command option"
  cf_bootstrap :: "(string \<Rightarrow> 'w command) option"
  cf_serve :: "(string list \<Rightarrow> 'w command) option"

definition parseOptionalJSON :: "string list \<Rightarrow> gerror + bool" where
  "parseOptionalJSON args =
     (case args of
        [] \<Rightarrow> Inr False
      | [a] \<Rightarrow> if a = ''--json'' then Inr True else Inl (Msg ''unexpected arguments'')
      | _ \<Rightarrow> Inl (Msg ''unexpected arguments''))"

definition parsePrivateName :: "string list \<Rightarrow> gerror + string" where
  "parsePrivateName args =
     (case args of
        [] \<Rightarrow> Inr []
      | [flag, name] \<Rightarrow>
          if (flag = ''-n'' \<or> flag = ''--name'') \<and> name \<noteq> [] then Inr name
          else Inl (Msg ''invalid internal bootstrap arguments'')
      | _ \<Rightarrow> Inl (Msg ''invalid internal bootstrap arguments''))"

definition callStart :: "(string \<Rightarrow> 'w command) option \<Rightarrow> string \<Rightarrow> 'w command" where
  "callStart fn name = (case fn of None \<Rightarrow> cfail (Msg ''start command is unavailable'') | Some f \<Rightarrow> f name)"

definition callBool :: "(bool \<Rightarrow> 'w command) option \<Rightarrow> bool \<Rightarrow> 'w command" where
  "callBool fn value = (case fn of None \<Rightarrow> cfail (Msg ''command is unavailable'') | Some f \<Rightarrow> f value)"

definition callNoArgs :: "'w command option \<Rightarrow> string \<Rightarrow> 'w command" where
  "callNoArgs fn name = (case fn of None \<Rightarrow> cfail (Msgf ''%s command is unavailable'' [name]) | Some f \<Rightarrow> f)"

definition runArgs :: "string list \<Rightarrow> 'w commandFuncs \<Rightarrow> 'w command" where
  "runArgs args funcs =
     (case args of
        [] \<Rightarrow> callStart (cf_start funcs) []
      | command # rest \<Rightarrow>
          if command = ''-n'' \<or> command = ''--name'' then
            (case rest of
               [name] \<Rightarrow> if name = [] then cfail (Msg ''-n/--name requires one nonempty name'')
                         else callStart (cf_start funcs) name
             | [] \<Rightarrow> cfail (Msg ''-n/--name requires one nonempty name'')
             | _ \<Rightarrow> cfail (Msg ''wrap does not run commands; it shares the current tmux window''))
          else if command = ''list'' then
            (case parseOptionalJSON rest of
               Inl e \<Rightarrow> cfail (Wrapf ''usage: wrap list [--json]: '' e)
             | Inr jsonOutput \<Rightarrow> callBool (cf_list funcs) jsonOutput)
          else if command = ''show'' \<or> command = ''regen'' then
            (case rest of
               [] \<Rightarrow> cfail (Msgf ''usage: wrap %s INSTANCE [--json]'' [command])
             | selector # options \<Rightarrow>
                 if selector = [] then cfail (Msgf ''usage: wrap %s INSTANCE [--json]'' [command])
                 else (case parseOptionalJSON options of
                   Inl e \<Rightarrow> cfail (Wrapf (''usage: wrap '' @ command @ '' INSTANCE [--json]: '') e)
                 | Inr jsonOutput \<Rightarrow>
                     if command = ''show'' then
                       (case cf_show funcs of None \<Rightarrow> cfail (Msg ''show command is unavailable'')
                        | Some f \<Rightarrow> f selector jsonOutput)
                     else
                       (case cf_regen funcs of None \<Rightarrow> cfail (Msg ''regen command is unavailable'')
                        | Some f \<Rightarrow> f selector jsonOutput)))
          else if command = ''kill'' then
            (case rest of
               [selector] \<Rightarrow>
                 if selector = [] then cfail (Msg ''usage: wrap kill INSTANCE|all'')
                 else (case cf_kill funcs of
                   None \<Rightarrow> cfail (Msg ''kill command is unavailable'')
                 | Some f \<Rightarrow> if selector = ''all'' then f [] True else f selector False)
             | _ \<Rightarrow> cfail (Msg ''usage: wrap kill INSTANCE|all''))
          else if command = ''doctor'' then
            (case parseOptionalJSON rest of
               Inl e \<Rightarrow> cfail (Wrapf ''usage: wrap doctor [--json]: '' e)
             | Inr jsonOutput \<Rightarrow> callBool (cf_doctor funcs) jsonOutput)
          else if command = ''version'' then
            (if rest \<noteq> [] then cfail (Msg ''usage: wrap version'') else callNoArgs (cf_version funcs) ''version'')
          else if command = ''help'' \<or> command = ''-h'' \<or> command = ''--help'' then
            (if rest \<noteq> [] then cfail (Msg ''usage: wrap help'') else callNoArgs (cf_help funcs) ''help'')
          else if command = ''_bootstrap'' then
            (case parsePrivateName rest of
               Inl e \<Rightarrow> cfail e
             | Inr name \<Rightarrow>
                 (case cf_bootstrap funcs of None \<Rightarrow> cfail (Msg ''bootstrap command is unavailable'')
                  | Some f \<Rightarrow> f name))
          else if command = ''_serve'' then
            (case cf_serve funcs of None \<Rightarrow> cfail (Msg ''worker command is unavailable'') | Some f \<Rightarrow> f rest)
          else cfail (Msgf ''unknown command %q; Wrap does not run commands'' [command]))"

text \<open>
  The functions for given arguments: version and help need no application; when there is none,
  every command fails with the reason.
\<close>

definition noFuncs :: "'w commandFuncs" where
  "noFuncs = \<lparr>cf_start = None, cf_list = None, cf_show = None, cf_regen = None, cf_kill = None, cf_doctor = None,
     cf_version = None, cf_help = None, cf_bootstrap = None, cf_serve = None\<rparr>"

definition failingFuncs :: "gerror \<Rightarrow> 'w commandFuncs" where
  "failingFuncs e = \<lparr>cf_start = Some (\<lambda>_. cfail e), cf_list = Some (\<lambda>_. cfail e), cf_show = Some (\<lambda>_ _. cfail e),
     cf_regen = Some (\<lambda>_ _. cfail e), cf_kill = Some (\<lambda>_ _. cfail e), cf_doctor = Some (\<lambda>_. cfail e),
     cf_version = Some (cfail e), cf_help = Some (cfail e), cf_bootstrap = Some (\<lambda>_. cfail e), cf_serve = Some (\<lambda>_. cfail e)\<rparr>"

definition commandFuncsForArgs ::
    "string list \<Rightarrow> 'w command \<Rightarrow> 'w command \<Rightarrow> gerror + 'w commandFuncs \<Rightarrow> 'w commandFuncs" where
  "commandFuncsForArgs args printVersion printUsage created =
     (case args of
        a # _ \<Rightarrow>
          if a = ''version'' then noFuncs\<lparr>cf_version := Some printVersion\<rparr>
          else if a = ''help'' \<or> a = ''-h'' \<or> a = ''--help'' then noFuncs\<lparr>cf_help := Some printUsage\<rparr>
          else (case created of Inl e \<Rightarrow> failingFuncs e | Inr funcs \<Rightarrow> funcs)
      | [] \<Rightarrow> (case created of Inl e \<Rightarrow> failingFuncs e | Inr funcs \<Rightarrow> funcs))"

section \<open>Coming back inside tmux\<close>

definition shellQuote :: "string \<Rightarrow> string" where
  "shellQuote value = quote_literal value"

definition bootstrap_command :: "string \<Rightarrow> string \<Rightarrow> string" where
  "bootstrap_command executable name =
     shellQuote executable @ '' _bootstrap'' @ (if name \<noteq> [] then '' --name '' @ shellQuote name else [])"

section \<open>The flags of the worker\<close>

text \<open>
  \<open>strconv.ParseInt(s, 0, 64)\<close>, which the package \<open>flag\<close> uses for an \<open>int\<close>: an optional sign, a base
  prefix, digits with underscores between them.
\<close>

definition digit_of :: "char \<Rightarrow> nat option" where
  "digit_of c =
     (if is_digit c then Some (code c - 48)
      else if 97 \<le> code (lower_char c) \<and> code (lower_char c) \<le> 122 then Some (code (lower_char c) - 97 + 10)
      else None)"

fun base_value :: "nat \<Rightarrow> string \<Rightarrow> nat \<Rightarrow> nat option" where
  "base_value base [] n = Some n"
| "base_value base (c # s) n =
     (if c = CHR ''_'' then base_value base s n
      else case digit_of c of
        None \<Rightarrow> None
      | Some d \<Rightarrow> if d \<ge> base then None else base_value base s (base * n + d))"

definition base_prefix :: "string \<Rightarrow> nat \<times> string" where
  "base_prefix s =
     (if HasPrefix s ''0'' then
        if length s \<ge> 3 \<and> lower_char (s ! 1) = CHR ''b'' then (2, drop 2 s)
        else if length s \<ge> 3 \<and> lower_char (s ! 1) = CHR ''o'' then (8, drop 2 s)
        else if length s \<ge> 3 \<and> lower_char (s ! 1) = CHR ''x'' then (16, drop 2 s)
        else (8, drop 1 s)
      else (10, s))"

text \<open>\<open>underscoreOK\<close>; the state is \<open>^\<close> at the start, \<open>0\<close> after a digit, \<open>_\<close> and \<open>!\<close>.\<close>

fun underscores_ok :: "bool \<Rightarrow> char \<Rightarrow> string \<Rightarrow> bool" where
  "underscores_ok hex i [] = (i \<noteq> CHR ''_'')"
| "underscores_ok hex i (c # s) =
     (if is_digit c \<or> (hex \<and> 97 \<le> code (lower_char c) \<and> code (lower_char c) \<le> 102) then underscores_ok hex CHR ''0'' s
      else if c = CHR ''_'' then i = CHR ''0'' \<and> underscores_ok hex CHR ''_'' s
      else i \<noteq> CHR ''_'' \<and> underscores_ok hex CHR ''!'' s)"

definition underscoreOK :: "string \<Rightarrow> bool" where
  "underscoreOK s =
     (if length s \<ge> 2 \<and> s ! 0 = CHR ''0'' \<and> lower_char (s ! 1) \<in> set ''box''
      then underscores_ok (lower_char (s ! 1) = CHR ''x'') CHR ''0'' (drop 2 s)
      else underscores_ok False CHR ''^'' s)"

definition ParseInt0 :: "string \<Rightarrow> int option" where
  "ParseInt0 s =
     (let neg = HasPrefix s ''-''; u = (if neg \<or> HasPrefix s ''+'' then drop 1 s else s); (base, ds) = base_prefix u in
      if u = [] then None
      else case base_value base ds 0 of
        None \<Rightarrow> None
      | Some n \<Rightarrow>
          if CHR ''_'' \<in> set ds \<and> \<not> underscoreOK u then None
          else if \<not> neg \<and> n \<ge> 2 ^ 63 \<or> neg \<and> n > 2 ^ 63 then None
          else Some (if neg then - int n else int n))"

text \<open>The four flags of \<open>_serve\<close> while they are parsed, and the package's parser for flags that take a value.\<close>

record serveArgs =
  sa_instanceID :: string
  sa_controlSocket :: string
  sa_recordFD :: int
  sa_readyFD :: int

definition setServeFlag :: "string \<Rightarrow> string \<Rightarrow> serveArgs \<Rightarrow> serveArgs option" where
  "setServeFlag name value p =
     (if name = ''instance'' then Some (p\<lparr>sa_instanceID := value\<rparr>)
      else if name = ''control'' then Some (p\<lparr>sa_controlSocket := value\<rparr>)
      else if name = ''record-fd'' then map_option (\<lambda>n. p\<lparr>sa_recordFD := n\<rparr>) (ParseInt0 value)
      else if name = ''ready-fd'' then map_option (\<lambda>n. p\<lparr>sa_readyFD := n\<rparr>) (ParseInt0 value)
      else None)"

text \<open>\<open>Parse\<close>: the parsed flags and the arguments that are left, \<open>None\<close> for an error.\<close>

function parse_flags :: "string list \<Rightarrow> serveArgs \<Rightarrow> (serveArgs \<times> string list) option" where
  "parse_flags args p =
     (case args of
        [] \<Rightarrow> Some (p, [])
      | s # rest \<Rightarrow>
          if length s < 2 \<or> s ! 0 \<noteq> CHR ''-'' then Some (p, args)
          else if s = ''--'' then Some (p, rest)
          else
            let name = drop (if s ! 1 = CHR ''-'' then 2 else 1) s in
            if HasPrefix name ''-'' \<or> HasPrefix name ''='' then None
            else (case IndexByte (drop 1 name) CHR ''='' of
                Some i \<Rightarrow>
                  (case setServeFlag (take (Suc i) name) (drop (i + 2) name) p of
                     None \<Rightarrow> None
                   | Some p' \<Rightarrow> parse_flags rest p')
              | None \<Rightarrow>
                  (case rest of
                     [] \<Rightarrow> None
                   | value # rest' \<Rightarrow>
                       (case setServeFlag name value p of
                          None \<Rightarrow> None
                        | Some p' \<Rightarrow> parse_flags rest' p'))))"
  by pat_completeness auto
termination
  by (relation "measure (length \<circ> fst)") auto

declare parse_flags.simps [simp del]

definition parseServeArgs :: "string list \<Rightarrow> gerror + serveArgs" where
  "parseServeArgs args =
     (case parse_flags args \<lparr>sa_instanceID = [], sa_controlSocket = [], sa_recordFD = -1, sa_readyFD = -1\<rparr> of
        Some (parsed, []) \<Rightarrow>
          if sa_instanceID parsed = [] \<or> \<not> IsAbs (sa_controlSocket parsed) \<or> sa_recordFD parsed \<noteq> 3 \<or> sa_readyFD parsed \<noteq> 4
          then Inl (Msg ''invalid internal worker arguments'')
          else Inr parsed
      | _ \<Rightarrow> Inl (Msg ''invalid internal worker arguments''))"

section \<open>Locations and identities\<close>

definition storeFromEnvironment :: "(string \<Rightarrow> string) \<Rightarrow> gerror + string \<Rightarrow> gerror + Store" where
  "storeFromEnvironment getenv userHome =
     (case (if getenv ''XDG_STATE_HOME'' = [] then
              (case userHome of Inl e \<Rightarrow> Inl (Wrapf ''resolve home directory: '' e)
               | Inr home \<Rightarrow> Inr (PathJoin [home, ''.local'', ''state'']))
            else Inr (getenv ''XDG_STATE_HOME'')) of
        Inl e \<Rightarrow> Inl e
      | Inr stateBase \<Rightarrow>
          if \<not> IsAbs stateBase then Inl (Msg ''XDG_STATE_HOME must be absolute'')
          else
            let stateRoot = PathJoin [stateBase, ''wrap'']; runtimeBase = getenv ''XDG_RUNTIME_DIR'' in
            if runtimeBase \<noteq> [] then
              if \<not> IsAbs runtimeBase then Inl (Msg ''XDG_RUNTIME_DIR must be absolute'')
              else Inr \<lparr>s_StateRoot = stateRoot, s_RuntimeRoot = PathJoin [runtimeBase, ''wrap'']\<rparr>
            else Inr \<lparr>s_StateRoot = stateRoot, s_RuntimeRoot = PathJoin [stateRoot, ''runtime'']\<rparr>)"

definition newInstanceID :: "gerror + string \<Rightarrow> gerror + string" where
  "newInstanceID random =
     (case random of Inl e \<Rightarrow> Inl (Wrapf ''generate Wrap instance ID: '' e) | Inr value \<Rightarrow> Inr (hex_encode value))"

section \<open>Text for a terminal\<close>

text \<open>\<open>strconv.QuoteToGraphic\<close>: the runes that \<open>IsPrint\<close> or that are spaces of category Z, escapes for the rest.\<close>

definition graphic_spaces :: "rune list" where
  "graphic_spaces = [0xA0, 0x1680] @ [0x2000..<0x200B] @ [0x202F, 0x205F, 0x3000]"

fun hex_width :: "nat \<Rightarrow> nat \<Rightarrow> string" where
  "hex_width 0 r = []"
| "hex_width (Suc n) r = hex_digit (r div 16 ^ n mod 16) # hex_width n r"

definition escape_rune :: "(rune \<Rightarrow> bool) \<Rightarrow> rune \<Rightarrow> string" where
  "escape_rune up r =
     (if r = 0x22 \<or> r = 0x5C then [CHR 0x5C, char_of r]
      else if IsPrint up r \<or> r \<in> set graphic_spaces then EncodeRune r
      else if r = 0x07 then [CHR 0x5C, CHR ''a'']
      else if r = 0x08 then [CHR 0x5C, CHR ''b'']
      else if r = 0x0C then [CHR 0x5C, CHR ''f'']
      else if r = 0x0A then [CHR 0x5C, CHR ''n'']
      else if r = 0x0D then [CHR 0x5C, CHR ''r'']
      else if r = 0x09 then [CHR 0x5C, CHR ''t'']
      else if r = 0x0B then [CHR 0x5C, CHR ''v'']
      else if r < 0x20 \<or> r = 0x7F then [CHR 0x5C, CHR ''x''] @ hex_width 2 r
      else if r < 0x10000 then [CHR 0x5C, CHR ''u''] @ hex_width 4 r
      else [CHR 0x5C, CHR ''U''] @ hex_width 8 r)"

text \<open>A byte that starts no valid rune is escaped on its own; \<open>runes_w\<close> gives it the width 1.\<close>

fun quote_runes :: "(rune \<Rightarrow> bool) \<Rightarrow> string \<Rightarrow> (rune \<times> nat) list \<Rightarrow> string" where
  "quote_runes up s [] = []"
| "quote_runes up s ((r, n) # rs) =
     (if r = RuneError \<and> n = 1 then [CHR 0x5C, CHR ''x''] @ hex_width 2 (code (hd s)) else escape_rune up r)
     @ quote_runes up (drop n s) rs"

definition safeHumanText :: "(rune \<Rightarrow> bool) \<Rightarrow> string \<Rightarrow> string" where
  "safeHumanText up value = quote_runes up value (runes_w value)"

definition safeHumanLabel :: "(rune \<Rightarrow> bool) \<Rightarrow> string \<Rightarrow> string" where
  "safeHumanLabel up value = [CHR 0x22] @ safeHumanText up value @ [CHR 0x22]"

text \<open>\<open>writeStatus\<close> without \<open>--json\<close>: what it prints.\<close>

definition writeStatus_text :: "(rune \<Rightarrow> bool) \<Rightarrow> Status \<Rightarrow> string" where
  "writeStatus_text up st =
     ''Wrap '' @ st_Name st @ '' ('' @ st_ID st @ '')'' @ [newline] @ st_PairingURL st @ [newline]
     @ (if st_Warning st \<noteq> [] then ''Warning: '' @ safeHumanText up (st_Warning st) @ [newline] else [])
     @ (if st_QR st \<noteq> [] then st_QR st else [])"


section \<open>The way back inside tmux\<close>

interpretation sq: word_quoting shell_special shellQuote
  by unfold_locales (simp add: shellQuote_def quote_literal_read)

lemma plain_word_read:
  assumes "plain shell_special True a" "a \<noteq> []" "s = [] \<or> hd s = CHR '' ''"
  shows "lex_bare shell_special (a @ s) None = lex_bare shell_special s (Some a)"
  by (rule plain_read) fact+

lemma bootstrap_words:
  "lex_words shell_special (bootstrap_command executable name) =
     Some ([executable, ''_bootstrap''] @ (if name \<noteq> [] then [''--name'', name] else []))"
proof -
  have pb: "plain shell_special True ''_bootstrap''" "plain shell_special True ''--name''"
    by (simp_all add: shell_special_def)
  have r: "lex_bare shell_special (shellQuote executable @ t) None = lex_bare shell_special t (Some executable)"
    if "t = [] \<or> hd t = CHR '' ''" for t
    using that by (rule sq.quote_read)
  show ?thesis
  proof (cases "name = []")
    case True
    have "lex_bare shell_special '' _bootstrap'' (Some executable) = Some [executable, ''_bootstrap'']"
      using plain_read [OF pb(1), of "[]"] by simp
    with True show ?thesis by (simp add: lex_words_def bootstrap_command_def r)
  next
    case False
    define q where "q = shellQuote name"
    have q: "lex_bare shell_special q None = Some [name]"
      using sq.quote_read [of "[]" name] by (simp add: q_def)
    have 2: "lex_bare shell_special (''--name'' @ '' '' @ q) None = Some [''--name'', name]"
      using plain_read [OF pb(2), of "'' '' @ q"] q by simp
    have 1: "lex_bare shell_special (''_bootstrap'' @ '' '' @ ''--name'' @ '' '' @ q) None = Some [''_bootstrap'', ''--name'', name]"
      using plain_read [OF pb(1), of "'' '' @ ''--name'' @ '' '' @ q"] 2 by simp
    have "lex_bare shell_special (shellQuote executable @ '' _bootstrap'' @ '' --name '' @ q) None =
        lex_bare shell_special ('' '' @ ''_bootstrap'' @ '' '' @ ''--name'' @ '' '' @ q) (Some executable)"
      by (subst r) simp_all
    also have "\<dots> = Some [executable, ''_bootstrap'', ''--name'', name]" using 1 by simp
    finally show ?thesis using False by (simp add: lex_words_def bootstrap_command_def q_def)
  qed
qed

text \<open>C39: The command line that \<open>start\<close> gives to a new tmux session comes back as it was meant: a shell reads it as
  the executable and arguments that dispatch to the bootstrap command with the requested name, whatever
  characters the path and the name hold.\<close>

theorem bootstrap_command_returns:
  "\<exists>args. lex_words shell_special (bootstrap_command executable name) = Some (executable # args)
     \<and> (\<forall>funcs :: 'w commandFuncs. runArgs args funcs =
          (case cf_bootstrap funcs of None \<Rightarrow> cfail (Msg ''bootstrap command is unavailable'') | Some f \<Rightarrow> f name))"
  unfolding bootstrap_words
  by (auto simp: runArgs_def parsePrivateName_def split: option.splits)

section \<open>The way into the worker\<close>

lemma parse_flag_value:
  assumes "length name \<ge> 1" "CHR ''='' \<notin> set name" "\<not> HasPrefix name ''-''" "setServeFlag name v p = Some p'"
  shows "parse_flags ((''--'' @ name) # v # rest) p = parse_flags rest p'"
proof -
  have "\<not> HasPrefix name ''=''" using assms(1,2) by (cases name) (auto simp: HasPrefix_def)
  moreover have "IndexByte (drop 1 name) CHR ''='' = None"
  proof -
    have "c \<notin> set s \<Longrightarrow> IndexByte s c = None" for s :: string and c by (induction s) auto
    then show ?thesis using assms(2) by (meson in_set_dropD)
  qed
  ultimately show ?thesis
    using assms by (subst parse_flags.simps) auto
qed

text \<open>The arguments with which a worker is started dispatch to the worker command, and the worker reads
  from them the instance, the control socket and the two descriptors.\<close>

theorem worker_arguments_roundtrip:
  assumes "r_ID r \<noteq> []" and "IsAbs (r_ControlSocket r)"
  shows "\<exists>args. serve_args executable r = executable # ''_serve'' # args
    \<and> parseServeArgs args = Inr \<lparr>sa_instanceID = r_ID r, sa_controlSocket = r_ControlSocket r, sa_recordFD = 3, sa_readyFD = 4\<rparr>
    \<and> (\<forall>funcs :: 'w commandFuncs. runArgs (''_serve'' # args) funcs =
         (case cf_serve funcs of None \<Rightarrow> cfail (Msg ''worker command is unavailable'') | Some f \<Rightarrow> f args))"
proof -
  have n: "ParseInt0 ''3'' = Some 3" "ParseInt0 ''4'' = Some 4"
    by (simp_all add: ParseInt0_def base_prefix_def HasPrefix_def digit_of_def is_digit_def Let_def)
  define p0 where "p0 = \<lparr>sa_instanceID = [], sa_controlSocket = [], sa_recordFD = -1, sa_readyFD = -1\<rparr>"
  have e: "parse_flags [] p = Some (p, [])" for p by (simp add: parse_flags.simps)
  have "parse_flags [''--instance'', r_ID r, ''--control'', r_ControlSocket r, ''--record-fd'', ''3'', ''--ready-fd'', ''4''] p0 =
     Some (\<lparr>sa_instanceID = r_ID r, sa_controlSocket = r_ControlSocket r, sa_recordFD = 3, sa_readyFD = 4\<rparr>, [])"
    using parse_flag_value [of "''instance''"] parse_flag_value [of "''control''"] parse_flag_value [of "''record-fd''"]
      parse_flag_value [of "''ready-fd''"]
    by (simp add: setServeFlag_def HasPrefix_def n e p0_def)
  then show ?thesis
    using assms by (auto simp: serve_args_def parseServeArgs_def p0_def runArgs_def)
qed

theorem worker_arguments_roundtrip_witness:
  "\<exists>args. serve_args ''/usr/bin/wrap'' demo_record = ''/usr/bin/wrap'' # ''_serve'' # args
    \<and> parseServeArgs args = Inr \<lparr>sa_instanceID = r_ID demo_record, sa_controlSocket = r_ControlSocket demo_record, sa_recordFD = 3, sa_readyFD = 4\<rparr>"
  using worker_arguments_roundtrip [of demo_record "''/usr/bin/wrap''"] by (auto simp: demo_record_def IsAbs_def HasPrefix_def)

section \<open>Printed text holds no control characters\<close>

definition shown_rune :: "(rune \<Rightarrow> bool) \<Rightarrow> rune \<Rightarrow> bool" where
  "shown_rune up r \<longleftrightarrow> IsPrint up r \<or> r \<in> set graphic_spaces"

lemma shown_ascii:
  assumes "\<forall>c \<in> set t. 0x20 \<le> code c \<and> code c \<le> 0x7E"
  shows "\<exists>rs. t = encode_runes rs \<and> (\<forall>r \<in> set rs. shown_rune up r)"
proof (intro exI conjI)
  show "t = encode_runes (map code t)" using assms by (subst encode_ascii) force+
  show "\<forall>r \<in> set (map code t). shown_rune up r" using assms by (force simp: shown_rune_def IsPrint_def)
qed

lemma hex_width_shown: "\<forall>c \<in> set (hex_width n r). 0x20 \<le> code c \<and> code c \<le> 0x7E"
  by (induction n) (auto simp: code_hex_digit)

lemma escape_rune_shown: "\<exists>rs. escape_rune up r = encode_runes rs \<and> (\<forall>q \<in> set rs. shown_rune up q)"
proof (cases "(r = 0x22 \<or> r = 0x5C) \<or> \<not> (IsPrint up r \<or> r \<in> set graphic_spaces)")
  case True
  then show ?thesis
    using hex_width_shown by (intro shown_ascii) (auto simp: escape_rune_def)
next
  case False
  then have "escape_rune up r = encode_runes [r]" "shown_rune up r"
    by (simp_all add: escape_rune_def encode_runes_def shown_rune_def)
  then show ?thesis by (intro exI [of _ "[r]"]) simp
qed

text \<open>Text that is printed for people is a sequence of printable runes and graphic spaces: no control
  character of a name, a path or an error reaches the terminal.\<close>

theorem safeHumanText_shows_no_control:
  "\<exists>rs. safeHumanText up value = encode_runes rs \<and> list_all (\<lambda>r. IsPrint up r \<or> r \<in> set graphic_spaces) rs"
proof -
  have "\<exists>rs. quote_runes up s xs = encode_runes rs \<and> (\<forall>r \<in> set rs. shown_rune up r)" for s xs
  proof (induction xs arbitrary: s)
    case Nil
    show ?case by (intro exI [of _ "[]"]) (simp add: encode_runes_def)
  next
    case (Cons x xs)
    obtain r n where x: "x = (r, n)" by (rule prod.exhaust)
    have "\<exists>rs. (if r = RuneError \<and> n = 1 then [CHR 0x5C, CHR ''x''] @ hex_width 2 (code (hd s)) else escape_rune up r)
        = encode_runes rs \<and> (\<forall>q \<in> set rs. shown_rune up q)"
    proof (cases "r = RuneError \<and> n = 1")
      case True
      then show ?thesis using hex_width_shown by (simp, intro shown_ascii) auto
    qed (use escape_rune_shown in auto)
    then obtain as bs where
      "(if r = RuneError \<and> n = 1 then [CHR 0x5C, CHR ''x''] @ hex_width 2 (code (hd s)) else escape_rune up r) = encode_runes as"
      "\<forall>q \<in> set as. shown_rune up q"
      "quote_runes up (drop n s) xs = encode_runes bs" "\<forall>q \<in> set bs. shown_rune up q"
      using Cons.IH [of "drop n s"] by blast
    then show ?case by (intro exI [of _ "as @ bs"]) (auto simp: x encode_runes_append)
  qed
  then show ?thesis unfolding safeHumanText_def shown_rune_def list_all_iff by blast
qed

end
