(* ===== verification/Instance_Artifacts.thy ===== *)
theory Instance_Artifacts
  imports Instance_Invariant
begin

text \<open>
  Runtime paths and finished instances: the store that follows a record's control socket
  (\<open>ForRecord\<close>) and what pruning may remove (\<open>PruneCompletedArtifacts\<close>).
\<close>

section \<open>Stores of a record\<close>

lemma clean_split:
  assumes "Clean p = p" "IsAbs p" "Base p = c" "proper c"
  shows "p = PathJoin [Dir p, c] \<and> Dir p \<noteq> []"
proof -
  let ?cs = "clean_elems p"
  have p: "p = render True ?cs" using assms(1,2) by (simp add: Clean_def)
  have form: "clean_form True ?cs" using clean_elems_form [of p] assms(2) by simp
  have "?cs \<noteq> []"
  proof
    assume "?cs = []"
    then have "p = ''/''" using p by (simp add: render_def)
    with assms(3) have "c = ''/''" by (simp add: Base_def)
    with assms(4) show False by (simp add: proper_def)
  qed
  then obtain ds d where cs: "?cs = ds @ [d]" by (metis rev_exhaust)
  then have formd: "clean_form True ds" and pd: "proper d"
    using form unfolding clean_form_def by (auto simp: list_all_iff)
  let ?d = "render True ds"
  have d: "IsAbs ?d" "clean_elems ?d = ds" "Clean ?d = ?d" "?d \<noteq> []"
    using IsAbs_render [OF formd] clean_elems_render [OF formd] Clean_render [OF formd]
    by (auto simp: render_def)
  then have pj: "PathJoin [?d, d] = p" using PathJoin_elems [of ?d d] pd p cs by simp
  then have "d = c" using Base_PathJoin [OF d(4) pd] assms(3) by simp
  moreover have "Dir p = ?d" using Dir_PathJoin [OF d(4) pd] d(3) pj by simp
  ultimately show ?thesis using pj d(4) by simp
qed

text \<open>When \<open>ForRecord\<close> accepts a record, the store it returns keeps the state root, its
  runtime root is not the root directory, the record's control socket is exactly
  \<open>ID.sock\<close> in it and the instance's lease lies in the same directory.\<close>

theorem ForRecord_follows_socket:
  assumes "ForRecord s r = Inr s'" and "idPattern (r_ID r)"
  shows "s_StateRoot s' = s_StateRoot s \<and> s_RuntimeRoot s' \<noteq> ''/''
    \<and> PathJoin [s_RuntimeRoot s', r_ID r @ ''.sock''] = r_ControlSocket r
    \<and> Dir (lease_path s' (r_ID r)) = Dir (r_ControlSocket r)"
proof -
  let ?p = "r_ControlSocket r"
  have p: "Clean ?p = ?p" "IsAbs ?p" "Base ?p = r_ID r @ ''.sock''" and d: "Dir ?p \<noteq> ''/''"
      and s': "s' = s\<lparr>s_RuntimeRoot := Dir ?p\<rparr>"
    using assms(1) by (auto simp: ForRecord_def Let_def split: if_splits)
  have pr: "proper (r_ID r @ ''.sock'')" "proper (r_ID r @ ''.lease'')"
    using assms(2) by (simp_all add: idPattern_proper)
  have c: "?p = PathJoin [Dir ?p, r_ID r @ ''.sock'']" "Dir ?p \<noteq> []"
    using clean_split [OF p pr(1)] by auto
  have "Clean (Dir ?p) = Dir ?p" by (simp add: Dir_def)
  then have "Dir (lease_path s' (r_ID r)) = Dir ?p"
    using Dir_PathJoin [OF c(2) pr(2)] by (simp add: lease_path_def s')
  with d c s' show ?thesis by simp
qed

theorem ForRecord_follows_socket_witness:
  "\<exists>s'. ForRecord demo_store demo_record = Inr s' \<and> s_RuntimeRoot s' \<noteq> ''/''"
proof -
  have "ForRecord demo_store demo_record = Inr (demo_store\<lparr>s_RuntimeRoot := ''/run''\<rparr>)"
    by code_simp
  from ForRecord_follows_socket [OF this] this show ?thesis
    by (simp add: demo_record_def refusing_run_facts)
qed

section \<open>Pruning\<close>

lemma collect_entries_problem:
  "name \<in> set names \<Longrightarrow> record_name name \<Longrightarrow> f name = Inl e \<Longrightarrow> (name, e) \<in> set (snd (collect_entries f names))"
  by (induction names) (auto split: prod.splits sum.splits)

lemma record_protected:
  assumes "readAllUnlocked dec up s w = Inr (records, problems)" and "s_StateRoot s \<noteq> []" and "idPattern i"
    and "lookup w (record_path s i) \<noteq> None"
  shows "i \<in> set (protected_ids records problems)"
proof -
  let ?f = "read_entry dec up s w" and ?names = "child_names (InstancesDir s) w" and ?n = "i @ ''.json''"
  obtain rs' where c: "collect_entries ?f ?names = (rs', problems)"
      and rs: "records = sort_key (\<lambda>r. (r_Name r, r_ID r)) rs'"
    using assms(1) by (auto simp: readAllUnlocked_def ReadDir_def split: option.splits node.splits prod.splits)
  have n: "?n \<in> set ?names" "record_name ?n"
    using assms(3,4) InstancesDir_nonempty [OF assms(2)] idPattern_proper [OF assms(3), of "''.json''"]
    by (simp_all add: set_child_names record_path_def record_name_json)
  show ?thesis
  proof (cases "?f ?n")
    case (Inl e)
    with collect_entries_problem [of ?n ?names ?f e] n c have "(?n, e) \<in> set problems" by simp
    then have "i \<in> set (map (\<lambda>(name, _). TrimSuffix name ''.json'') problems)" by force
    then show ?thesis using assms(3) by (simp add: protected_ids_def)
  next
    case (Inr r)
    with n c rs collect_entries_set [of r ?f ?names] have "r \<in> set records" by auto
    moreover have "r_ID r = i" using read_entry_name [OF n(2) Inr] by simp
    ultimately show ?thesis by (auto simp: protected_ids_def)
  qed
qed

lemma prune_victims_not_protected:
  assumes "prune_victims dec up s retain w = Inr victims"
  shows "\<exists>records problems. readAllUnlocked dec up s w = Inr (records, problems)
    \<and> set victims \<inter> set (protected_ids records problems) = {}"
  using assms
  by (auto simp: prune_victims_def newest_first_def split: sum.splits prod.splits dest!: in_set_dropD)

text \<open>A lease that another process holds ends the pruning of its instance at once.\<close>

definition same_disk :: "'c world \<Rightarrow> 'c world \<Rightarrow> bool" where
  "same_disk w w' \<longleftrightarrow> lookup w' = lookup w \<and> w_locks w' = w_locks w"

lemma same_disk_refl [simp]: "same_disk w w"
  by (simp add: same_disk_def)

lemma same_disk_fault: "fault w = (r, w') \<Longrightarrow> same_disk w w'"
  by (auto simp: fault_def same_disk_def lookup_def fun_eq_iff split: list.splits option.splits)

lemma same_disk_trans: "same_disk w w' \<Longrightarrow> same_disk w' w'' \<Longrightarrow> same_disk w w''"
  by (simp add: same_disk_def)

lemma same_disk_mkdir:
  assumes "lookup w p = Some Directory" and "mkdirPrivate p w = (r, w')"
  shows "same_disk w w'"
proof -
  obtain r1 w1 where f: "fault w = (r1, w1)" by (rule prod.exhaust)
  have s1: "same_disk w w1" by (rule same_disk_fault [OF f])
  then have l1: "lookup w1 p = Some Directory" using assms(1) by (simp add: same_disk_def)
  obtain r2 w2 where f2: "fault w1 = (r2, w2)" by (rule prod.exhaust)
  have s2: "same_disk w1 w2" by (rule same_disk_fault [OF f2])
  have "w' = w1 \<or> w' = w2"
    using assms(2) f f2 l1
    by (auto simp: mkdirPrivate_def wrapErr_def MkdirAll_def Chmod_def Lstat_def is_dir_def io_simps
        split: sum.splits)
  then show ?thesis using s1 s2 same_disk_trans by blast
qed

lemma AcquireLease_held:
  assumes "lookup w (lease_path s i) = Some (Regular inode m rd c)" and "inode \<in> set (w_locks w)"
    and "lookup w (s_RuntimeRoot s) = Some Directory" and "AcquireLease s i w = (r, w')"
  shows "same_disk w w' \<and> (\<exists>e. r = Inl e)"
proof -
  obtain r1 w1 where mk: "mkdirPrivate (s_RuntimeRoot s) w = (r1, w1)" by (rule prod.exhaust)
  have s1: "same_disk w w1" by (rule same_disk_mkdir [OF assms(3) mk])
  then have l1: "lookup w1 (lease_path s i) = Some (Regular inode m rd c)"
    using assms(1) by (simp add: same_disk_def)
  obtain r2 w2 where f2: "fault w1 = (r2, w2)" by (rule prod.exhaust)
  note s2 = same_disk_trans [OF s1 same_disk_fault [OF f2]]
  then have l2: "lookup w2 (lease_path s i) = Some (Regular inode m rd c)"
    using assms(1) by (simp add: same_disk_def)
  obtain r3 w3 where f3: "fault w2 = (r3, w3)" by (rule prod.exhaust)
  note s3 = same_disk_trans [OF s2 same_disk_fault [OF f3]]
  obtain r4 w4 where f4: "fault w3 = (r4, w4)" by (rule prod.exhaust)
  note s4 = same_disk_trans [OF s3 same_disk_fault [OF f4]]
  have k4: "inode \<in> set (w_locks w4)" using s4 assms(2) by (simp add: same_disk_def)
  have "(w' = w \<or> w' = w1 \<or> w' = w2 \<or> w' = w3 \<or> w' = w4) \<and> (\<exists>e. r = Inl e)"
    using assms(4) mk l1 l2 f2 f3 f4 k4
    by (auto simp: AcquireLease_def Let_def io_simps wrapErr_def OpenCreate_def FlockNB_def Lstat_def is_regular_def
        split: sum.splits if_splits)
  then show ?thesis using s1 s2 s3 s4 by auto
qed

lemma prune_held:
  assumes "lookup w (lease_path s i) = Some (Regular inode m rd c)" and "inode \<in> set (w_locks w)"
    and "lookup w (s_RuntimeRoot s) = Some Directory"
  shows "lookup (snd (pruneCompletedArtifact s i w)) = lookup w"
proof -
  obtain r w1 where a: "AcquireLease s i w = (r, w1)" by (rule prod.exhaust)
  with AcquireLease_held [OF assms a] show ?thesis
    by (auto simp: pruneCompletedArtifact_def io_simps same_disk_def)
qed



end
