(* ===== verification/Doctor.thy ===== *)
theory Doctor
  imports Cli_Args Instance_Artifacts Mirror_Tunnel
begin

text \<open>
  The checks of \<open>internal/doctor/doctor.go\<close>: the two programs Wrap needs, the state directories and
  the records in them, and tmux servers of an older Wrap. Looking up and running programs and calling
  a worker are parameters; every call is a step on a state \<open>'w\<close>.
\<close>

section \<open>Dependencies\<close>

record Dependency =
  dep_Name :: string
  dep_Path :: string
  dep_Version :: string
  dep_OK :: bool
  dep_Error :: string

type_synonym 'w program = "string \<Rightarrow> string list \<Rightarrow> ('w, string) io"

definition checkDependency ::
    "string \<Rightarrow> (string \<Rightarrow> gerror + string) \<Rightarrow> 'w program \<Rightarrow> string list \<Rightarrow> (string \<Rightarrow> gerror + string) \<Rightarrow> 'w
     \<Rightarrow> Dependency \<times> 'w" where
  "checkDependency name lookPath run args parse w =
     (let dependency = \<lparr>dep_Name = name, dep_Path = [], dep_Version = [], dep_OK = False, dep_Error = []\<rparr> in
      case lookPath name of
        Inl e \<Rightarrow> (dependency\<lparr>dep_Error := name @ '' not found on PATH''\<rparr>, w)
      | Inr path \<Rightarrow>
          let dependency = dependency\<lparr>dep_Path := path\<rparr> in
          (case run path args w of
             (Inl e, w1) \<Rightarrow> (dependency\<lparr>dep_Error := ''could not read '' @ name @ '' version''\<rparr>, w1)
           | (Inr output, w1) \<Rightarrow>
               (case parse output of
                  Inl e \<Rightarrow> (dependency\<lparr>dep_Error := error_text e\<rparr>, w1)
                | Inr version \<Rightarrow> (dependency\<lparr>dep_Version := version, dep_OK := True\<rparr>, w1))))"

definition CheckDependencies ::
    "(string \<Rightarrow> gerror + string) \<Rightarrow> 'w program \<Rightarrow> 'w \<Rightarrow> (Dependency \<times> Dependency) \<times> 'w" where
  "CheckDependencies lookPath run w =
     (let (t, w1) = checkDependency ''tmux'' lookPath run [''-V''] CheckVersionOutput w;
          (c, w2) = checkDependency ''cloudflared'' lookPath run [''--version''] parseCloudflaredVersion w1
      in ((t, c), w2))"

section \<open>State\<close>

record StateReport =
  sr_StateRoot :: string
  sr_RuntimeRoot :: string
  sr_SafePermissions :: bool
  sr_Live :: nat
  sr_Stale :: nat
  sr_Unreachable :: nat
  sr_Malformed :: "string list"
  sr_Error :: string

text \<open>
  The permission bits of a file are a parameter, as the model of the file system has none. A path that
  does not exist is fine.
\<close>

definition safe_path :: "(string \<Rightarrow> nat) \<Rightarrow> 'c world \<Rightarrow> string \<Rightarrow> bool" where
  "safe_path perm w path \<longleftrightarrow>
     path \<noteq> [] \<and>
     (case Lstat path w of
        Inl e \<Rightarrow> errors_is e ErrNotExist
      | Inr n \<Rightarrow> is_dir n \<and> perm path = 448)"

type_synonym 'w caller = "string \<Rightarrow> Request \<Rightarrow> ('w, Status) io"

definition statusRequest :: "string \<Rightarrow> Request" where
  "statusRequest i = \<lparr>q_InstanceID = i, q_Action = ActionStatus, q_Name = []\<rparr>"

text \<open>\<open>ctxErr\<close> is the error of the context after a failed call.\<close>

fun probe_records ::
    "Store \<Rightarrow> ('c world \<times> 't) caller \<Rightarrow> (Record \<Rightarrow> 'c world \<times> 't \<Rightarrow> gerror option) \<Rightarrow> Record list \<Rightarrow> StateReport \<Rightarrow> 'c world \<times> 't
     \<Rightarrow> StateReport \<times> 'c world \<times> 't" where
  "probe_records s call ctxErr [] report w = (report, w)"
| "probe_records s call ctxErr (r # rs) report w =
     (case call (r_ControlSocket r) (statusRequest (r_ID r)) w of (answer, w1) \<Rightarrow>
      if (case answer of Inr st \<Rightarrow> st_ID st = r_ID r | Inl _ \<Rightarrow> False)
      then probe_records s call ctxErr rs (report\<lparr>sr_Live := sr_Live report + 1\<rparr>) w1
      else case ctxErr r w1 of
        Some e \<Rightarrow> (report\<lparr>sr_Error := ''state inspection canceled: '' @ error_text e\<rparr>, w1)
      | None \<Rightarrow>
          (case ForRecord s r of
             Inl e \<Rightarrow> probe_records s call ctxErr rs (report\<lparr>sr_Error := error_text e\<rparr>) w1
           | Inr recordStore \<Rightarrow>
               (case onFiles (LeaseHeld recordStore (r_ID r)) w1 of
                  (Inl e, w2) \<Rightarrow> probe_records s call ctxErr rs (report\<lparr>sr_Error := error_text e\<rparr>) w2
                | (Inr held, w2) \<Rightarrow>
                    if held then probe_records s call ctxErr rs (report\<lparr>sr_Unreachable := sr_Unreachable report + 1\<rparr>) w2
                    else probe_records s call ctxErr rs (report\<lparr>sr_Stale := sr_Stale report + 1\<rparr>) w2)))"

definition checkState ::
    "'c decoder \<Rightarrow> (rune \<Rightarrow> bool) \<Rightarrow> (string \<Rightarrow> nat) \<Rightarrow> Store \<Rightarrow> ('c world \<times> 't) caller \<Rightarrow> (Record \<Rightarrow> 'c world \<times> 't \<Rightarrow> gerror option)
     \<Rightarrow> 'c world \<times> 't \<Rightarrow> StateReport \<times> 'c world \<times> 't" where
  "checkState dec up perm s call ctxErr w =
     (let report = \<lparr>sr_StateRoot = s_StateRoot s, sr_RuntimeRoot = s_RuntimeRoot s,
            sr_SafePermissions = list_all (safe_path perm (fst w)) [s_StateRoot s, InstancesDir s, s_RuntimeRoot s],
            sr_Live = 0, sr_Stale = 0, sr_Unreachable = 0, sr_Malformed = [], sr_Error = []\<rparr> in
      case Inspect dec up s (fst w) of
        Inl e \<Rightarrow> (report\<lparr>sr_Error := error_text e\<rparr>, w)
      | Inr (records, problems) \<Rightarrow>
          probe_records s call ctxErr records
            (report\<lparr>sr_Malformed := map (\<lambda>(name, _). PathJoin [InstancesDir s, name]) problems\<rparr>) w)"

section \<open>Servers of an older Wrap\<close>

record LegacyServer =
  lg_Name :: string
  lg_Session :: string
  lg_ListCommand :: string
  lg_AttachCommand :: string

definition shell_bare :: "rune \<Rightarrow> bool" where
  "shell_bare r \<longleftrightarrow> rune_between CHR ''a'' CHR ''z'' r \<or> rune_between CHR ''A'' CHR ''Z'' r
     \<or> rune_between CHR ''0'' CHR ''9'' r \<or> r \<in> set (map code ''._-'')"

definition shellWord :: "string \<Rightarrow> string" where
  "shellWord value = (if list_all shell_bare (runes value) then value else quote_literal value)"

definition first_session :: "string \<Rightarrow> string" where
  "first_session output =
     (case find (\<lambda>line. TrimSpace line \<noteq> []) (map (\<lambda>line. TrimSuffix line [CHR 0x0D]) (Split output newline)) of
        None \<Rightarrow> [] | Some line \<Rightarrow> line)"

definition legacy_server :: "string \<Rightarrow> string \<Rightarrow> LegacyServer" where
  "legacy_server name session =
     \<lparr>lg_Name = name, lg_Session = session, lg_ListCommand = ''tmux -L '' @ name @ '' list-sessions'',
      lg_AttachCommand = ''tmux -L '' @ name @ '' attach-session -t '' @ shellWord session\<rparr>"

fun probe_legacy :: "string \<Rightarrow> 'w program \<Rightarrow> string list \<Rightarrow> 'w \<Rightarrow> LegacyServer list \<times> 'w" where
  "probe_legacy tmuxPath run [] w = ([], w)"
| "probe_legacy tmuxPath run (name # names) w =
     (case run tmuxPath [''-L'', name, ''list-sessions'', ''-F'', ''#{session_name}''] w of
        (Inl e, w1) \<Rightarrow> probe_legacy tmuxPath run names w1
      | (Inr output, w1) \<Rightarrow>
          let session = first_session output; (rest, w2) = probe_legacy tmuxPath run names w1 in
          (if session = [] then rest else legacy_server name session # rest, w2))"

definition checkLegacy :: "string \<Rightarrow> 'w program \<Rightarrow> 'w \<Rightarrow> LegacyServer list \<times> 'w" where
  "checkLegacy tmuxPath run w = probe_legacy tmuxPath run [''wrap'', ''wrap-ui''] w"

section \<open>The report\<close>

record Report =
  rp_Platform :: string
  rp_Tmux :: Dependency
  rp_Cloudflared :: Dependency
  rp_State :: StateReport
  rp_Legacy :: "LegacyServer list"

definition Check ::
    "'c decoder \<Rightarrow> (rune \<Rightarrow> bool) \<Rightarrow> (string \<Rightarrow> nat) \<Rightarrow> string \<Rightarrow> Store \<Rightarrow> (string \<Rightarrow> gerror + string) \<Rightarrow> ('c world \<times> 't) program
     \<Rightarrow> ('c world \<times> 't) caller \<Rightarrow> (Record \<Rightarrow> 'c world \<times> 't \<Rightarrow> gerror option) \<Rightarrow> 'c world \<times> 't \<Rightarrow> Report \<times> 'c world \<times> 't" where
  "Check dec up perm platform s lookPath run call ctxErr w =
     (let (t, w1) = checkDependency ''tmux'' lookPath run [''-V''] CheckVersionOutput w;
          (c, w2) = checkDependency ''cloudflared'' lookPath run [''--version''] parseCloudflaredVersion w1;
          (state, w3) = checkState dec up perm s call ctxErr w2;
          (legacy, w4) = (if dep_Path t \<noteq> [] then checkLegacy (dep_Path t) run w3 else ([], w3))
      in (\<lparr>rp_Platform = platform, rp_Tmux = t, rp_Cloudflared = c, rp_State = state, rp_Legacy = legacy\<rparr>, w4))"


section \<open>Recovery commands can be pasted into a shell\<close>

lemma shell_bare_plain:
  assumes "list_all shell_bare (runes word)"
  shows "plain shell_special True word"
proof -
  have a: "\<forall>c \<in> set word. shell_bare (code c) \<and> code c < 0x80"
    by (rule runes_between_ascii [OF assms]) (auto simp: shell_bare_def rune_between_def)
  have sp: "c \<notin> {CHR '' '', CHR 0x27, CHR 0x5C} \<and> \<not> shell_special b c s" if "shell_bare (code c)" for b c s
    using that by (auto simp: shell_bare_def rune_between_def shell_special_def)
  show ?thesis
  proof (cases word)
    case (Cons c cs)
    have "plain shell_special False cs" by (rule plain_within) (use a sp Cons in auto)
    then show ?thesis using a sp Cons by auto
  qed simp
qed

lemma shellWord_read:
  assumes "value \<noteq> []"
  shows "lex_bare shell_special (shellWord value @ s) None = lex_bare shell_special s (Some value)"
  using assms plain_read [OF shell_bare_plain] by (simp add: shellWord_def quote_literal_read)

lemma legacy_read:
  assumes "session \<noteq> []" and "name \<in> {''wrap'', ''wrap-ui''}"
  shows "lex_words shell_special (lg_AttachCommand (legacy_server name session)) =
    Some [''tmux'', ''-L'', name, ''attach-session'', ''-t'', session]"
proof -
  define q where "q = shellWord session"
  have q: "lex_bare shell_special q None = Some [session]"
    using shellWord_read [OF assms(1), of "[]"] by (simp add: q_def)
  have n: "plain shell_special True ''tmux''" "plain shell_special True ''-L''" "plain shell_special True name" "name \<noteq> []"
    "plain shell_special True ''attach-session''" "plain shell_special True ''-t''"
    using assms(2) by (auto simp: shell_special_def)
  have 1: "lex_bare shell_special (''-t'' @ '' '' @ q) None = Some [''-t'', session]"
    using plain_read [OF n(6), of "'' '' @ q"] q by simp
  have 2: "lex_bare shell_special (''attach-session'' @ '' '' @ ''-t'' @ '' '' @ q) None = Some [''attach-session'', ''-t'', session]"
    using plain_read [OF n(5), of "'' '' @ ''-t'' @ '' '' @ q"] 1 by simp
  have 3: "lex_bare shell_special (name @ '' '' @ ''attach-session'' @ '' '' @ ''-t'' @ '' '' @ q) None =
      Some [name, ''attach-session'', ''-t'', session]"
    using plain_read [OF n(3,4), of "'' '' @ ''attach-session'' @ '' '' @ ''-t'' @ '' '' @ q"] 2 by simp
  have 4: "lex_bare shell_special (''-L'' @ '' '' @ name @ '' '' @ ''attach-session'' @ '' '' @ ''-t'' @ '' '' @ q) None =
      Some [''-L'', name, ''attach-session'', ''-t'', session]"
    using plain_read [OF n(2), of "'' '' @ name @ '' '' @ ''attach-session'' @ '' '' @ ''-t'' @ '' '' @ q"] 3 by simp
  have "lex_bare shell_special (''tmux'' @ '' '' @ ''-L'' @ '' '' @ name @ '' '' @ ''attach-session'' @ '' '' @ ''-t'' @ '' '' @ q) None =
      Some [''tmux'', ''-L'', name, ''attach-session'', ''-t'', session]"
    using plain_read [OF n(1), of "'' '' @ ''-L'' @ '' '' @ name @ '' '' @ ''attach-session'' @ '' '' @ ''-t'' @ '' '' @ q"] 4 by simp
  then show ?thesis by (simp add: lex_words_def legacy_server_def q_def)
qed

lemma probe_legacy_entries:
  "set names \<subseteq> {''wrap'', ''wrap-ui''} \<Longrightarrow> l \<in> set (fst (probe_legacy tmuxPath run names w)) \<Longrightarrow>
   \<exists>name session. name \<in> {''wrap'', ''wrap-ui''} \<and> session \<noteq> [] \<and> l = legacy_server name session"
proof (induction names arbitrary: w)
  case (Cons name names)
  obtain r w1 where 1: "run tmuxPath [''-L'', name, ''list-sessions'', ''-F'', ''#{session_name}''] w = (r, w1)" by (rule prod.exhaust)
  obtain rest w2 where 2: "probe_legacy tmuxPath run names w1 = (rest, w2)" by (rule prod.exhaust)
  have n: "name \<in> {''wrap'', ''wrap-ui''}" "set names \<subseteq> {''wrap'', ''wrap-ui''}" using Cons.prems(1) by simp_all
  have "l \<in> set rest \<or> (\<exists>session. session \<noteq> [] \<and> l = legacy_server name session)"
    using Cons.prems(2) 1 2 by (cases r) (auto simp: Let_def split: if_splits)
  then show ?case using Cons.IH [OF n(2), of w1] 2 n(1) by auto
qed simp

lemma legacy_fields: "lg_Name (legacy_server name session) = name" "lg_Session (legacy_server name session) = session"
  by (simp_all add: legacy_server_def)

text \<open>The command that the doctor prints for the recovery of an older server is read by a shell as an attach
  to exactly the session that tmux listed, whatever characters its name holds.\<close>

theorem legacy_commands_read_back:
  "list_all (\<lambda>l. lex_words shell_special (lg_AttachCommand l) =
      Some [''tmux'', ''-L'', lg_Name l, ''attach-session'', ''-t'', lg_Session l])
     (fst (checkLegacy tmuxPath run w))"
  unfolding list_all_iff checkLegacy_def
proof
  fix l assume l: "l \<in> set (fst (probe_legacy tmuxPath run [''wrap'', ''wrap-ui''] w))"
  have "set [''wrap'', ''wrap-ui''] \<subseteq> {''wrap'', ''wrap-ui''}" by simp
  from probe_legacy_entries [OF this l] obtain name session where
    "name \<in> {''wrap'', ''wrap-ui''}" "session \<noteq> []" "l = legacy_server name session"
    by (elim exE conjE)
  then show "lex_words shell_special (lg_AttachCommand l) =
      Some [''tmux'', ''-L'', lg_Name l, ''attach-session'', ''-t'', lg_Session l]"
    using legacy_read [of session name] by (simp only: legacy_fields simp_thms)
qed

section \<open>Looking changes nothing\<close>

lemma fault_same_disk: "same_disk w (snd (fault w))"
  by (rule same_disk_fault) (rule surjective_pairing)

definition looksE :: "('c world, 'a) io \<Rightarrow> bool" where
  "looksE m \<longleftrightarrow> (\<forall>w. same_disk w (snd (m w)))"

lemma looksE_bind: "looksE m \<Longrightarrow> (\<And>x. looksE (f x)) \<Longrightarrow> looksE (bindE m f)"
  unfolding looksE_def bindE_apply
  by (auto split: prod.splits sum.splits) (metis same_disk_trans snd_conv)+

lemma looksE_wrap: "looksE m \<Longrightarrow> looksE (wrapErr t m)"
  unfolding looksE_def wrapErr_def by (auto simp: io_simps split: prod.splits sum.splits) (metis snd_conv)+

lemma looksE_guard: "looksE (guardE b e)"
  by (simp add: looksE_def guardE_apply same_disk_def)

lemma looksE_OpenRead: "looksE (OpenRead p)"
  unfolding looksE_def
proof
  fix w :: "'c world"
  show "same_disk w (snd (OpenRead p w))"
    using fault_same_disk [of w]
    by (auto simp: OpenRead_def bindE_apply split: prod.splits sum.splits option.splits node.splits)
qed

lemma looksE_probe_lock:
  "looksE (bindE (wrapErr t (FlockNB inode)) (\<lambda>locked. if \<not> locked then returnE True
     else bindE (Unlock inode) (\<lambda>_. returnE False)))"
  unfolding looksE_def
proof
  fix w :: "'c world"
  obtain r w1 where 1: "fault w = (r, w1)" by (rule prod.exhaust)
  obtain r2 w2 where 2: "fault (w1\<lparr>w_locks := inode # w_locks w\<rparr>) = (r2, w2)" by (rule prod.exhaust)
  have s: "same_disk w w1" "same_disk (w1\<lparr>w_locks := inode # w_locks w\<rparr>) w2"
    using fault_same_disk [of w] fault_same_disk [of "w1\<lparr>w_locks := inode # w_locks w\<rparr>"] 1 2 by simp_all
  show "same_disk w (snd (bindE (wrapErr t (FlockNB inode)) (\<lambda>locked. if \<not> locked then returnE True
     else bindE (Unlock inode) (\<lambda>_. returnE False)) w))"
    using s by (auto simp: FlockNB_def wrapErr_def Unlock_def io_simps 1 2 same_disk_def split: sum.splits)
qed

lemma LeaseHeld_same: "looksE (LeaseHeld s i)"
proof -
  have opened: "looksE (bindE (wrapErr t (OpenRead p)) (\<lambda>inode. bindE (wrapErr t' (FlockNB inode))
       (\<lambda>locked. if \<not> locked then returnE True else bindE (Unlock inode) (\<lambda>_. returnE False))))" for t t' p
    by (intro looksE_bind looksE_wrap looksE_OpenRead looksE_probe_lock)
  show ?thesis
    unfolding LeaseHeld_def
    by (rule looksE_bind [OF looksE_guard])
       (use opened in \<open>auto simp: looksE_def Let_def same_disk_def split: sum.splits\<close>)
qed

lemma onFiles_LeaseHeld_same: "onFiles (LeaseHeld s i) w = (x, w') \<Longrightarrow> same_disk (fst w) (fst w')"
  using LeaseHeld_same [of s i] unfolding looksE_def onFiles_def by (auto split: prod.splits dest!: spec [of _ "fst w"])

text \<open>Looking at the state changes nothing: when the calls of the workers leave files and locks as they are,
  so does the whole inspection, the probes of the leases included.\<close>

theorem doctor_changes_nothing:
  assumes "\<And>socket q w. same_disk (fst w) (fst (snd (call socket q w)))"
  shows "lookup (fst (snd (checkState dec up perm s call ctxErr w))) = lookup (fst w)
    \<and> w_locks (fst (snd (checkState dec up perm s call ctxErr w))) = w_locks (fst w)"
proof -
  have "same_disk (fst w) (fst (snd (probe_records s call ctxErr rs report w)))" for rs report w
  proof (induction rs arbitrary: report w)
    case Nil
    show ?case by (simp add: same_disk_def)
  next
    case (Cons r rs)
    obtain a w1 where 1: "call (r_ControlSocket r) (statusRequest (r_ID r)) w = (a, w1)" by (rule prod.exhaust)
    have s1: "same_disk (fst w) (fst w1)" using assms [of w "r_ControlSocket r" "statusRequest (r_ID r)"] 1 by simp
    have go: "same_disk (fst w) (fst (snd (probe_records s call ctxErr rs rep w1)))" for rep
      using same_disk_trans [OF s1 Cons.IH] .
    have go2: "same_disk (fst w) (fst (snd (probe_records s call ctxErr rs rep w2)))"
      if "onFiles (LeaseHeld s' i) w1 = (x, w2)" for rep s' i x w2
      using same_disk_trans [OF same_disk_trans [OF s1 onFiles_LeaseHeld_same [OF that]] Cons.IH] .
    obtain x2 w2 where 2: "onFiles (LeaseHeld (case ForRecord s r of Inr rs \<Rightarrow> rs | Inl _ \<Rightarrow> s) (r_ID r)) w1 = (x2, w2)"
      by (rule prod.exhaust)
    show ?case
      using go2 [OF 2] 2 by (auto simp: 1 s1 go split: option.splits sum.splits)
  qed
  then have "same_disk (fst w) (fst (snd (checkState dec up perm s call ctxErr w)))"
    by (auto simp: checkState_def Let_def same_disk_def split: sum.splits)
  then show ?thesis by (simp add: same_disk_def)
qed

theorem doctor_changes_nothing_witness:
  "lookup (fst (snd (checkState demo_dec (\<lambda>_. True) (\<lambda>_. 448) \<lparr>s_StateRoot = ''/s'', s_RuntimeRoot = ''/run''\<rparr>
      (\<lambda>socket q w. (Inl (Ext ''refused''), w)) (\<lambda>r w. None)
      (\<lparr>w_files = [(''/s/instances'', Directory)], w_next = 5, w_now = 9, w_locks = [3], w_faults = []\<rparr>, ()))))
   = map_of [(''/s/instances'', Directory)]"
  by (subst doctor_changes_nothing) (simp_all add: same_disk_def lookup_def fun_eq_iff)

end
