(* ===== verification/Cli_Commands.thy ===== *)
theory Cli_Commands
  imports Doctor
begin

text \<open>
  The commands of \<open>cmd/wrap/commands.go\<close>: starting a Wrap outside and inside tmux, listing, showing,
  regenerating and killing Wraps, the doctor's output and the worker's entry point. The state is the
  file system and tmux (\<open>'c world \<times> 't\<close>); the functions of the type \<open>application\<close>, the codec of the
  records and the writers are parameters, and a call of a worker may change the state in any way.
\<close>

section \<open>The application\<close>

record ('c, 't) application =
  ap_out :: "string \<Rightarrow> ('c world \<times> 't, unit) io"
  ap_err :: "string \<Rightarrow> ('c world \<times> 't, unit) io"
  ap_outStatusJSON :: "Status \<Rightarrow> ('c world \<times> 't, unit) io"
  ap_outListJSON :: "Status list \<Rightarrow> ('c world \<times> 't, unit) io"
  ap_outTable :: "string list list \<Rightarrow> ('c world \<times> 't, unit) io"
  ap_outReportJSON :: "Report \<Rightarrow> ('c world \<times> 't, unit) io"
  ap_store :: Store
  ap_dec :: "'c decoder"
  ap_up :: "rune \<Rightarrow> bool"
  ap_key :: "Target \<Rightarrow> string"
  ap_perm :: "string \<Rightarrow> nat"
  ap_tmux :: "'t runner"
  ap_getenv :: "string \<Rightarrow> string"
  ap_getwd :: "gerror + string"
  ap_evalSymlinks :: "string \<Rightarrow> gerror + string"
  ap_executable :: "gerror + string"
  ap_lookPath :: "string \<Rightarrow> gerror + string"
  ap_runCommand :: "('c world \<times> 't) program"
  ap_now :: nat
  ap_time :: "nat \<Rightarrow> string"
  ap_version :: string
  ap_resolveTarget :: "('c world \<times> 't, Target) io"
  ap_resolveShell :: "('c world \<times> 't, string) io"
  ap_resolveCommand :: "('c world \<times> 't, string) io"
  ap_createSession :: "string \<Rightarrow> string \<Rightarrow> ('c world \<times> 't) command"
  ap_startWorker :: "string \<Rightarrow> Record \<Rightarrow> ('c world \<times> 't, Status) io"
  ap_callControl :: "('c world \<times> 't) caller"
  ap_replaceProcess :: "string \<Rightarrow> string list \<Rightarrow> ('c world \<times> 't) command"
  ap_random :: "gerror + string"
  ap_sleep :: "'c world \<times> 't \<Rightarrow> 'c world \<times> 't"
  ap_polls :: nat

text \<open>A command that ends with the result of an effect.\<close>

definition ends :: "('w, 'a) io \<Rightarrow> 'w command" where
  "ends m w = (case m w of (Inl e, w1) \<Rightarrow> (Some e, w1) | (Inr _, w1) \<Rightarrow> (None, w1))"

definition fprintln :: "(string \<Rightarrow> 'a) \<Rightarrow> string \<Rightarrow> 'a" where
  "fprintln write line = write (line @ [newline])"

definition requestFor :: "Record \<Rightarrow> string \<Rightarrow> Request" where
  "requestFor r action = \<lparr>q_InstanceID = r_ID r, q_Action = action, q_Name = []\<rparr>"

definition writeStatus :: "('c, 't) application \<Rightarrow> Status \<Rightarrow> bool \<Rightarrow> ('c world \<times> 't, unit) io" where
  "writeStatus a st jsonOutput =
     (if jsonOutput then ap_outStatusJSON a st
      else
        bindE (ap_out a (''Wrap '' @ st_Name st @ '' ('' @ st_ID st @ '')'' @ [newline] @ st_PairingURL st @ [newline])) (\<lambda>_.
        bindE (if st_Warning st \<noteq> [] then fprintln (ap_out a) (''Warning: '' @ safeHumanText (ap_up a) (st_Warning st))
               else returnE ()) (\<lambda>_.
        if st_QR st \<noteq> [] then ap_out a (st_QR st) else returnE ())))"

section \<open>Stale records\<close>

definition cleanupStaleControlSocket :: "string \<Rightarrow> Record \<Rightarrow> ('c world, unit) io" where
  "cleanupStaleControlSocket runtimeRoot r w =
     (let path = Clean (r_ControlSocket r) in
      if Dir path \<noteq> Clean runtimeRoot \<or> Base path \<noteq> r_ID r @ ''.sock''
      then (Inl (Msg ''control socket is outside the owned runtime path''), w)
      else case Lstat path w of
        Inl e \<Rightarrow> if errors_is e ErrNotExist then (Inr (), w) else (Inl e, w)
      | Inr n \<Rightarrow>
          if \<not> is_socket n then (Inl (Msg ''control socket path is not a socket''), w)
          else Remove path w)"

definition cleanupStaleArtifacts :: "('c, 't) application \<Rightarrow> Record \<Rightarrow> ('c world \<times> 't, unit) io" where
  "cleanupStaleArtifacts a r =
     (case ForRecord (ap_store a) r of
        Inl e \<Rightarrow> failE e
      | Inr recordStore \<Rightarrow>
          joinE (onTmux (CleanupHelper (ap_tmux a) (r_Target r) (r_ID r)))
                (onFiles (cleanupStaleControlSocket (s_RuntimeRoot recordStore) r)))"

definition removeIfPID :: "('c, 't) application \<Rightarrow> Record \<Rightarrow> ('c world \<times> 't, bool) io" where
  "removeIfPID a r = onFiles (RemoveIfPID (ap_dec a) (ap_up a) (ap_store a) (r_ID r) (r_PID r))"

definition wrap_named :: "string \<Rightarrow> Record \<Rightarrow> string \<Rightarrow> string" where
  "wrap_named before r after = before @ '' Wrap '' @ r_Name r @ after"

record inspectedRecord =
  ir_record :: Record
  ir_status :: "Status option"
  ir_err :: "gerror option"

definition unreachable :: "Record \<Rightarrow> gerror \<Rightarrow> inspectedRecord" where
  "unreachable r e = \<lparr>ir_record = r, ir_status = None, ir_err = Some e\<rparr>"

text \<open>What \<open>inspectRecords\<close> does with the record of a worker that does not answer: \<open>None\<close> when it was removed.\<close>

definition reapRecord ::
    "('c, 't) application \<Rightarrow> Record \<Rightarrow> gerror \<Rightarrow> ('c world \<times> 't, inspectedRecord option) io" where
  "reapRecord a r callErr =
     (case ForRecord (ap_store a) r of
        Inl e \<Rightarrow> failE (Wrapf (wrap_named ''resolve worker runtime for'' r '': '') e)
      | Inr recordStore \<Rightarrow>
          tryE (onFiles (AcquireLease recordStore (r_ID r))) (\<lambda>leased. case leased of
            Inl e \<Rightarrow>
              if errors_is e ErrLeaseHeld then returnE (Some (unreachable r callErr))
              else failE (Wrapf (wrap_named ''inspect worker lease for'' r '': '') e)
          | Inr lease \<Rightarrow>
              tryE (cleanupStaleArtifacts a r) (\<lambda>cleaned. case cleaned of
                Inl e \<Rightarrow>
                  tryE (onFiles (Lease_Close lease)) (\<lambda>closed.
                    failE (joined (Wrapf (wrap_named ''clean stale'' r '': '') e) [errOf closed]))
              | Inr _ \<Rightarrow>
                  tryE (removeIfPID a r) (\<lambda>removed. case removed of
                    Inl e \<Rightarrow>
                      tryE (onFiles (Lease_Close lease)) (\<lambda>_.
                        failE (Wrapf (''delete stale Wrap record '' @ r_Name r @ '': '') e))
                  | Inr True \<Rightarrow>
                      tryE (ap_err a (''wrap: removed stale instance record '' @ safeHumanLabel (ap_up a) (r_Name r)
                                      @ '' ('' @ r_ID r @ '')'' @ [newline])) (\<lambda>written. case written of
                        Inl e \<Rightarrow>
                          tryE (onFiles (Lease_Close lease)) (\<lambda>closed.
                            failE (joined (Wrapf ''write stale instance warning: '' e) [errOf closed]))
                      | Inr _ \<Rightarrow>
                          bindE (wrapErr (wrap_named ''release stale'' r '' lease: '') (onFiles (Lease_Close lease)))
                            (\<lambda>_. returnE None))
                  | Inr False \<Rightarrow>
                      bindE (wrapErr (wrap_named ''release'' r '' lease: '') (onFiles (Lease_Close lease)))
                        (\<lambda>_. returnE (Some (unreachable r callErr)))))))"

definition inspectRecord ::
    "('c, 't) application \<Rightarrow> bool \<Rightarrow> Record \<Rightarrow> ('c world \<times> 't, inspectedRecord option) io" where
  "inspectRecord a removeDead r =
     tryE (ap_callControl a (r_ControlSocket r) (requestFor r ActionStatus)) (\<lambda>answer.
       case (case answer of
               Inr st \<Rightarrow> if st_ID st = r_ID r then Inr st else Inl (Msg ''control socket returned a different instance ID'')
             | Inl e \<Rightarrow> Inl e) of
         Inr st \<Rightarrow> returnE (Some \<lparr>ir_record = r, ir_status = Some st, ir_err = None\<rparr>)
       | Inl callErr \<Rightarrow> if removeDead then reapRecord a r callErr else returnE (Some (unreachable r callErr)))"

fun inspect_all ::
    "('c, 't) application \<Rightarrow> bool \<Rightarrow> Record list \<Rightarrow> inspectedRecord list \<Rightarrow> ('c world \<times> 't, inspectedRecord list) io" where
  "inspect_all a removeDead [] inspected = returnE inspected"
| "inspect_all a removeDead (r # rs) inspected =
     bindE (inspectRecord a removeDead r) (\<lambda>i.
       inspect_all a removeDead rs (inspected @ (case i of None \<Rightarrow> [] | Some x \<Rightarrow> [x])))"

text \<open>The problems are those of \<open>ReadAll\<close>.\<close>

definition inspectRecords ::
    "('c, 't) application \<Rightarrow> bool \<Rightarrow> ('c world \<times> 't, inspectedRecord list \<times> (string \<times> gerror) list) io" where
  "inspectRecords a removeDead =
     bindE (onFiles (ReadAll (ap_dec a) (ap_up a) (ap_store a))) (\<lambda>(records, problems).
     bindE (inspect_all a removeDead records []) (\<lambda>inspected. returnE (inspected, problems)))"

fun warnProblems :: "('c, 't) application \<Rightarrow> (string \<times> gerror) list \<Rightarrow> ('c world \<times> 't, unit) io" where
  "warnProblems a [] = returnE ()"
| "warnProblems a ((name, e) # ps) =
     bindE (wrapErr ''write malformed record warning: ''
       (fprintln (ap_err a) (''wrap: malformed instance record: '' @
          safeHumanText (ap_up a) (PathJoin [InstancesDir (ap_store a), name] @ '': '' @ error_text e)))) (\<lambda>_.
     warnProblems a ps)"

section \<open>Starting\<close>

definition checkStartDependencies :: "('c, 't) application \<Rightarrow> ('c world \<times> 't, unit) io" where
  "checkStartDependencies a w =
     (case CheckDependencies (ap_lookPath a) (ap_runCommand a) w of
        ((t, c), w1) \<Rightarrow>
          if \<not> dep_OK t then (Inl (Msgf ''starting Wrap requires %s: %s'' [dep_Name t, dep_Error t]), w1)
          else if \<not> dep_OK c then (Inl (Msgf ''starting Wrap requires %s: %s'' [dep_Name c, dep_Error c]), w1)
          else (Inr (), w1))"

text \<open>The Wrap that the window has already.\<close>

definition reuseWrap ::
    "('c, 't) application \<Rightarrow> string \<Rightarrow> Record list \<Rightarrow> inspectedRecord \<Rightarrow> ('c world \<times> 't, Status) io" where
  "reuseWrap a requestedName records item =
     (let r = ir_record item in
      case (ir_err item, ir_status item) of
        (None, Some st) \<Rightarrow>
          if requestedName \<noteq> [] \<and> requestedName \<noteq> r_Name r then
            if list_ex (\<lambda>other. r_ID other \<noteq> r_ID r \<and> r_Name other = requestedName) records
            then failE (Msgf ''instance name %q already exists'' [requestedName])
            else
              bindE (wrapErr (wrap_named ''rename'' r '': '')
                (ap_callControl a (r_ControlSocket r)
                   \<lparr>q_InstanceID = r_ID r, q_Action = ActionRename, q_Name = requestedName\<rparr>)) (\<lambda>renamed.
              bindE (writeStatus a renamed False) (\<lambda>_. returnE renamed))
          else bindE (writeStatus a st False) (\<lambda>_. returnE st)
      | (Some e, _) \<Rightarrow> failE (Wrapf (wrap_named ''existing'' r '' is unreachable: '') e)
      | (None, None) \<Rightarrow> failE (Msg ''existing Wrap has no status''))"

definition newRecord :: "('c, 't) application \<Rightarrow> Target \<Rightarrow> string \<Rightarrow> string \<Rightarrow> Record" where
  "newRecord a t i name =
     \<lparr>r_Version = RecordVersion, r_ID = i, r_Name = name, r_PID = 1,
      r_ControlSocket = PathJoin [s_RuntimeRoot (ap_store a), i @ ''.sock''], r_StartedAt = ap_now a,
      r_Directory = tg_Directory t, r_Target = t\<rparr>"

definition startNew ::
    "('c, 't) application \<Rightarrow> string \<Rightarrow> Target \<Rightarrow> Record list \<Rightarrow> ('c world \<times> 't, Status) io" where
  "startNew a requestedName t records =
     bindE (checkStartDependencies a) (\<lambda>_.
     bindE (liftE (ChooseName (ap_up a) requestedName t records)) (\<lambda>name.
     bindE (liftE (newInstanceID (ap_random a))) (\<lambda>i.
     bindE (wrapErr ''resolve Wrap executable: '' (liftE (ap_executable a))) (\<lambda>executable.
     bindE (ap_startWorker a executable (newRecord a t i name)) (\<lambda>st.
     bindE (writeStatus a st False) (\<lambda>_. returnE st))))))"

definition startInside :: "('c, 't) application \<Rightarrow> string \<Rightarrow> ('c world \<times> 't, Status) io" where
  "startInside a requestedName =
     bindE (wrapErr ''resolve current tmux window: '' (ap_resolveTarget a)) (\<lambda>t.
     bindE (inspectRecords a True) (\<lambda>(inspected, problems).
     bindE (warnProblems a problems) (\<lambda>_.
     let records = map ir_record inspected in
     case find (\<lambda>item. ap_key a (r_Target (ir_record item)) = ap_key a t) inspected of
       Some item \<Rightarrow> reuseWrap a requestedName records item
     | None \<Rightarrow> startNew a requestedName t records)))"

definition start_command :: "('c, 't) application \<Rightarrow> string \<Rightarrow> ('c world \<times> 't) command" where
  "start_command a name =
     (case (if name = [] then None else ValidateName (ap_up a) name) of
        Some e \<Rightarrow> cfail e
      | None \<Rightarrow>
          if name = ''all'' then cfail (Msg ''name \"all\" is reserved for wrap kill all'')
          else if ap_getenv a ''TMUX'' \<noteq> [] then ends (startInside a name)
          else
            (\<lambda>w. case checkStartDependencies a w of
               (Inl e, w1) \<Rightarrow> (Some e, w1)
             | (Inr _, w1) \<Rightarrow>
                 (case ap_getwd a of
                    Inl e \<Rightarrow> (Some (Wrapf ''get current directory: '' e), w1)
                  | Inr cwd \<Rightarrow>
                      (case ap_evalSymlinks a cwd of
                         Inl e \<Rightarrow> (Some (Wrapf ''resolve physical current directory: '' e), w1)
                       | Inr physical \<Rightarrow>
                           (case ap_executable a of
                              Inl e \<Rightarrow> (Some (Wrapf ''resolve Wrap executable: '' e), w1)
                            | Inr executable \<Rightarrow>
                                ap_createSession a physical (bootstrap_command executable name) w1)))))"

section \<open>Listing and showing\<close>

definition list_row :: "('c, 't) application \<Rightarrow> Status \<Rightarrow> string list" where
  "list_row a st =
     (let safe = safeHumanText (ap_up a) in
      [safe (st_Name st), (if length (st_ID st) > 10 then take 10 (st_ID st) else st_ID st), safe (st_State st), itoa (st_Clients st),
       safe (st_Directory st), safe (tg_SocketPath (st_Target st)) @ '' '' @ safe (tg_WindowID (st_Target st)),
       ap_time a (st_StartedAt st)])"

definition list_header :: "string list" where
  "list_header = [''NAME'', ''ID'', ''STATE'', ''CLIENTS'', ''DIRECTORY'', ''TARGET'', ''STARTED'']"

fun list_items :: "('c, 't) application \<Rightarrow> inspectedRecord list \<Rightarrow> ('c world \<times> 't, Status list) io" where
  "list_items a [] = returnE []"
| "list_items a (item # items) =
     (case ir_err item of
        Some e \<Rightarrow>
          bindE (wrapErr ''write unreachable instance warning: ''
            (ap_err a (''wrap: '' @ safeHumanLabel (ap_up a) (r_Name (ir_record item)) @ '' is unreachable: ''
                       @ safeHumanText (ap_up a) (error_text e) @ [newline]))) (\<lambda>_. list_items a items)
      | None \<Rightarrow>
          bindE (list_items a items) (\<lambda>rest. returnE (case ir_status item of None \<Rightarrow> rest | Some st \<Rightarrow> st # rest)))"

definition list_command :: "('c, 't) application \<Rightarrow> bool \<Rightarrow> ('c world \<times> 't) command" where
  "list_command a jsonOutput =
     ends (bindE (inspectRecords a True) (\<lambda>(inspected, problems).
       bindE (warnProblems a problems) (\<lambda>_.
       bindE (list_items a inspected) (\<lambda>items.
       if jsonOutput then ap_outListJSON a items
       else if items = [] then fprintln (ap_out a) ''No running Wraps.''
       else ap_outTable a (list_header # map (list_row a) items)))))"

definition resolve :: "('c, 't) application \<Rightarrow> string \<Rightarrow> ('c world \<times> 't, Record) io" where
  "resolve a selector = onFiles (Resolve (ap_dec a) (ap_up a) (ap_store a) selector)"

definition show_command :: "('c, 't) application \<Rightarrow> string \<Rightarrow> bool \<Rightarrow> ('c world \<times> 't) command" where
  "show_command a selector jsonOutput =
     ends (bindE (resolve a selector) (\<lambda>r.
       bindE (ap_callControl a (r_ControlSocket r) (requestFor r ActionStatus)) (\<lambda>st. writeStatus a st jsonOutput)))"

definition regen_command :: "('c, 't) application \<Rightarrow> string \<Rightarrow> bool \<Rightarrow> ('c world \<times> 't) command" where
  "regen_command a selector jsonOutput =
     ends (bindE (resolve a selector) (\<lambda>r.
       bindE (ap_callControl a (r_ControlSocket r) (requestFor r ActionRotate)) (\<lambda>st. writeStatus a st jsonOutput)))"

section \<open>Killing\<close>

text \<open>
  \<open>waitForStopped\<close>: \<open>ap_polls\<close> is the number of looks before the deadline has passed, \<open>ap_sleep\<close> what
  happens elsewhere between two looks.
\<close>

fun stopped_loop :: "('c, 't) application \<Rightarrow> Store \<Rightarrow> Record \<Rightarrow> nat \<Rightarrow> ('c world \<times> 't, unit) io" where
  "stopped_loop a recordStore r n =
     (\<lambda>w. case resolve a (r_ID r) w of
        (answer, w1) \<Rightarrow>
          let again = (\<lambda>w2. case n of
                0 \<Rightarrow> (Inl (Msg ''worker did not finish shutdown''), w2)
              | Suc m \<Rightarrow> stopped_loop a recordStore r m (ap_sleep a w2)) in
          (case answer of
             Inr _ \<Rightarrow> again w1
           | Inl e \<Rightarrow>
               if \<not> errors_is e ErrNotFound then (Inl e, w1)
               else (case onFiles (LeaseHeld recordStore (r_ID r)) w1 of
                 (Inl le, w2) \<Rightarrow> (Inl le, w2)
               | (Inr held, w2) \<Rightarrow> if \<not> held then (Inr (), w2) else again w2)))"

declare stopped_loop.simps [simp del]

definition waitForStopped :: "('c, 't) application \<Rightarrow> Record \<Rightarrow> ('c world \<times> 't, unit) io" where
  "waitForStopped a r =
     (case ForRecord (ap_store a) r of
        Inl e \<Rightarrow> failE e
      | Inr recordStore \<Rightarrow> stopped_loop a recordStore r (ap_polls a))"

text \<open>The worker did not answer the request to shut down.\<close>

definition killStale :: "('c, 't) application \<Rightarrow> Record \<Rightarrow> gerror \<Rightarrow> ('c world \<times> 't, unit) io" where
  "killStale a r callErr =
     (case ForRecord (ap_store a) r of
        Inl e \<Rightarrow> failE (joined callErr [Some e])
      | Inr recordStore \<Rightarrow>
          tryE (onFiles (AcquireLease recordStore (r_ID r))) (\<lambda>leased. case leased of
            Inl e \<Rightarrow> if errors_is e ErrLeaseHeld then failE callErr else failE (joined callErr [Some e])
          | Inr lease \<Rightarrow>
              tryE (cleanupStaleArtifacts a r) (\<lambda>cleaned. case cleaned of
                Inl e \<Rightarrow>
                  tryE (onFiles (Lease_Close lease)) (\<lambda>closed.
                    failE (joined callErr [Some (Wrapf (wrap_named ''clean stale'' r '': '') e), errOf closed]))
              | Inr _ \<Rightarrow>
                  tryE (removeIfPID a r) (\<lambda>removed.
                  tryE (onFiles (Lease_Close lease)) (\<lambda>closed.
                    case (removed, closed) of
                      (Inr b, Inr _) \<Rightarrow>
                        if \<not> b then failE callErr
                        else ap_out a (''Killed stale Wrap '' @ safeHumanLabel (ap_up a) (r_Name r)
                                       @ ''. The tmux window is still running.'' @ [newline])
                    | _ \<Rightarrow> failE (joined callErr [errOf removed, errOf closed]))))))"

definition killRecord :: "('c, 't) application \<Rightarrow> Record \<Rightarrow> ('c world \<times> 't, unit) io" where
  "killRecord a r =
     tryE (ap_callControl a (r_ControlSocket r) (requestFor r ActionShutdown)) (\<lambda>answer. case answer of
       Inl callErr \<Rightarrow> killStale a r callErr
     | Inr _ \<Rightarrow>
         bindE (waitForStopped a r) (\<lambda>_.
           ap_out a (''Killed Wrap '' @ safeHumanLabel (ap_up a) (r_Name r) @ ''. The tmux window is still running.'' @ [newline])))"

fun kill_each :: "('c, 't) application \<Rightarrow> Record list \<Rightarrow> gerror option \<Rightarrow> ('c world \<times> 't) command" where
  "kill_each a [] killErr w = (killErr, w)"
| "kill_each a (r # rs) killErr w =
     (case killRecord a r w of
        (Inl e, w1) \<Rightarrow>
          kill_each a rs
            (errors_join [killErr, Some (Wrapf (''kill Wrap '' @ safeHumanLabel (ap_up a) (r_Name r) @ '': '') e)]) w1
      | (Inr _, w1) \<Rightarrow> kill_each a rs killErr w1)"

definition problem_errors :: "Store \<Rightarrow> (string \<times> gerror) list \<Rightarrow> gerror option" where
  "problem_errors s problems =
     foldl (\<lambda>killErr (name, e). errors_join [killErr,
       Some (Wrapf (''read Wrap instance record: '' @ PathJoin [InstancesDir s, name] @ '': '') e)]) None problems"

definition killAll :: "('c, 't) application \<Rightarrow> ('c world \<times> 't) command" where
  "killAll a w =
     (case onFiles (ReadAll (ap_dec a) (ap_up a) (ap_store a)) w of
        (Inl e, w1) \<Rightarrow> (Some e, w1)
      | (Inr (records, problems), w1) \<Rightarrow>
          if records = [] \<and> problems = [] then ends (fprintln (ap_out a) ''No running Wraps.'') w1
          else kill_each a records (problem_errors (ap_store a) problems) w1)"

definition kill_command :: "('c, 't) application \<Rightarrow> string \<Rightarrow> bool \<Rightarrow> ('c world \<times> 't) command" where
  "kill_command a selector all = (if all then killAll a else ends (bindE (resolve a selector) (killRecord a)))"

section \<open>The doctor's output\<close>

fun write_lines :: "(string \<Rightarrow> ('w, unit) io) \<Rightarrow> string list \<Rightarrow> ('w, unit) io" where
  "write_lines write [] = returnE ()"
| "write_lines write (l # ls) = bindE (write l) (\<lambda>_. write_lines write ls)"

definition dependency_line :: "(rune \<Rightarrow> bool) \<Rightarrow> Dependency \<Rightarrow> string" where
  "dependency_line up d =
     (if dep_OK d
      then dep_Name d @ '': '' @ safeHumanText up (dep_Path d) @ '' ('' @ safeHumanText up (dep_Version d) @ '')''
      else dep_Name d @ '': '' @ safeHumanText up (dep_Error d)) @ [newline]"

definition report_lines :: "(rune \<Rightarrow> bool) \<Rightarrow> string \<Rightarrow> Report \<Rightarrow> string list" where
  "report_lines up version report =
     (let st = rp_State report in
      [''Wrap '' @ version @ '' ('' @ rp_Platform report @ '')'' @ [newline],
       dependency_line up (rp_Tmux report), dependency_line up (rp_Cloudflared report),
       ''instances: '' @ itoa (sr_Live st) @ '' live, '' @ itoa (sr_Stale st) @ '' stale, '' @ itoa (sr_Unreachable st)
         @ '' unreachable, '' @ itoa (length (sr_Malformed st)) @ '' malformed'' @ [newline]]
      @ (if sr_Error st \<noteq> [] then [''state: '' @ safeHumanText up (sr_Error st) @ [newline]] else [])
      @ (if \<not> sr_SafePermissions st then [''state permissions: unsafe'' @ [newline]] else [])
      @ map (\<lambda>l. ''legacy '' @ safeHumanText up (lg_Name l) @ '': '' @ safeHumanText up (lg_ListCommand l) @ [newline]
                 @ ''  recover: '' @ safeHumanText up (lg_AttachCommand l) @ [newline]) (rp_Legacy report))"

definition doctor_command :: "('c, 't) application \<Rightarrow> string \<Rightarrow> bool \<Rightarrow> ('c world \<times> 't) command" where
  "doctor_command a platform jsonOutput w =
     (case Check (ap_dec a) (ap_up a) (ap_perm a) platform (ap_store a) (ap_lookPath a) (ap_runCommand a)
             (ap_callControl a) (\<lambda>_ _. None) w of
        (report, w1) \<Rightarrow>
          (case (if jsonOutput then ap_outReportJSON a report
                 else write_lines (ap_out a) (report_lines (ap_up a) (ap_version a) report)) w1 of
             (Inl e, w2) \<Rightarrow> (Some e, w2)
           | (Inr _, w2) \<Rightarrow>
               if sr_Error (rp_State report) \<noteq> [] then (Some (Msg ''state inspection incomplete''), w2) else (None, w2)))"

section \<open>Inside a new session\<close>

definition rollbackStarted :: "('c, 't) application \<Rightarrow> string \<Rightarrow> ('c world \<times> 't) command" where
  "rollbackStarted a i w =
     (case resolve a i w of
        (Inl e, w1) \<Rightarrow>
          if errors_is e ErrNotFound then (None, w1) else (Some (Wrapf ''resolve started Wrap for rollback: '' e), w1)
      | (Inr r, w1) \<Rightarrow>
          (case ap_callControl a (r_ControlSocket r) (requestFor r ActionShutdown) w1 of
             (Inl e, w2) \<Rightarrow> (Some (Wrapf ''stop started Wrap after shell failure: '' e), w2)
           | (Inr _, w2) \<Rightarrow>
               (case waitForStopped a r w2 of
                  (Inl e, w3) \<Rightarrow> (Some (Wrapf ''wait for started Wrap rollback: '' e), w3)
                | (Inr _, w3) \<Rightarrow> (None, w3))))"

text \<open>The default shell, started as a login shell or with tmux's default command.\<close>

definition shell_args :: "string \<Rightarrow> string \<Rightarrow> string list" where
  "shell_args shell defaultCommand =
     (if defaultCommand \<noteq> [] then [shell, ''-c'', defaultCommand] else [''-'' @ Base shell])"

definition becomeShell ::
    "('c, 't) application \<Rightarrow> string \<Rightarrow> string \<Rightarrow> gerror + Status \<Rightarrow> ('c world \<times> 't) command" where
  "becomeShell a shell defaultCommand started w =
     (let w1 = (case started of
           Inr _ \<Rightarrow> w
         | Inl e \<Rightarrow> snd (fprintln (ap_err a) (''wrap: '' @ safeHumanText (ap_up a) (error_text e)) w)) in
      case ap_replaceProcess a shell (shell_args shell defaultCommand) w1 of
        (None, w2) \<Rightarrow> (None, w2)
      | (Some execErr, w2) \<Rightarrow>
          let (rollbackErr, w3) =
            (case started of
               Inr st \<Rightarrow> if st_ID st \<noteq> [] then rollbackStarted a (st_ID st) w2 else (None, w2)
             | Inl _ \<Rightarrow> (None, w2))
          in (errors_join [errOf started, Some (Wrapf ''start tmux default shell: '' execErr), rollbackErr], w3))"

definition bootstrap :: "('c, 't) application \<Rightarrow> string \<Rightarrow> ('c world \<times> 't) command" where
  "bootstrap a name w =
     (if ap_getenv a ''TMUX'' = [] then (Some (Msg ''internal bootstrap must run inside tmux''), w)
      else case ap_resolveShell a w of
        (Inl e, w1) \<Rightarrow> (Some (Wrapf ''resolve tmux default shell: '' e), w1)
      | (Inr shell, w1) \<Rightarrow>
          (case ap_resolveCommand a w1 of
             (Inl e, w2) \<Rightarrow> (Some (Wrapf ''resolve tmux default command: '' e), w2)
           | (Inr defaultCommand, w2) \<Rightarrow>
               (case startInside a name w2 of (started, w3) \<Rightarrow> becomeShell a shell defaultCommand started w3)))"

section \<open>The worker\<close>

text \<open>
  \<open>serve\<close>: whether the inherited descriptors are there, reading the launch record and running the
  service are parameters; the latter gets the record and the path of its diagnostic log.
\<close>

definition serve_command ::
    "('c, 't) application \<Rightarrow> bool \<Rightarrow> (string \<Rightarrow> string \<Rightarrow> gerror + Record) \<Rightarrow> (Record \<Rightarrow> string \<Rightarrow> ('c world \<times> 't) command)
     \<Rightarrow> string list \<Rightarrow> ('c world \<times> 't) command" where
  "serve_command a descriptors readLaunch runService args =
     (case parseServeArgs args of
        Inl e \<Rightarrow> cfail e
      | Inr parsed \<Rightarrow>
          if \<not> descriptors then cfail (Msg ''worker inherited file descriptors are unavailable'')
          else (case readLaunch (sa_instanceID parsed) (sa_controlSocket parsed) of
            Inl e \<Rightarrow> cfail e
          | Inr r \<Rightarrow> runService r (PathJoin [DiagnosticsDir (ap_store a), r_ID r @ ''.jsonl''])))"

definition redirectWorkerStderr :: "('w, unit) io \<Rightarrow> ('w, unit) io \<Rightarrow> ('w, unit) io" where
  "redirectWorkerStderr openSink dup2 =
     bindE (wrapErr ''open stderr sink: '' openSink) (\<lambda>_. wrapErr ''replace stderr: '' dup2)"

definition reportWorkerReady ::
    "(Status \<Rightarrow> gerror + string) \<Rightarrow> (string \<Rightarrow> ('w, unit) io) \<Rightarrow> ('w, unit) io \<Rightarrow> ('w, unit) io option \<Rightarrow> Status \<Rightarrow> ('w, unit) io" where
  "reportWorkerReady enc write closeWriter redirectStderr st =
     (case WriteReady enc st of
        Inl e \<Rightarrow> failE e
      | Inr payload \<Rightarrow>
          (case redirectStderr of
             None \<Rightarrow> failE (Msg ''worker stderr redirect is required'')
           | Some redirect \<Rightarrow>
               bindE (wrapErr ''redirect worker stderr: '' redirect) (\<lambda>_.
               bindE (wrapErr ''write worker readiness: '' (write payload)) (\<lambda>_. closeWriter))))"

definition application_funcs ::
    "('c, 't) application \<Rightarrow> string \<Rightarrow> string \<Rightarrow> (string list \<Rightarrow> ('c world \<times> 't) command) \<Rightarrow> ('c world \<times> 't) commandFuncs" where
  "application_funcs a platform usage serve =
     \<lparr>cf_start = Some (start_command a), cf_list = Some (list_command a), cf_show = Some (show_command a),
      cf_regen = Some (regen_command a), cf_kill = Some (kill_command a), cf_doctor = Some (doctor_command a platform),
      cf_version = Some (ends (fprintln (ap_out a) (''wrap '' @ ap_version a))),
      cf_help = Some (ends (fprintln (ap_out a) usage)), cf_bootstrap = Some (bootstrap a), cf_serve = Some serve\<rparr>"


section \<open>A running worker is spared\<close>

lemma onFiles_AcquireLease_held:
  assumes "lookup (fst w) (lease_path s i) = Some (Regular inode m rd c)" and "inode \<in> set (w_locks (fst w))"
    and "lookup (fst w) (s_RuntimeRoot s) = Some Directory"
  obtains e w' where "onFiles (AcquireLease s i) w = (Inl e, (w', snd w))" and "same_disk (fst w) w'"
proof -
  obtain r w' where a: "AcquireLease s i (fst w) = (r, w')" by (rule prod.exhaust)
  from AcquireLease_held [OF assms a] obtain e where "same_disk (fst w) w'" "r = Inl e" by blast
  with a that show ?thesis by (simp add: onFiles_def)
qed

text \<open>C19: Cleaning up after a worker that does not answer spares a worker that runs: while another process holds
  the lease, inspecting and killing change no file and no lock and send nothing to tmux, and killing
  reports an error.\<close>

theorem running_worker_is_spared:
  assumes "ForRecord (ap_store a) r = Inr rs"
    and "lookup (fst w) (lease_path rs (r_ID r)) = Some (Regular inode m rd c)" and "inode \<in> set (w_locks (fst w))"
    and "lookup (fst w) (s_RuntimeRoot rs) = Some Directory"
  shows "same_disk (fst w) (fst (snd (reapRecord a r callErr w))) \<and> snd (snd (reapRecord a r callErr w)) = snd w
    \<and> same_disk (fst w) (fst (snd (killStale a r callErr w))) \<and> snd (snd (killStale a r callErr w)) = snd w
    \<and> (\<exists>e. fst (killStale a r callErr w) = Inl e)"
proof -
  obtain e w' where "onFiles (AcquireLease rs (r_ID r)) w = (Inl e, (w', snd w))" "same_disk (fst w) w'"
    using onFiles_AcquireLease_held [OF assms(2-4)] by blast
  then show ?thesis using assms(1) by (simp add: reapRecord_def killStale_def io_simps)
qed

section \<open>What killing reports\<close>

text \<open>The record cannot be found any more and after that the lease is free.\<close>

definition seen_stopped :: "('c, 't) application \<Rightarrow> Store \<Rightarrow> Record \<Rightarrow> 'c world \<times> 't \<Rightarrow> bool" where
  "seen_stopped a rs r w' \<longleftrightarrow>
     (\<exists>w e w1. resolve a (r_ID r) w = (Inl e, w1) \<and> errors_is e ErrNotFound
       \<and> onFiles (LeaseHeld rs (r_ID r)) w1 = (Inr False, w'))"

lemma seen_stoppedI:
  "resolve a (r_ID r) w = (Inl e, w1) \<Longrightarrow> errors_is e ErrNotFound \<Longrightarrow>
   onFiles (LeaseHeld rs (r_ID r)) w1 = (Inr False, w') \<Longrightarrow> seen_stopped a rs r w'"
  unfolding seen_stopped_def by blast

lemma stopped_loop_seen:
  "stopped_loop a rs r n w = (Inr (), w') \<Longrightarrow> seen_stopped a rs r w'"
proof (induction n arbitrary: w)
  case 0
  then show ?case
    by (subst (asm) stopped_loop.simps) (auto simp: Let_def split: sum.splits prod.splits if_splits intro: seen_stoppedI)
next
  case (Suc n)
  from Suc.prems show ?case
    by (subst (asm) stopped_loop.simps)
       (auto simp: Let_def split: sum.splits prod.splits if_splits intro: seen_stoppedI Suc.IH)
qed

lemma waitForStopped_seen:
  "waitForStopped a r w = (Inr (), w') \<Longrightarrow> \<exists>rs. ForRecord (ap_store a) r = Inr rs \<and> seen_stopped a rs r w'"
  by (auto simp: waitForStopped_def io_simps dest: stopped_loop_seen split: sum.splits)

text \<open>A kill that the worker has acknowledged reports success only after the record could not be found any
  more and, after that, the lease of the worker was free.\<close>

theorem kill_success_means_stopped:
  assumes "killRecord a r w = (Inr (), w')"
    and "ap_callControl a (r_ControlSocket r) (requestFor r ActionShutdown) w = (Inr st, w1)"
  shows "\<exists>rs w2. ForRecord (ap_store a) r = Inr rs \<and> seen_stopped a rs r w2
    \<and> w' = snd (ap_out a (''Killed Wrap '' @ safeHumanLabel (ap_up a) (r_Name r) @ ''. The tmux window is still running.'' @ [newline]) w2)"
proof -
  obtain x w2 where 2: "waitForStopped a r w1 = (x, w2)" by (rule prod.exhaust)
  then have "x = Inr ()" "w' = snd (ap_out a (''Killed Wrap '' @ safeHumanLabel (ap_up a) (r_Name r) @ ''. The tmux window is still running.'' @ [newline]) w2)"
    using assms by (auto simp: killRecord_def io_simps split: sum.splits)
  with waitForStopped_seen 2 show ?thesis by blast
qed

section \<open>One Wrap per window\<close>

lemma startWorker_fields:
  "ap_out (a\<lparr>ap_startWorker := sw\<rparr>) = ap_out a" "ap_err (a\<lparr>ap_startWorker := sw\<rparr>) = ap_err a"
  "ap_outStatusJSON (a\<lparr>ap_startWorker := sw\<rparr>) = ap_outStatusJSON a" "ap_store (a\<lparr>ap_startWorker := sw\<rparr>) = ap_store a"
  "ap_dec (a\<lparr>ap_startWorker := sw\<rparr>) = ap_dec a" "ap_up (a\<lparr>ap_startWorker := sw\<rparr>) = ap_up a"
  "ap_key (a\<lparr>ap_startWorker := sw\<rparr>) = ap_key a" "ap_tmux (a\<lparr>ap_startWorker := sw\<rparr>) = ap_tmux a"
  "ap_callControl (a\<lparr>ap_startWorker := sw\<rparr>) = ap_callControl a"
  "ap_resolveTarget (a\<lparr>ap_startWorker := sw\<rparr>) = ap_resolveTarget a"
  by simp_all

lemma stale_startWorker:
  "cleanupStaleArtifacts (a\<lparr>ap_startWorker := sw\<rparr>) = cleanupStaleArtifacts a"
  "removeIfPID (a\<lparr>ap_startWorker := sw\<rparr>) = removeIfPID a"
  unfolding cleanupStaleArtifacts_def removeIfPID_def startWorker_fields by (rule refl)+

lemma reapRecord_startWorker: "reapRecord (a\<lparr>ap_startWorker := sw\<rparr>) = reapRecord a"
  unfolding reapRecord_def startWorker_fields stale_startWorker by (rule refl)

lemma inspectRecord_startWorker [simp]: "inspectRecord (a\<lparr>ap_startWorker := sw\<rparr>) = inspectRecord a"
  unfolding inspectRecord_def startWorker_fields reapRecord_startWorker by (rule refl)

lemma writeStatus_startWorker: "writeStatus (a\<lparr>ap_startWorker := sw\<rparr>) = writeStatus a"
  unfolding writeStatus_def startWorker_fields by (rule refl)

lemma reuseWrap_startWorker [simp]: "reuseWrap (a\<lparr>ap_startWorker := sw\<rparr>) = reuseWrap a"
  unfolding reuseWrap_def startWorker_fields writeStatus_startWorker by (rule refl)

lemma inspect_all_startWorker [simp]: "inspect_all (a\<lparr>ap_startWorker := sw\<rparr>) d rs xs = inspect_all a d rs xs"
  by (induction rs arbitrary: xs) simp_all

lemma warnProblems_startWorker [simp]: "warnProblems (a\<lparr>ap_startWorker := sw\<rparr>) ps = warnProblems a ps"
  by (induction ps) auto

lemma inspectRecords_startWorker [simp]: "inspectRecords (a\<lparr>ap_startWorker := sw\<rparr>) = inspectRecords a"
  by (simp add: fun_eq_iff inspectRecords_def)

text \<open>Starting in a window that has a Wrap reuses it: nothing of what the start does depends on the function
  that starts workers, so no second worker is started.\<close>

theorem start_reuses_the_wrap_of_the_window:
  assumes "ap_resolveTarget a w = (Inr t, w1)" and "inspectRecords a True w1 = (Inr (inspected, problems), w2)"
    and "item \<in> set inspected" and "ap_key a (r_Target (ir_record item)) = ap_key a t"
  shows "startInside (a\<lparr>ap_startWorker := sw\<rparr>) name w = startInside a name w"
proof -
  obtain x where "find (\<lambda>item. ap_key a (r_Target (ir_record item)) = ap_key a t) inspected = Some x"
    using assms(3,4) by (cases "find (\<lambda>item. ap_key a (r_Target (ir_record item)) = ap_key a t) inspected") (auto simp: find_None_iff)
  then show ?thesis
    using assms(1,2) by (simp add: startInside_def bindE_apply wrapErr_def tryE_apply returnE_apply)
qed

section \<open>A new Wrap can be managed\<close>

lemma hex_encode_id:
  assumes "length v = 16"
  shows "idPattern (hex_encode v)"
proof -
  have g: "isGeneration (hex_encode v)" by (rule hex_encode_generation [OF assms])
  then have l: "length (hex_encode v) = 32" by (simp add: isGeneration_def)
  have "alnum c" if "c \<in> set (hex_encode v)" for c
    using isGeneration_hex [OF g that] by (auto simp: alnum_def is_digit_def)
  moreover obtain c cs where "hex_encode v = c # cs" using l by (cases "hex_encode v") auto
  ultimately show ?thesis using l by (auto simp: idPattern_def list_all_iff)
qed

lemma storeFromEnvironment_roots:
  assumes "storeFromEnvironment getenv home = Inr s"
  obtains d where "IsAbs d" and "d \<noteq> []" and "s_RuntimeRoot s = PathJoin [d, ''wrap''] \<or> s_RuntimeRoot s = PathJoin [d, ''runtime'']"
    and "IsAbs (s_StateRoot s)"
proof -
  have ne: "IsAbs p \<Longrightarrow> p \<noteq> []" for p by (auto simp: IsAbs_def HasPrefix_def)
  have pr: "proper ''wrap''" by (simp add: proper_def)
  obtain b where b: "IsAbs b" "s_StateRoot s = PathJoin [b, ''wrap'']"
    "s_RuntimeRoot s = PathJoin [s_StateRoot s, ''runtime''] \<or> (\<exists>r. IsAbs r \<and> s_RuntimeRoot s = PathJoin [r, ''wrap''])"
  proof -
    have "\<exists>b. IsAbs b \<and> s_StateRoot s = PathJoin [b, ''wrap''] \<and>
        (s_RuntimeRoot s = PathJoin [s_StateRoot s, ''runtime''] \<or>
         IsAbs (getenv ''XDG_RUNTIME_DIR'') \<and> s_RuntimeRoot s = PathJoin [getenv ''XDG_RUNTIME_DIR'', ''wrap''])"
      using assms by (auto simp: storeFromEnvironment_def Let_def split: if_splits sum.splits)
    then show ?thesis using that by blast
  qed
  have "IsAbs (s_StateRoot s)" using PathJoin_abs [OF ne [OF b(1)] pr] b by simp
  then show ?thesis using b(3) that ne by blast
qed

text \<open>A new Wrap can be managed later: in the directories that the environment gives, the record that is
  started for a complete target is valid, its name is new, and its runtime directory is found again from
  the record.\<close>

theorem new_wrap_can_be_managed:
  assumes "storeFromEnvironment getenv home = Inr (ap_store a)" and "length v = 16" and "ap_now a \<noteq> 0"
    and "ChooseName (ap_up a) requested t records = Inr name" and "length records < 10 ^ 14"
    and "IsAbs (tg_Directory t)" and "IsAbs (tg_SocketPath t)" and "tg_Generation t \<noteq> []" and "tg_SessionID t \<noteq> []" and "tg_WindowID t \<noteq> []"
  shows "Record_Validate (ap_up a) (newRecord a t (hex_encode v) name) = None
    \<and> ForRecord (ap_store a) (newRecord a t (hex_encode v) name) = Inr (ap_store a)
    \<and> name \<notin> r_Name ` set records"
proof -
  let ?i = "hex_encode v" and ?root = "s_RuntimeRoot (ap_store a)"
  have i: "idPattern ?i" by (rule hex_encode_id [OF assms(2)])
  have pr: "proper (?i @ ''.sock'')" using i by (simp add: idPattern_proper)
  obtain d c where d: "IsAbs d" "d \<noteq> []" "?root = PathJoin [d, c]" "c = ''wrap'' \<or> c = ''runtime''"
    using storeFromEnvironment_roots [OF assms(1)] by metis
  have c: "proper c" "c \<noteq> []" using d(4) by (auto simp: proper_def)
  have root: "IsAbs ?root" "?root \<noteq> []" "Clean ?root = ?root" "Base ?root = c"
    using d PathJoin_abs [OF d(2) c(1)] Base_PathJoin [OF d(2) c(1)]
    by (auto simp: PathJoin_def IsAbs_def HasPrefix_def)
  have "?root \<noteq> ''/''" using root(4) d(4) by (auto simp: Base_def)
  moreover have "Clean (PathJoin [?root, ?i @ ''.sock'']) = PathJoin [?root, ?i @ ''.sock'']"
    using root(2) by (simp add: PathJoin_def)
  ultimately have f: "ForRecord (ap_store a) (newRecord a t ?i name) = Inr (ap_store a)"
    using Base_PathJoin [OF root(2) pr] Dir_PathJoin [OF root(2) pr] PathJoin_abs [OF root(2) pr] root
    by (simp add: ForRecord_def newRecord_def Let_def)
  have "ValidateName (ap_up a) name = None" "name \<notin> r_Name ` set records"
    using ChooseName_valid [OF assms(4,5)] by blast+
  then show ?thesis
    using f i assms PathJoin_abs [OF root(2) pr] root(1) by (simp add: Record_Validate_def newRecord_def)
qed

section \<open>A shell that cannot start\<close>

text \<open>When the shell of a new session cannot be started, the Wrap that was started for it is taken down again.\<close>

lemma failed_shell_rolls_back:
  assumes "becomeShell a shell defaultCommand (Inr st) w = (Some err, w')" and "st_ID st \<noteq> []"
  shows "\<exists>w1 rollbackErr execErr. rollbackStarted a (st_ID st) w1 = (rollbackErr, w')
    \<and> err = joined (Wrapf ''start tmux default shell: '' execErr) [rollbackErr]"
proof -
  obtain x w2 where 1: "ap_replaceProcess a shell (shell_args shell defaultCommand) w = (x, w2)" by (rule prod.exhaust)
  obtain y w3 where 2: "rollbackStarted a (st_ID st) w2 = (y, w3)" by (rule prod.exhaust)
  obtain execErr where "x = Some execErr" using assms 1 by (cases x) (auto simp: becomeShell_def)
  then have "w' = w3" "errors_join [None, Some (Wrapf ''start tmux default shell: '' execErr), y] = Some err"
    using assms 1 2 by (auto simp: becomeShell_def errOf_def)
  then have "err = joined (Wrapf ''start tmux default shell: '' execErr) [y]"
    by (simp add: joined_def errors_join_def map_filter_def)
  then show ?thesis using 2 \<open>w' = w3\<close> by blast
qed

section \<open>A small application\<close>

definition demo_app :: "(Record, unit) application" where
  "demo_app = \<lparr>ap_out = (\<lambda>s w. (Inr (), w)), ap_err = (\<lambda>s w. (Inr (), w)), ap_outStatusJSON = (\<lambda>s w. (Inr (), w)),
     ap_outListJSON = (\<lambda>s w. (Inr (), w)), ap_outTable = (\<lambda>s w. (Inr (), w)), ap_outReportJSON = (\<lambda>s w. (Inr (), w)),
     ap_store = demo_store,
     ap_dec = demo_dec, ap_up = (\<lambda>_. False), ap_key = tg_WindowID, ap_perm = (\<lambda>_. 448), ap_tmux = (\<lambda>args w. (Inl (Ext ''no server running''), w)),
     ap_getenv = (\<lambda>_. []), ap_getwd = Inr ''/home/u'', ap_evalSymlinks = Inr, ap_executable = Inr ''/usr/bin/wrap'',
     ap_lookPath = (\<lambda>n. Inr (''/usr/bin/'' @ n)), ap_runCommand = (\<lambda>p a w. (Inr [], w)), ap_now = 5, ap_time = itoa, ap_version = ''dev'',
     ap_resolveTarget = (\<lambda>w. (Inr sample_target, w)), ap_resolveShell = (\<lambda>w. (Inr ''/bin/sh'', w)), ap_resolveCommand = (\<lambda>w. (Inr [], w)),
     ap_createSession = (\<lambda>d c w. (None, w)), ap_startWorker = (\<lambda>e r w. (Inl (Ext ''not started''), w)),
     ap_callControl = (\<lambda>s q w. (Inr \<lparr>st_ID = q_InstanceID q, st_Name = ''proj'', st_State = ''ready'', st_PairingURL = ''https://x'', st_QR = [],
        st_Directory = ''/home/u/proj'', st_Clients = 0, st_StartedAt = 5, st_Target = sample_target, st_Warning = []\<rparr>, w)),
     ap_replaceProcess = (\<lambda>p a w. (Some (Ext ''exec format error''), w)), ap_random = Inr (replicate 16 CHR ''b''),
     ap_sleep = (\<lambda>w. w), ap_polls = 3\<rparr>"

lemma demo_waited: "\<exists>w'. waitForStopped demo_app demo_record (demo_world, ()) = (Inr (), w')"
proof -
  have "case waitForStopped demo_app demo_record (demo_world, ()) of (Inr _, _) \<Rightarrow> True | _ \<Rightarrow> False" by code_simp
  then show ?thesis by (auto split: prod.splits sum.splits)
qed

definition leased_world :: "Record world" where
  "leased_world = \<lparr>w_files = [(''/run/abcdef01.lease'', Regular 7 1 True None), (''/run'', Directory), (''/run/abcdef01.sock'', Socket 8)],
     w_next = 9, w_now = 1, w_locks = [7], w_faults = []\<rparr>"

theorem running_worker_is_spared_witness:
  "lookup (fst (snd (reapRecord demo_app demo_record (Ext ''refused'') (leased_world, ())))) ''/run/abcdef01.sock'' = Some (Socket 8)"
proof -
  have "ForRecord (ap_store demo_app) demo_record = Inr (demo_store\<lparr>s_RuntimeRoot := ''/run''\<rparr>)" by code_simp
  moreover have "lease_path (demo_store\<lparr>s_RuntimeRoot := ''/run''\<rparr>) (r_ID demo_record) = ''/run/abcdef01.lease''" by code_simp
  ultimately have "same_disk leased_world (fst (snd (reapRecord demo_app demo_record (Ext ''refused'') (leased_world, ()))))"
    using running_worker_is_spared [of demo_app demo_record "demo_store\<lparr>s_RuntimeRoot := ''/run''\<rparr>" "(leased_world, ())" 7 1 True None]
    by (simp add: leased_world_def lookup_def)
  then show ?thesis by (simp add: same_disk_def) (simp add: leased_world_def lookup_def)
qed

theorem kill_success_means_stopped_witness:
  "\<exists>rs w2. ForRecord demo_store demo_record = Inr rs \<and> seen_stopped demo_app rs demo_record w2"
proof -
  obtain w' where w: "waitForStopped demo_app demo_record (demo_world, ()) = (Inr (), w')" using demo_waited by blast
  obtain st where c: "ap_callControl demo_app (r_ControlSocket demo_record) (requestFor demo_record ActionShutdown) (demo_world, ()) = (Inr st, demo_world, ())"
    by (simp add: demo_app_def)
  have "killRecord demo_app demo_record (demo_world, ()) = (Inr (), w')"
    using w c by (simp add: killRecord_def io_simps) (simp add: demo_app_def)
  from kill_success_means_stopped [OF this c] show ?thesis by (auto simp: demo_app_def)
qed

lemma demo_inspected:
  "\<exists>item w2. inspectRecords demo_app True (demo_final, ()) = (Inr ([item], []), w2) \<and> ir_record item = demo_record"
proof -
  have f: "fault demo_final = (Inr (), demo_final)" by (simp add: fault_def demo_final_def)
  have "onFiles (ReadAll demo_dec (\<lambda>_. False) demo_store) (demo_final, ()) = (Inr ([demo_record], []), demo_final, ())"
    by (simp add: onFiles_def ReadAll_def locked_def demo_locked' reading_def demo_read CloseFile_def f io_simps)
  then show ?thesis
    by (simp add: inspectRecords_def inspectRecord_def requestFor_def demo_app_def io_simps)
qed

theorem start_reuses_the_wrap_of_the_window_witness:
  "startInside (demo_app\<lparr>ap_startWorker := (\<lambda>e r w. (Inl (Ext ''second worker''), demo_world, ()))\<rparr>) [] (demo_final, ())
   = startInside demo_app [] (demo_final, ())"
proof -
  obtain item w2 where i: "inspectRecords demo_app True (demo_final, ()) = (Inr ([item], []), w2)" "ir_record item = demo_record"
    using demo_inspected by blast
  have "ap_resolveTarget demo_app (demo_final, ()) = (Inr sample_target, demo_final, ())" by (simp add: demo_app_def)
  then show ?thesis
    by (rule start_reuses_the_wrap_of_the_window [OF _ i(1), where item = item]) (simp_all add: i(2) demo_record_def)
qed

definition home_app :: "(Record, unit) application" where
  "home_app = demo_app\<lparr>ap_store := \<lparr>s_StateRoot = ''/home/u/.local/state/wrap'', s_RuntimeRoot = ''/run/user/501/wrap''\<rparr>\<rparr>"

theorem new_wrap_can_be_managed_witness:
  "\<exists>name. Record_Validate (\<lambda>_. False) (newRecord home_app sample_target (hex_encode (replicate 16 CHR ''b'')) name) = None
     \<and> ForRecord (ap_store home_app) (newRecord home_app sample_target (hex_encode (replicate 16 CHR ''b'')) name) = Inr (ap_store home_app)"
proof -
  obtain name where n: "ChooseName (\<lambda>_. False) [] sample_target [] = Inr name"
    using ChooseName_derived [of "[]" "\<lambda>_. False" sample_target] by auto
  have "storeFromEnvironment (\<lambda>k. if k = ''XDG_RUNTIME_DIR'' then ''/run/user/501'' else []) (Inr ''/home/u'') = Inr (ap_store home_app)"
    by code_simp
  from new_wrap_can_be_managed [OF this, of "replicate 16 CHR ''b''" "[]" sample_target "[]" name] n show ?thesis
    by (auto simp: home_app_def demo_app_def sample_target_def IsAbs_def HasPrefix_def)
qed

end
