(* ===== verification/Viewer_Geometry.thy ===== *)
theory Viewer_Geometry
  imports Mirror_Tunnel Tmux_Syntax Target_Model Mirror_Protocol
begin

text \<open>
  The geometry of viewers, first part of \<open>internal/mirror/viewer.go\<close>: reading what tmux prints about a
  window and its clients, comparing a client with the captured window, and the bounded loop that
  waits for the two to agree and corrects the size once.
\<close>

section \<open>Data\<close>

record Identity =
  id_ID :: string
  id_WindowID :: string
  id_Generation :: string

record ViewerGeometry =
  vg_Columns :: "16 word"
  vg_Rows :: "16 word"
  vg_statusRows :: "16 word"
  vg_statusValue :: string

record viewerClientGeometry =
  vc_name :: string
  vc_pid :: int
  vc_columns :: "16 word"
  vc_rows :: "16 word"
  vc_flags :: string
  vc_windowID :: string
  vc_windowColumns :: "16 word"
  vc_windowRows :: "16 word"
  vc_windowBigger :: bool
  vc_statusRows :: "16 word"

section \<open>Parsing\<close>

definition parseStatusRows :: "string \<Rightarrow> gerror + 16 word" where
  "parseStatusRows raw =
     (let value = TrimSpace raw in
      if value = ''off'' then Inr 0
      else if value = ''on'' then Inr 1
      else case ParseUint 16 value of
        None \<Rightarrow> Inl (Msgf ''unexpected tmux status value %q'' [value])
      | Some rows \<Rightarrow>
          if rows > 5 then Inl (Msgf ''unexpected tmux status value %q'' [value]) else Inr (of_nat rows))"

text \<open>The code reads runes; a rune is a digit only when it is a digit byte.\<close>

definition validWindowID :: "string \<Rightarrow> bool" where
  "validWindowID w \<longleftrightarrow> \<not> (length w < 2 \<or> hd w \<noteq> CHR ''@'') \<and> list_all is_digit (tl w)"

definition parseWindowPinUnchecked :: "string \<Rightarrow> gerror + string \<times> ViewerGeometry \<times> string \<times> bool" where
  "parseWindowPinUnchecked result =
     (case Split (TrimSpace result) newline of
        [l0, l1, l2] \<Rightarrow>
          (case Split l0 tab of
             [g0, g1, g2] \<Rightarrow>
               let windowID = TrimSpace g0 in
               if \<not> validWindowID windowID then Inl (Msgf ''unexpected tmux window id %q'' [windowID])
               else (case (ParseUint 16 g1, ParseUint 16 g2) of
                 (Some columns, Some rows) \<Rightarrow>
                   (case parseStatusRows l2 of
                      Inl e \<Rightarrow> Inl e
                    | Inr statusRows \<Rightarrow>
                        if rows > 65535 - unat statusRows
                        then Inl (Msgf ''tmux viewer rows overflow: %d + %d'' [itoa rows, itoa (unat statusRows)])
                        else
                          let geometry = \<lparr>vg_Columns = of_nat columns, vg_Rows = of_nat rows + statusRows,
                                vg_statusRows = statusRows, vg_statusValue = TrimSpace l2\<rparr> in
                          (case Fields l1 of
                             [source, mode] \<Rightarrow>
                               if source \<noteq> ''window-size'' \<and> source \<noteq> ''window-size*''
                               then Inl (Msgf ''unexpected tmux window-size source %q'' [source])
                               else if mode \<notin> {''largest'', ''smallest'', ''manual'', ''latest''}
                               then Inl (Msgf ''unexpected tmux window-size mode %q'' [mode])
                               else Inr (windowID, geometry, mode, source = ''window-size*'')
                           | _ \<Rightarrow> Inl (Msgf ''unexpected tmux window-size result %q'' [l1])))
               | _ \<Rightarrow> Inl (Msgf ''unexpected tmux window geometry %q'' [l0]))
           | _ \<Rightarrow> Inl (Msgf ''unexpected tmux window geometry %q'' [l0]))
      | _ \<Rightarrow> Inl (Msgf ''unexpected tmux pin result %q'' [result]))"

definition parseWindowPin :: "string \<Rightarrow> gerror + string \<times> ViewerGeometry \<times> string \<times> bool" where
  "parseWindowPin result =
     (case parseWindowPinUnchecked result of
        Inl e \<Rightarrow> Inl e
      | Inr (windowID, geometry, mode, inherited) \<Rightarrow>
          (case validateDimensions (vg_Columns geometry) (vg_Rows geometry) of
             Some e \<Rightarrow> Inl (Wrapf ''invalid tmux window geometry: '' e)
           | None \<Rightarrow> Inr (windowID, geometry, mode, inherited)))"

text \<open>One line of the list of clients.\<close>

definition parse_client :: "string \<Rightarrow> gerror + viewerClientGeometry" where
  "parse_client line =
     (case Split line tab of
        [f0, f1, f2, f3, f4, f5, f6, f7, f8, f9] \<Rightarrow>
          (case Atoi f1 of
             None \<Rightarrow> Inl (Msgf ''unexpected tmux client pid %q'' [f1])
           | Some pid \<Rightarrow>
               if pid \<le> 0 then Inl (Msgf ''unexpected tmux client pid %q'' [f1])
               else (case (ParseUint 16 f2, ParseUint 16 f3, ParseUint 16 f6, ParseUint 16 f7) of
                 (Some columns, Some rows, Some windowColumns, Some windowRows) \<Rightarrow>
                   if \<not> validWindowID f5 then Inl (Msgf ''unexpected tmux client window id %q'' [f5])
                   else if f8 \<noteq> ''0'' \<and> f8 \<noteq> ''1'' then Inl (Msgf ''unexpected tmux window-bigger value %q'' [f8])
                   else (case parseStatusRows f9 of
                     Inl e \<Rightarrow> Inl e
                   | Inr statusRows \<Rightarrow>
                       Inr \<lparr>vc_name = f0, vc_pid = pid, vc_columns = of_nat columns, vc_rows = of_nat rows, vc_flags = f4,
                            vc_windowID = f5, vc_windowColumns = of_nat windowColumns, vc_windowRows = of_nat windowRows,
                            vc_windowBigger = (f8 = ''1''), vc_statusRows = statusRows\<rparr>)
               | _ \<Rightarrow> Inl (Msgf ''unexpected tmux client dimensions %q'' [line])))
      | _ \<Rightarrow> Inl (Msgf ''unexpected tmux client geometry %q'' [line]))"

fun find_client :: "int \<Rightarrow> string list \<Rightarrow> viewerClientGeometry option \<Rightarrow> gerror + viewerClientGeometry" where
  "find_client pid [] found =
     (case found of
        None \<Rightarrow> Inl (Wrapv (Sentinel ErrViewerClientNotAttached) ('': pid '' @ itoa (nat pid)))
      | Some c \<Rightarrow> Inr c)"
| "find_client pid (line # rest) found =
     (if line = [] then find_client pid rest found
      else case parse_client line of
        Inl e \<Rightarrow> Inl e
      | Inr c \<Rightarrow>
          if vc_pid c \<noteq> pid then find_client pid rest found
          else if found \<noteq> None then Inl (Msgf ''duplicate tmux viewer client pid %d'' [itoa (nat pid)])
          else find_client pid rest (Some c))"

text \<open>\<open>%d\<close> of an \<open>int\<close>.\<close>

definition itoa_int :: "int \<Rightarrow> string" where
  "itoa_int i = (if i < 0 then ''-'' @ itoa (nat (- i)) else itoa (nat i))"

definition parseViewerClientGeometry :: "string \<Rightarrow> int \<Rightarrow> gerror + viewerClientGeometry" where
  "parseViewerClientGeometry result targetPID =
     (if targetPID \<le> 0 then Inl (Msgf ''invalid viewer client pid %d'' [itoa_int targetPID])
      else find_client targetPID (Split (TrimSpace result) newline) None)"

section \<open>Comparing\<close>

definition viewerClientHasFlag :: "string \<Rightarrow> string \<Rightarrow> bool" where
  "viewerClientHasFlag flags want = list_ex (\<lambda>flag. TrimSpace flag = want) (Split flags CHR '','')"

definition viewerGeometryMatches :: "ViewerGeometry \<Rightarrow> string \<Rightarrow> viewerClientGeometry \<Rightarrow> bool" where
  "viewerGeometryMatches captured windowID client \<longleftrightarrow>
     vc_windowID client = windowID
     \<and> viewerClientHasFlag (vc_flags client) ''ignore-size''
     \<and> vc_columns client = vg_Columns captured
     \<and> vc_rows client = vg_Rows captured
     \<and> vc_windowColumns client = vg_Columns captured
     \<and> \<not> vc_windowBigger client
     \<and> vc_statusRows client = vg_statusRows captured
     \<and> (ucast (vc_windowRows client) :: 32 word) + ucast (vg_statusRows captured) = ucast (vg_Rows captured)"

definition viewerGeometryDiagnostic :: "ViewerGeometry \<Rightarrow> viewerClientGeometry option \<Rightarrow> bool \<Rightarrow> ViewerGeometryDiagnostic" where
  "viewerGeometryDiagnostic captured client corrected =
     \<lparr>vg_CapturedColumns = vg_Columns captured, vg_CapturedRows = vg_Rows captured,
      vg_ClientColumns = (case client of None \<Rightarrow> 0 | Some c \<Rightarrow> vc_columns c),
      vg_ClientRows = (case client of None \<Rightarrow> 0 | Some c \<Rightarrow> vc_rows c),
      vg_WindowColumns = (case client of None \<Rightarrow> 0 | Some c \<Rightarrow> vc_windowColumns c),
      vg_WindowRows = (case client of None \<Rightarrow> 0 | Some c \<Rightarrow> vc_windowRows c),
      vg_StatusRows = vg_statusRows captured, vg_Corrected = corrected\<rparr>"

section \<open>Waiting for agreement\<close>

definition viewerGeometryAttempts :: nat where "viewerGeometryAttempts = 200"

text \<open>
  What the factory does during the loop, on a state \<open>'w\<close>: asking tmux for the client, resizing the
  terminal, refreshing the client, waiting for the next look, and recording an event.
\<close>

record 'w geometryOps =
  go_query :: "('w, viewerClientGeometry) io"
  go_resize :: "('w, unit) io"
  go_refresh :: "string \<Rightarrow> ('w, unit) io"
  go_wait :: "('w, unit) io"
  go_emit :: "string \<Rightarrow> ViewerGeometryDiagnostic \<Rightarrow> 'w \<Rightarrow> 'w"

definition failViewerGeometry ::
    "'w geometryOps \<Rightarrow> ViewerGeometryDiagnostic \<Rightarrow> gerror \<Rightarrow> 'w \<Rightarrow> (gerror + ViewerGeometryDiagnostic) \<times> 'w" where
  "failViewerGeometry ops report e w = (Inl e, go_emit ops ''geometry_failed'' report w)"

text \<open>
  \<open>n\<close> is the number of looks that are left. The correction happens once and starts a new phase of
  \<open>viewerGeometryAttempts\<close> looks.
\<close>

function verify_loop ::
    "'w geometryOps \<Rightarrow> string \<Rightarrow> ViewerGeometry \<Rightarrow> nat \<Rightarrow> bool \<Rightarrow> ViewerGeometryDiagnostic \<Rightarrow> 'w
     \<Rightarrow> (gerror + ViewerGeometryDiagnostic) \<times> 'w" where
  "verify_loop ops windowID captured n corrected report w =
     (if n = 0 then failViewerGeometry ops report (Msg ''tmux viewer geometry did not converge'') w
      else case go_query ops w of
        (Inl e, w1) \<Rightarrow>
          if errors_is e ErrViewerClientNotAttached
          then (case go_wait ops w1 of
                  (Inl we, w2) \<Rightarrow> failViewerGeometry ops report we w2
                | (Inr _, w2) \<Rightarrow> verify_loop ops windowID captured (n - 1) corrected report w2)
          else failViewerGeometry ops report e w1
      | (Inr client, w1) \<Rightarrow>
          let report = viewerGeometryDiagnostic captured (Some client) corrected in
          if vc_windowID client \<noteq> windowID
          then failViewerGeometry ops report
                 (Msgf ''tmux viewer attached to window %s instead of pinned window'' [vc_windowID client]) w1
          else if viewerGeometryMatches captured windowID client
          then (Inr report, go_emit ops ''geometry_verified'' report w1)
          else if \<not> corrected
          then (case go_resize ops w1 of
                  (Inl e, w2) \<Rightarrow> failViewerGeometry ops report e w2
                | (Inr _, w2) \<Rightarrow>
                    (case go_refresh ops (vc_name client) w2 of
                       (Inl e, w3) \<Rightarrow> failViewerGeometry ops report e w3
                     | (Inr _, w3) \<Rightarrow>
                         let report = report\<lparr>vg_Corrected := True\<rparr>;
                             w4 = go_emit ops ''geometry_corrected'' report w3 in
                         (case go_wait ops w4 of
                            (Inl e, w5) \<Rightarrow> failViewerGeometry ops report e w5
                          | (Inr _, w5) \<Rightarrow> verify_loop ops windowID captured viewerGeometryAttempts True report w5)))
          else (case go_wait ops w1 of
                  (Inl e, w2) \<Rightarrow> failViewerGeometry ops report e w2
                | (Inr _, w2) \<Rightarrow> verify_loop ops windowID captured (n - 1) corrected report w2))"
  by pat_completeness auto
termination
  by (relation "measures [\<lambda>(ops, windowID, captured, n, corrected, report, w). if corrected then 0 else 1,
      \<lambda>(ops, windowID, captured, n, corrected, report, w). n]") auto

declare verify_loop.simps [simp del]

definition verifyViewerGeometry ::
    "'w geometryOps \<Rightarrow> string \<Rightarrow> ViewerGeometry \<Rightarrow> 'w \<Rightarrow> (gerror + ViewerGeometryDiagnostic) \<times> 'w" where
  "verifyViewerGeometry ops windowID captured w =
     (let report = viewerGeometryDiagnostic captured None False in
      verify_loop ops windowID captured viewerGeometryAttempts False report (go_emit ops ''geometry_preparing'' report w))"


section \<open>What was captured can be pinned\<close>

lemma validWindowID_isWindowID: "validWindowID w \<longleftrightarrow> isWindowID w"
  by (cases w) (auto simp: validWindowID_def isWindowID_def numbered_digits)

lemma ParseUint_bound: "ParseUint b s = Some n \<Longrightarrow> n < 2 ^ b"
  by (auto simp: ParseUint_def split: if_splits)

lemma parseStatusRows_result:
  assumes "parseStatusRows raw = Inr rows"
  shows "unat rows \<le> 5" and "valid_status (TrimSpace raw)"
  using assms
  by (auto simp: parseStatusRows_def valid_status_def Let_def unat_of_nat split: if_splits option.splits)

lemma parseWindowPinUnchecked_result:
  assumes "parseWindowPinUnchecked out = Inr (windowID, g, mode, inherited)"
  shows "isWindowID windowID" and "mode \<in> set window_size_modes" and "valid_status (vg_statusValue g)"
    and "unat (vg_statusRows g) \<le> 5" and "vg_statusRows g \<le> vg_Rows g"
proof -
  obtain l0 l1 l2 g0 g1 g2 columns rows where
    l: "Split (TrimSpace out) newline = [l0, l1, l2]" "Split l0 tab = [g0, g1, g2]"
      "ParseUint 16 g1 = Some columns" "ParseUint 16 g2 = Some rows"
    using assms by (auto simp: parseWindowPinUnchecked_def Let_def split: list.splits if_splits option.splits)
  then obtain sr where sr: "parseStatusRows l2 = Inr sr" "\<not> rows > 65535 - unat sr"
    and g: "g = \<lparr>vg_Columns = of_nat columns, vg_Rows = of_nat rows + sr, vg_statusRows = sr, vg_statusValue = TrimSpace l2\<rparr>"
    and w: "windowID = TrimSpace g0" "validWindowID windowID"
    and m: "mode \<in> {''largest'', ''smallest'', ''manual'', ''latest''}"
    using assms
    by (auto simp: parseWindowPinUnchecked_def Let_def split: if_splits sum.splits list.splits)
  have "unat (of_nat rows + sr :: 16 word) = rows + unat sr"
    using sr(2) parseStatusRows_result(1) [OF sr(1)] ParseUint_bound [OF l(4)]
    by (simp add: unat_word_ariths unat_of_nat)
  then show "vg_statusRows g \<le> vg_Rows g" by (simp add: g word_le_nat_alt)
  show "unat (vg_statusRows g) \<le> 5" "valid_status (vg_statusValue g)"
    using parseStatusRows_result [OF sr(1)] by (simp_all add: g)
  show "isWindowID windowID" using w(2) by (simp add: validWindowID_isWindowID)
  show "mode \<in> set window_size_modes" using m by (simp add: window_size_modes_def)
qed

lemma validateDimensions_None:
  "validateDimensions c r = None \<longleftrightarrow> unat c \<in> {2..500} \<and> unat r \<in> {2..300}"
  by (auto simp: validateDimensions_def word_less_nat_alt not_less)

lemma parseWindowPin_result:
  assumes "parseWindowPin out = Inr (windowID, g, mode, inherited)"
  shows "parseWindowPinUnchecked out = Inr (windowID, g, mode, inherited)"
    and "unat (vg_Columns g) \<in> {2..500}" and "unat (vg_Rows g) \<in> {2..300}"
proof -
  show u: "parseWindowPinUnchecked out = Inr (windowID, g, mode, inherited)"
    using assms by (auto simp: parseWindowPin_def split: sum.splits option.splits)
  have "validateDimensions (vg_Columns g) (vg_Rows g) = None"
    using assms u by (auto simp: parseWindowPin_def split: option.splits)
  then show "unat (vg_Columns g) \<in> {2..500}" "unat (vg_Rows g) \<in> {2..300}"
    by (simp_all add: validateDimensions_None)
qed

text \<open>A window that could be captured can be pinned: the dimensions are inside the limits of the
  protocol, taking the status lines off again does not wrap around, and the pin command accepts
  every captured value, for a window that has a row.\<close>

theorem captured_window_can_be_pinned:
  assumes "parseWindowPin out = Inr (windowID, g, mode, inherited)"
    and "isSessionID sid" and "isGeneration generation" and "vg_Rows g \<noteq> vg_statusRows g"
    and "pin_owner_error inherited owner hookIndex = None"
  shows "(\<exists>args. PinWindowSizeIfGenerationArgs sid generation windowID (vg_Columns g)
                   (vg_Rows g - vg_statusRows g) mode inherited (vg_statusValue g) owner hookIndex = Inr args)
    \<and> unat (vg_Columns g) \<in> {2..500} \<and> unat (vg_Rows g) \<in> {2..300}
    \<and> unat (vg_Rows g - vg_statusRows g) = unat (vg_Rows g) - unat (vg_statusRows g)"
proof -
  note u = parseWindowPinUnchecked_result [OF parseWindowPin_result(1) [OF assms(1)]]
  note d = parseWindowPin_result(2,3) [OF assms(1)]
  have "vg_Columns g \<noteq> 0" using d(1) by auto
  then show ?thesis
    using u d assms(2-5)
    by (simp add: PinWindowSizeIfGenerationArgs_def unat_sub)
qed

section \<open>What tmux prints is read back\<close>

definition plain_char :: "char \<Rightarrow> bool" where
  "plain_char c \<longleftrightarrow> 0x21 \<le> code c \<and> code c < 0x7F"

lemma plain_char_ascii:
  assumes "plain_char c"
  shows "code c < 0x80" and "code c \<notin> set space_runes" and "c \<noteq> tab" and "c \<noteq> newline" and "c \<noteq> CHR '' ''"
  using assms by (auto simp: plain_char_def space_runes_def tab_def newline_def)

lemma is_digit_plain: "is_digit c \<Longrightarrow> plain_char c"
  by (simp add: is_digit_def plain_char_def)

lemma trailing_newline: "trailing_space (s @ [newline]) = Some [newline]"
proof -
  have "EncodeRune 0x09 = [tab]" "EncodeRune 0x0A = [newline]"
    by (simp_all add: EncodeRune_def valid_rune_def encode_raw_def tab_def newline_def flip: of_char_eq_iff [where 'a = nat])
  then have enc: "space_encodings = [tab] # [newline] # map EncodeRune (drop 2 space_runes)"
    by (simp add: space_encodings_def space_runes_def)
  show ?thesis unfolding trailing_space_def enc by (simp add: HasSuffix_def tab_def newline_def)
qed

lemma TrimSpace_line:
  assumes "s \<noteq> []" "plain_char (hd s)" "plain_char (last s)"
  shows "TrimSpace (s @ [newline]) = s" and "TrimSpace s = s"
proof -
  note f = plain_char_ascii(1,2) [OF assms(2)] and l = plain_char_ascii(1,2) [OF assms(3)]
  show t: "TrimSpace s = s" by (rule TrimSpace_ascii [OF assms(1) f l])
  have "leading_space (s @ [newline]) = None"
    using leading_space_ascii [OF f, of "tl s @ [newline]"] assms(1) by (cases s) simp_all
  then have "TrimLeftSpace (s @ [newline]) = s @ [newline]" by (subst TrimLeftSpace.simps) simp
  moreover have "trailing_space s = None"
    using trailing_space_snoc [OF l, of "butlast s"] assms(1) by simp
  ultimately show "TrimSpace (s @ [newline]) = s"
    unfolding TrimSpace_def by (subst TrimRightSpace.simps) (simp add: trailing_newline TrimRightSpace.simps [of s])
qed

lemma Decode_plain: "code c < 0x80 \<Longrightarrow> DecodeRune (c # s) = (code c, 1)"
  using Decode1 [of "code c" s] by simp

lemma fields_from_word:
  "list_all plain_char w \<Longrightarrow> fields_from cur (w @ s) = fields_from (cur @ w) s"
proof (induction w arbitrary: cur)
  case (Cons c w)
  then show ?case
    using plain_char_ascii [of c] by (subst fields_from.simps) (simp add: Decode_plain)
qed simp

lemma Fields_two_words:
  assumes "list_all plain_char v" "list_all plain_char w" "v \<noteq> []" "w \<noteq> []"
  shows "Fields (v @ '' '' @ w) = [v, w]"
proof -
  have "fields_from v ('' '' @ w) = v # fields_from [] w"
    using assms(3) by (subst fields_from.simps) (simp add: Decode_plain space_runes_def)
  moreover have "fields_from [] w = [w]"
    using fields_from_word [OF assms(2), of "[]" "[]"] assms(4) by (simp add: fields_from.simps [of _ "[]"])
  ultimately show ?thesis using fields_from_word [OF assms(1), of "[]"] by (simp add: Fields_def)
qed

text \<open>
  The answer of tmux to the capture command, for a window with an identifier, a size, the mode of
  its size (a star marks a value that is not the window's own) and the status lines of its session.
\<close>

definition capture_output :: "string \<Rightarrow> nat \<Rightarrow> nat \<Rightarrow> bool \<Rightarrow> string \<Rightarrow> string \<Rightarrow> string" where
  "capture_output windowID columns rows inherited mode status =
     windowID @ [tab] @ itoa columns @ [tab] @ itoa rows @ [newline]
     @ (if inherited then ''window-size*'' else ''window-size'') @ '' '' @ mode @ [newline]
     @ status @ [newline]"

definition status_rows :: "string \<Rightarrow> nat" where
  "status_rows status = (if status = ''off'' then 0 else if status = ''on'' then 1 else digits_value status)"

lemma valid_status_plain:
  assumes "valid_status status"
  shows "status \<noteq> []" and "list_all plain_char status" and "parseStatusRows status = Inr (of_nat (status_rows status))"
    and "status_rows status \<le> 5"
proof -
  show p: "status \<noteq> []" "list_all plain_char status"
    using assms is_digit_plain
    by (auto simp: valid_status_def ParseUint_def plain_char_def list_all_iff split: option.splits if_splits)
  have "TrimSpace status = status"
    by (rule TrimSpace_line(2)) (use p in \<open>auto simp: list_all_iff\<close>)
  then show "parseStatusRows status = Inr (of_nat (status_rows status))" "status_rows status \<le> 5"
    using assms by (auto simp: parseStatusRows_def valid_status_def ParseUint_def status_rows_def split: if_splits)
qed

lemma mode_plain: "mode \<in> set window_size_modes \<Longrightarrow> mode \<noteq> [] \<and> list_all plain_char mode"
  by (auto simp: window_size_modes_def plain_char_def)

lemma plain_no_sep: "list_all plain_char s \<Longrightarrow> tab \<notin> set s \<and> newline \<notin> set s"
  using plain_char_ascii(3,4) by (auto simp: list_all_iff)

lemma itoa_plain: "list_all plain_char (itoa n)"
  using itoa_digits [of n] is_digit_plain by (auto simp: list_all_iff)

lemma ParseUint_itoa: "n < 2 ^ b \<Longrightarrow> ParseUint b (itoa n) = Some n"
  by (simp add: ParseUint_def)

lemma parse_captured:
  assumes "isWindowID windowID" and "mode \<in> set window_size_modes" and "valid_status status"
    and "2 \<le> columns" and "columns \<le> 500" and "2 \<le> rows + status_rows status" and "rows + status_rows status \<le> 300"
  shows "parseWindowPin (capture_output windowID columns rows inherited mode status) =
    Inr (windowID,
         \<lparr>vg_Columns = of_nat columns, vg_Rows = of_nat (rows + status_rows status),
          vg_statusRows = of_nat (status_rows status), vg_statusValue = status\<rparr>,
         mode, inherited)"
proof -
  obtain ds where w: "windowID = CHR ''@'' # ds" "ds \<noteq> []" "list_all is_digit ds"
    using assms(1) by (auto simp: isWindowID_def numbered_digits)
  have wp: "list_all plain_char windowID" "windowID \<noteq> []" 
    using w is_digit_plain by (auto simp: list_all_iff plain_char_def)
  note sp = valid_status_plain [OF assms(3)] and mp = mode_plain [OF assms(2)]
  define src where "src = (if inherited then ''window-size*'' else ''window-size'')"
  have srcp: "list_all plain_char src" "src \<noteq> []" by (auto simp: src_def plain_char_def)
  define l0 where "l0 = windowID @ [tab] @ itoa columns @ [tab] @ itoa rows"
  define l1 where "l1 = src @ '' '' @ mode"
  have nl: "newline \<notin> set l0" "newline \<notin> set l1" "newline \<notin> set status"
    using plain_no_sep [OF wp(1)] plain_no_sep [OF itoa_plain] plain_no_sep [OF srcp(1)] plain_no_sep [of mode] mp
      plain_no_sep [OF sp(2)]
    by (auto simp: l0_def l1_def tab_def newline_def)
  define body where "body = l0 @ newline # l1 @ newline # status"
  have out: "capture_output windowID columns rows inherited mode status = body @ [newline]"
    by (simp add: capture_output_def body_def l0_def l1_def src_def)
  have "TrimSpace (body @ [newline]) = body"
    by (rule TrimSpace_line(1)) (use w sp wp in \<open>auto simp: body_def l0_def list_all_iff plain_char_def\<close>)
  then have lines: "Split (TrimSpace (body @ [newline])) newline = [l0, l1, status]"
    using nl by (simp add: body_def Split_append Split_no_sep)
  have f0: "Split l0 tab = [windowID, itoa columns, itoa rows]"
    using plain_no_sep [OF wp(1)] plain_no_sep [OF itoa_plain] by (simp add: l0_def Split_append Split_no_sep)
  have wt: "TrimSpace windowID = windowID" "validWindowID windowID"
    using TrimSpace_line(2) [OF wp(2)] wp assms(1) by (auto simp: list_all_iff validWindowID_isWindowID)
  have st: "TrimSpace status = status"
    by (rule TrimSpace_line(2)) (use sp in \<open>auto simp: list_all_iff\<close>)
  have f1: "Fields l1 = [src, mode]" using Fields_two_words [of src mode] mp srcp by (simp add: l1_def)
  have n: "unat (of_nat (status_rows status) :: 16 word) = status_rows status"
    using sp(4) by (simp add: unat_of_nat)
  have noover: "\<not> 65535 - status_rows status < rows" using assms(7) by simp
  have "validateDimensions (of_nat columns) (of_nat (rows + status_rows status)) = None"
    unfolding validateDimensions_None using assms(4-7) by (auto simp: unat_of_nat simp del: of_nat_add)
  moreover have "parseWindowPinUnchecked (body @ [newline]) =
    Inr (windowID,
         \<lparr>vg_Columns = of_nat columns, vg_Rows = of_nat (rows + status_rows status),
          vg_statusRows = of_nat (status_rows status), vg_statusValue = status\<rparr>,
         mode, inherited)"
    using noover lines f0 f1 wt st n sp(3,4) assms(4-7) assms(2)
    by (simp add: parseWindowPinUnchecked_def ParseUint_itoa) (simp add: src_def window_size_modes_def)
  ultimately show ?thesis by (simp add: out parseWindowPin_def)
qed

text \<open>What tmux answers to the capture command is read back exactly: the window, its width, its
  height with the status lines added, the mode and whether the window has it from elsewhere.\<close>

theorem capture_read_back:
  assumes "isWindowID windowID" and "mode \<in> set window_size_modes" and "valid_status status"
    and "2 \<le> columns" and "columns \<le> 500" and "2 \<le> rows + status_rows status" and "rows + status_rows status \<le> 300"
  shows "parseWindowPin (capture_output windowID columns rows inherited mode status) =
    Inr (windowID,
         \<lparr>vg_Columns = of_nat columns, vg_Rows = of_nat (rows + status_rows status),
          vg_statusRows = of_nat (status_rows status), vg_statusValue = status\<rparr>,
         mode, inherited)"
  using assms by (rule parse_captured)

theorem capture_read_back_witness:
  "parseWindowPin (capture_output ''@7'' 80 24 True ''latest'' ''on'') =
    Inr (''@7'', \<lparr>vg_Columns = 80, vg_Rows = 25, vg_statusRows = 1, vg_statusValue = ''on''\<rparr>, ''latest'', True)"
proof -
  have "isWindowID ''@7''" "valid_status ''on''" "status_rows ''on'' = 1"
    by (auto simp: isWindowID_def numbered_digits is_digit_def valid_status_def status_rows_def)
  then show ?thesis
    using capture_read_back [of "''@7''" "''latest''" "''on''" 80 24 True] by (simp add: window_size_modes_def)
qed

section \<open>The waiting is bounded and ends in agreement\<close>

definition keepsE :: "('w \<Rightarrow> nat) \<Rightarrow> nat \<Rightarrow> ('w, 'a) io \<Rightarrow> bool" where
  "keepsE N k m \<longleftrightarrow> (\<forall>w. N (snd (m w)) \<le> N w + k)"

lemma keepsE_step: "keepsE N k m \<Longrightarrow> m w = (r, w') \<Longrightarrow> N w' \<le> N w + k"
  unfolding keepsE_def by (metis snd_conv)

text \<open>
  \<open>N\<close> is any measure of the state that one look raises by at most \<open>q\<close> and one correction
  (a resize and a refresh) by at most \<open>c\<close>, and that nothing else raises.
\<close>

lemma verify_loop_cost_corrected:
  assumes q: "keepsE N q (go_query ops)" and t: "keepsE N 0 (go_wait ops)"
    and e: "\<And>v d w. N (go_emit ops v d w) \<le> N w"
  shows "N (snd (verify_loop ops windowID captured n True report w)) \<le> N w + n * q"
proof (induction n arbitrary: report w)
  case 0
  show ?case using e by (simp add: verify_loop.simps failViewerGeometry_def)
next
  case (Suc n)
  obtain r1 w1 where 1: "go_query ops w = (r1, w1)" by (rule prod.exhaust)
  obtain r2 w2 where 2: "go_wait ops w1 = (r2, w2)" by (rule prod.exhaust)
  note b = keepsE_step [OF q 1] keepsE_step [OF t 2]
  have em: "N (go_emit ops v d w1) \<le> N w1" "N (go_emit ops v d w2) \<le> N w2" for v d by (rule e)+
  have em': "N (go_emit ops v d w1) \<le> N w + (q + n * q)" "N (go_emit ops v d w2) \<le> N w + (q + n * q)" for v d
    using em [of v d] b by linarith+
  have ih: "N (snd (verify_loop ops windowID captured n True rep w2)) \<le> N w + (q + n * q)" for rep
    using Suc [of rep w2] b by simp
  show ?case
    by (subst verify_loop.simps) (auto simp: 1 2 Let_def failViewerGeometry_def em' ih split: sum.splits)
qed

lemma verify_loop_cost:
  assumes q: "keepsE N q (go_query ops)" and r: "keepsE N a (go_resize ops)" and f: "\<And>s. keepsE N b (go_refresh ops s)"
    and t: "keepsE N 0 (go_wait ops)" and e: "\<And>v d w. N (go_emit ops v d w) \<le> N w"
  shows "N (snd (verify_loop ops windowID captured n False report w))
    \<le> N w + n * q + (viewerGeometryAttempts * q + a + b)"
proof (induction n arbitrary: report w)
  case 0
  show ?case using e by (simp add: verify_loop.simps failViewerGeometry_def trans_le_add1)
next
  case (Suc n)
  define B where "B = N w + (Suc n) * q + (viewerGeometryAttempts * q + a + b)"
  obtain r1 w1 where 1: "go_query ops w = (r1, w1)" by (rule prod.exhaust)
  obtain r2 w2 where 2: "go_wait ops w1 = (r2, w2)" by (rule prod.exhaust)
  obtain r3 w3 where 3: "go_resize ops w1 = (r3, w3)" by (rule prod.exhaust)
  have b: "N w1 \<le> N w + q" "N w2 \<le> N w1" "N w3 \<le> N w1 + a"
    using keepsE_step [OF q 1] keepsE_step [OF t 2] keepsE_step [OF r 3] by simp_all
  have em: "N (go_emit ops v d w1) \<le> B" "N (go_emit ops v d w2) \<le> B" "N (go_emit ops v d w3) \<le> B" for v d
    using e [of v d w1] e [of v d w2] e [of v d w3] b by (simp_all add: B_def)
  have ih: "N (snd (verify_loop ops windowID captured n False rep w2)) \<le> B" for rep
    using Suc [of rep w2] b by (simp add: B_def)
  have refresh: "N (snd (case go_refresh ops nm w3 of
       (Inl e, w3) \<Rightarrow> failViewerGeometry ops d e w3
     | (Inr _, w3) \<Rightarrow>
         let report = d\<lparr>vg_Corrected := True\<rparr>; w4 = go_emit ops v report w3 in
         (case go_wait ops w4 of
            (Inl e, w5) \<Rightarrow> failViewerGeometry ops report e w5
          | (Inr _, w5) \<Rightarrow> verify_loop ops wid captured viewerGeometryAttempts True report w5))) \<le> B" for wid nm d v
  proof -
    define d' where "d' = d\<lparr>vg_Corrected := True\<rparr>"
    obtain r4 w4 where 4: "go_refresh ops nm w3 = (r4, w4)" by (rule prod.exhaust)
    obtain r5 w5 where 5: "go_wait ops (go_emit ops v d' w4) = (r5, w5)" by (rule prod.exhaust)
    have "N w4 \<le> N w3 + b" "N w5 \<le> N w4"
      using keepsE_step [OF f 4] keepsE_step [OF t 5] e [of v d' w4] by simp_all
    then show ?thesis
      using b verify_loop_cost_corrected [OF q t e, of wid captured viewerGeometryAttempts d' w5]
        e [of "''geometry_failed''" d w4] e [of "''geometry_failed''" d' w5]
      by (auto simp: 4 5 B_def failViewerGeometry_def Let_def d'_def [symmetric] split: sum.splits)
  qed
  show ?case
    unfolding B_def [symmetric]
    by (subst verify_loop.simps, subst Let_def) (auto simp: 1 2 3 failViewerGeometry_def [of _ _ _ w1]
        failViewerGeometry_def [of _ _ _ w2] failViewerGeometry_def [of _ _ _ w3] em ih refresh split: sum.splits)
qed

definition agreed :: "'w geometryOps \<Rightarrow> string \<Rightarrow> ViewerGeometry \<Rightarrow> ViewerGeometryDiagnostic \<Rightarrow> bool" where
  "agreed ops windowID captured d \<longleftrightarrow>
     (\<exists>w client w'. go_query ops w = (Inr client, w') \<and> viewerGeometryMatches captured windowID client
       \<and> (\<exists>c. d = viewerGeometryDiagnostic captured (Some client) c))"

lemma agreedI:
  "go_query ops w = (Inr client, w') \<Longrightarrow> viewerGeometryMatches captured windowID client \<Longrightarrow>
   agreed ops windowID captured (viewerGeometryDiagnostic captured (Some client) c)"
  unfolding agreed_def by blast

lemma verify_loop_success_corrected:
  "verify_loop ops windowID captured n True report w = (Inr d, w') \<Longrightarrow> agreed ops windowID captured d"
proof (induction n arbitrary: windowID report w)
  case 0
  then show ?case by (simp add: verify_loop.simps failViewerGeometry_def)
next
  case (Suc n)
  from Suc.prems show ?case
    by (subst (asm) verify_loop.simps)
       (auto simp: failViewerGeometry_def Let_def split: if_splits prod.splits sum.splits intro: Suc.IH agreedI)
qed

lemma verify_loop_success:
  "verify_loop ops windowID captured n False report w = (Inr d, w') \<Longrightarrow> agreed ops windowID captured d"
proof (induction n arbitrary: windowID report w)
  case 0
  then show ?case by (simp add: verify_loop.simps failViewerGeometry_def)
next
  case (Suc n)
  from Suc.prems show ?case
    by (subst (asm) verify_loop.simps)
       (auto simp: failViewerGeometry_def Let_def split: if_splits prod.splits sum.splits
         intro: Suc.IH agreedI verify_loop_success_corrected)
qed

text \<open>The waiting for a viewer's geometry ends: whatever the terminal and tmux answer, at most 400
  looks and one correction (a resize and a refresh) happen, and success means that a look found a
  client of the pinned window that agrees with the captured geometry.\<close>

theorem verifyViewerGeometry_bounded:
  assumes "keepsE N q (go_query ops)" and "keepsE N a (go_resize ops)" and "\<And>s. keepsE N b (go_refresh ops s)"
    and "keepsE N 0 (go_wait ops)" and "\<And>v d w. N (go_emit ops v d w) \<le> N w"
  shows "N (snd (verifyViewerGeometry ops windowID captured w)) \<le> N w + 400 * q + a + b
    \<and> (\<forall>d w'. verifyViewerGeometry ops windowID captured w = (Inr d, w') \<longrightarrow> agreed ops windowID captured d)"
proof -
  define report where "report = viewerGeometryDiagnostic captured None False"
  define w0 where "w0 = go_emit ops ''geometry_preparing'' report w"
  have v: "verifyViewerGeometry ops windowID captured w =
      verify_loop ops windowID captured viewerGeometryAttempts False report w0"
    by (simp add: verifyViewerGeometry_def report_def w0_def Let_def)
  have "N w0 \<le> N w" unfolding w0_def by (rule assms(5))
  then have "N (snd (verifyViewerGeometry ops windowID captured w)) \<le> N w + 400 * q + a + b"
    using verify_loop_cost [OF assms, of windowID captured viewerGeometryAttempts report w0]
    unfolding v by (simp add: viewerGeometryAttempts_def)
  then show ?thesis unfolding v by (blast dest: verify_loop_success)
qed

text \<open>A terminal that starts with the wrong width and takes the right one when it is resized.\<close>

definition demo_client :: "16 word \<Rightarrow> viewerClientGeometry" where
  "demo_client columns = \<lparr>vc_name = ''/dev/pts/3'', vc_pid = 41, vc_columns = columns, vc_rows = 25, vc_flags = ''attached,ignore-size'',
     vc_windowID = ''@7'', vc_windowColumns = columns, vc_windowRows = 24, vc_windowBigger = False, vc_statusRows = 1\<rparr>"

definition demo_geometry :: ViewerGeometry where
  "demo_geometry = \<lparr>vg_Columns = 80, vg_Rows = 25, vg_statusRows = 1, vg_statusValue = ''on''\<rparr>"

definition demo_geometry_ops :: "(nat \<times> bool) geometryOps" where
  "demo_geometry_ops = \<lparr>go_query = (\<lambda>(n, sized). (Inr (demo_client (if sized then 80 else 100)), Suc n, sized)),
     go_resize = (\<lambda>(n, sized). (Inr (), n, True)), go_refresh = (\<lambda>s w. (Inr (), w)), go_wait = (\<lambda>w. (Inr (), w)),
     go_emit = (\<lambda>v d w. w)\<rparr>"

lemma demo_flags: "viewerClientHasFlag ''attached,ignore-size'' ''ignore-size''"
proof -
  have "TrimSpace ''ignore-size'' = ''ignore-size''" by (rule TrimSpace_ascii) (simp_all add: space_runes_def)
  then show ?thesis by (simp add: viewerClientHasFlag_def)
qed

theorem verifyViewerGeometry_bounded_witness:
  "fst (snd (verifyViewerGeometry demo_geometry_ops ''@7'' demo_geometry (0, False))) \<le> 400
   \<and> agreed demo_geometry_ops ''@7'' demo_geometry (viewerGeometryDiagnostic demo_geometry (Some (demo_client 80)) True)"
proof -
  have "verifyViewerGeometry demo_geometry_ops ''@7'' demo_geometry (0, False) =
     (Inr (viewerGeometryDiagnostic demo_geometry (Some (demo_client 80)) True), 2, True)"
    by (simp add: verifyViewerGeometry_def viewerGeometryAttempts_def verify_loop.simps demo_geometry_ops_def
        viewerGeometryMatches_def demo_client_def demo_geometry_def demo_flags Let_def viewerGeometryDiagnostic_def)
  moreover have "fst (snd (verifyViewerGeometry demo_geometry_ops ''@7'' demo_geometry (0, False))) \<le> fst (0, False) + 400 * 1 + 0 + 0
    \<and> (\<forall>d w'. verifyViewerGeometry demo_geometry_ops ''@7'' demo_geometry (0, False) = (Inr d, w') \<longrightarrow>
         agreed demo_geometry_ops ''@7'' demo_geometry d)"
    by (rule verifyViewerGeometry_bounded) (auto simp: keepsE_def demo_geometry_ops_def)
  ultimately show ?thesis by auto
qed

theorem captured_window_can_be_pinned_witness:
  "(\<exists>args. PinWindowSizeIfGenerationArgs ''$0'' (replicate 32 CHR ''a'') ''@7'' 80 24 ''latest'' True ''on''
            (replicate 32 CHR ''b'') 5 = Inr args)"
proof -
  have a: "isWindowID ''@7''" "isSessionID ''$0''" "valid_status ''on''" "status_rows ''on'' = 1"
    "isGeneration (replicate 32 CHR ''a'')" "isGeneration (replicate 32 CHR ''b'')"
    by (auto simp: isWindowID_def isSessionID_def numbered_digits is_digit_def valid_status_def status_rows_def
        isGeneration_def runes_of_ascii rune_between_def list_all_iff)
  define g where "g = \<lparr>vg_Columns = 80, vg_Rows = 25, vg_statusRows = 1, vg_statusValue = ''on''\<rparr>"
  have "parseWindowPin (capture_output ''@7'' 80 24 True ''latest'' ''on'') = Inr (''@7'', g, ''latest'', True)"
    using parse_captured [of "''@7''" "''latest''" "''on''" 80 24 True] a by (simp add: g_def window_size_modes_def)
  moreover have "pin_owner_error True (replicate 32 CHR ''b'') 5 = None" using a by (simp add: pin_owner_error_def)
  moreover have "vg_Rows g \<noteq> vg_statusRows g" by (simp add: g_def)
  ultimately show ?thesis
    using captured_window_can_be_pinned [OF _ a(2,5)] unfolding g_def by fastforce
qed

end
