(* ===== verification/Viewer_Pins.thy ===== *)
theory Viewer_Pins
  imports Viewer_Geometry Tmux_Server
begin

unbundle bit_operations_syntax

text \<open>
  The window pins of the viewer factory, second part of \<open>internal/mirror/viewer.go\<close>: running tmux,
  pinning the size of a window for its first viewer, counting the viewers of a pin, restoring the
  size after the last one and retrying a failed restore. \<open>pinMu\<close> is held during every operation on
  the pins, so each of them is one step. The hooks that only tests set (\<open>run\<close>, \<open>queryClient\<close>,
  \<open>resizePTY\<close>, \<open>refreshClient\<close>, \<open>waitGeometry\<close>) are nil.
\<close>

section \<open>Data\<close>

record viewerWindowKey =
  vk_generation :: string
  vk_windowID :: string

record viewerWindowPin =
  vp_references :: int
  vp_originalMode :: string
  vp_originalInherited :: bool
  vp_restore :: bool
  vp_owner :: string
  vp_hookIndex :: "32 word"

text \<open>The settings of a factory; \<open>None\<close> as environment is nil. Its pins are a state of their own.\<close>

record PTYViewerFactory =
  pf_SessionSocket :: string
  pf_Endpoint :: Endpoint
  pf_TmuxPath :: string
  pf_Environment :: "string list option"

type_synonym pins = "viewerWindowKey \<Rightarrow> viewerWindowPin option"

text \<open>
  What the factory takes from the system: \<open>exec.LookPath("tmux")\<close>, \<open>os.Environ\<close>, a run of a command
  to its end with the combined output, and sixteen random bytes.
\<close>

record 'w viewerEnv =
  ve_LookPath :: "gerror + string"
  ve_Environ :: "string list"
  ve_CombinedOutput :: "string \<Rightarrow> string list \<Rightarrow> string list \<Rightarrow> 'w \<Rightarrow> (string \<times> gerror option) \<times> 'w"
  ve_rand16 :: "('w, string) io"

section \<open>Running tmux\<close>

definition SocketSessions :: string where "SocketSessions = ''wrap''"

definition commandSettings :: "'w viewerEnv \<Rightarrow> PTYViewerFactory \<Rightarrow> gerror + string \<times> Endpoint" where
  "commandSettings ve f =
     (case (if pf_TmuxPath f = [] then ve_LookPath ve else Inr (pf_TmuxPath f)) of
        Inl e \<Rightarrow> Inl (Wrapf ''tmux not found in PATH: '' e)
      | Inr tmuxPath \<Rightarrow>
          let endpoint = pf_Endpoint f;
              endpoint =
                (if ep_SocketName endpoint = [] \<and> ep_SocketPath endpoint = []
                 then endpoint\<lparr>ep_SocketName := if pf_SessionSocket f = [] then SocketSessions else pf_SessionSocket f\<rparr>
                 else endpoint)
          in (case Endpoint_Args endpoint of
                Inl e \<Rightarrow> Inl e
              | Inr _ \<Rightarrow> Inr (tmuxPath, endpoint)))"

text \<open>An entry without \<open>=\<close> is dropped, and so are the variables that tie a process to a terminal of tmux.\<close>

definition kept_variable :: "string \<Rightarrow> bool" where
  "kept_variable value \<longleftrightarrow>
     (case IndexByte value CHR ''='' of
        None \<Rightarrow> False
      | Some i \<Rightarrow> take i value \<notin> {''TMUX'', ''TMUX_PANE'', ''TERM''})"

definition cleanViewerEnvironment :: "string list \<Rightarrow> string list" where
  "cleanViewerEnvironment environment = filter kept_variable environment @ [''TERM=xterm-256color'']"

definition cleanEnvironment :: "'w viewerEnv \<Rightarrow> PTYViewerFactory \<Rightarrow> string list" where
  "cleanEnvironment ve f =
     cleanViewerEnvironment (case pf_Environment f of None \<Rightarrow> ve_Environ ve | Some e \<Rightarrow> e)"

definition runTmux :: "'w viewerEnv \<Rightarrow> PTYViewerFactory \<Rightarrow> string list \<Rightarrow> ('w, string) io" where
  "runTmux ve f args w =
     (case commandSettings ve f of
        Inl e \<Rightarrow> (Inl e, w)
      | Inr (tmuxPath, endpoint) \<Rightarrow>
          (case Endpoint_Args endpoint of
             Inl e \<Rightarrow> (Inl e, w)
           | Inr prefix \<Rightarrow>
               (case ve_CombinedOutput ve tmuxPath (prefix @ args) (cleanEnvironment ve f) w of
                  ((output, Some e), w1) \<Rightarrow> (Inl (Wrapf (TrimSpace output @ '': '') e), w1)
                | ((output, None), w1) \<Rightarrow>
                    if IsGenerationMismatchOutput output then (Inl (Sentinel ErrServerGenerationChanged), w1)
                    else (Inr output, w1))))"

definition viewerTerminalEnded :: "'w viewerEnv \<Rightarrow> PTYViewerFactory \<Rightarrow> Identity \<Rightarrow> ('w, bool) io" where
  "viewerTerminalEnded ve f identity w =
     (case runTmux ve f [''display-message'', ''-p'', ''-t'', id_ID identity, ''#{'' @ ServerGenerationOption @ ''}''] w of
        (Inl e, w1) \<Rightarrow>
          if errors_is e ErrServerGenerationChanged \<or> IsMissingTargetError (Some e) then (Inr True, w1)
          else (Inl (Wrapf ''check mirrored terminal identity: '' e), w1)
      | (Inr result, w1) \<Rightarrow> (Inr (TrimSpace result \<noteq> id_Generation identity), w1))"

section \<open>Restoring\<close>

definition restoreWindowPin ::
    "'w viewerEnv \<Rightarrow> PTYViewerFactory \<Rightarrow> viewerWindowKey \<Rightarrow> string \<Rightarrow> bool \<Rightarrow> string \<Rightarrow> 32 word \<Rightarrow> 'w
     \<Rightarrow> gerror option \<times> 'w" where
  "restoreWindowPin ve f key mode inherited owner hookIndex w =
     (case RestoreWindowSizeIfGenerationArgs (vk_generation key) (vk_windowID key) mode inherited owner hookIndex of
        Inl e \<Rightarrow> (Some e, w)
      | Inr args \<Rightarrow>
          (case runTmux ve f args w of
             (Inl e, w1) \<Rightarrow>
               if errors_is e ErrServerGenerationChanged then (None, w1)
               else if IsMissingTargetError (Some e) then (None, w1)
               else if Contains (ToLower (error_text e)) ''server exited unexpectedly'' then (None, w1)
               else (Some (Wrapf ''restore mirrored tmux window size: '' e), w1)
           | (Inr _, w1) \<Rightarrow> (None, w1)))"

text \<open>\<open>binary.BigEndian.Uint32\<close> of the first four bytes, the sign bit cleared, never zero.\<close>

definition big_endian32 :: "string \<Rightarrow> 32 word" where
  "big_endian32 s = foldl (\<lambda>v c. 256 * v + of_nat (code c)) 0 s"

definition newViewerWindowPinOwner :: "'w viewerEnv \<Rightarrow> ('w, string \<times> 32 word) io" where
  "newViewerWindowPinOwner ve w =
     (case ve_rand16 ve w of
        (Inl e, w1) \<Rightarrow> (Inl (Wrapf ''create tmux window pin owner: '' e), w1)
      | (Inr value, w1) \<Rightarrow>
          let hookIndex = big_endian32 (take 4 value) AND 0x7fffffff;
              hookIndex = (if hookIndex = 0 then 1 else hookIndex)
          in (Inr (hex_encode value, hookIndex), w1))"

section \<open>Pinning\<close>

text \<open>
  The end of one round of \<open>pinWindow\<close>: \<open>Again\<close> is \<open>continue\<close>. On success the result is the window,
  its geometry and the key that the release function closes over.
\<close>

datatype pinOutcome = Again | PinFailed gerror | PinTaken string ViewerGeometry viewerWindowKey

definition roll_back ::
    "'w viewerEnv \<Rightarrow> PTYViewerFactory \<Rightarrow> viewerWindowKey \<Rightarrow> string \<Rightarrow> bool \<Rightarrow> string \<Rightarrow> 32 word \<Rightarrow> 'w
     \<Rightarrow> gerror option \<times> 'w" where
  "roll_back ve f key mode inherited owner hookIndex w =
     (if inherited then restoreWindowPin ve f key mode inherited owner hookIndex w else (None, w))"

definition rollback_error :: "gerror \<Rightarrow> gerror \<Rightarrow> gerror" where
  "rollback_error pinErr rollbackErr =
     Join [pinErr, Wrapf ''roll back partial mirrored tmux window pin: '' rollbackErr]"

text \<open>The first viewer of a window.\<close>

definition takePin ::
    "'w viewerEnv \<Rightarrow> PTYViewerFactory \<Rightarrow> Identity \<Rightarrow> viewerWindowKey \<Rightarrow> ViewerGeometry \<Rightarrow> string \<Rightarrow> bool
     \<Rightarrow> pins \<times> 'w \<Rightarrow> pinOutcome \<times> pins \<times> 'w" where
  "takePin ve f identity key geometry mode inherited s =
     (let (pins, w) = s; windowID = vk_windowID key; windowRows = vg_Rows geometry - vg_statusRows geometry in
      case (if inherited then newViewerWindowPinOwner ve w else (Inr ([], 0), w)) of
        (Inl e, w1) \<Rightarrow> (PinFailed e, pins, w1)
      | (Inr (owner, hookIndex), w1) \<Rightarrow>
          (case PinWindowSizeIfGenerationArgs (id_ID identity) (id_Generation identity) windowID
                  (vg_Columns geometry) windowRows mode inherited (vg_statusValue geometry) owner hookIndex of
             Inl e \<Rightarrow> (PinFailed e, pins, w1)
           | Inr pinArgs \<Rightarrow>
               (case runTmux ve f pinArgs w1 of
                  (Inl e, w2) \<Rightarrow>
                    let pinErr = Wrapf ''pin mirrored tmux window size: '' e in
                    (case roll_back ve f key mode inherited owner hookIndex w2 of
                       (Some rollbackErr, w3) \<Rightarrow> (PinFailed (rollback_error pinErr rollbackErr), pins, w3)
                     | (None, w3) \<Rightarrow>
                         if IsWindowPinConflictError (Some e) then (Again, pins, w3) else (PinFailed pinErr, pins, w3))
                | (Inr pinResult, w2) \<Rightarrow>
                    if IsWindowPinMismatchOutput pinResult then (Again, pins, w2)
                    else if TrimSpace pinResult \<noteq> [] then
                      let pinErr = Msgf ''unexpected tmux window pin result %q'' [pinResult] in
                      (case roll_back ve f key mode inherited owner hookIndex w2 of
                         (Some rollbackErr, w3) \<Rightarrow> (PinFailed (rollback_error pinErr rollbackErr), pins, w3)
                       | (None, w3) \<Rightarrow> (PinFailed pinErr, pins, w3))
                    else
                      (PinTaken windowID geometry key,
                       pins(key \<mapsto> \<lparr>vp_references = 1, vp_originalMode = mode, vp_originalInherited = inherited,
                              vp_restore = inherited, vp_owner = owner, vp_hookIndex = hookIndex\<rparr>),
                       w2))))"

definition pinRound ::
    "'w viewerEnv \<Rightarrow> PTYViewerFactory \<Rightarrow> Identity \<Rightarrow> pins \<times> 'w \<Rightarrow> pinOutcome \<times> pins \<times> 'w" where
  "pinRound ve f identity s =
     (let (pins, w) = s in
      case CaptureWindowSizeIfGenerationArgs (id_ID identity) (id_Generation identity) of
        Inl e \<Rightarrow> (PinFailed e, pins, w)
      | Inr args \<Rightarrow>
          (case runTmux ve f args w of
             (Inl e, w1) \<Rightarrow> (PinFailed (Wrapf ''capture mirrored tmux window size: '' e), pins, w1)
           | (Inr result, w1) \<Rightarrow>
               (case parseWindowPin result of
                  Inl e \<Rightarrow> (PinFailed (Wrapf ''capture mirrored tmux window size: '' e), pins, w1)
                | Inr (windowID, geometry, mode, inherited) \<Rightarrow>
                    if id_WindowID identity \<noteq> [] \<and> windowID \<noteq> id_WindowID identity
                    then (PinFailed (Msgf ''mirrored target window changed from %s to %s'' [id_WindowID identity, windowID]), pins, w1)
                    else
                      let key = \<lparr>vk_generation = id_Generation identity, vk_windowID = windowID\<rparr> in
                      (case pins key of
                         Some pin \<Rightarrow>
                           (PinTaken windowID geometry key,
                            pins(key \<mapsto> pin\<lparr>vp_references := vp_references pin + 1\<rparr>), w1)
                       | None \<Rightarrow> takePin ve f identity key geometry mode inherited (pins, w1)))))"

definition viewerWindowPinAttempts :: nat where "viewerWindowPinAttempts = 3"

fun pin_rounds ::
    "'w viewerEnv \<Rightarrow> PTYViewerFactory \<Rightarrow> Identity \<Rightarrow> nat \<Rightarrow> pins \<times> 'w
     \<Rightarrow> (gerror + string \<times> ViewerGeometry \<times> viewerWindowKey) \<times> pins \<times> 'w" where
  "pin_rounds ve f identity 0 s = (Inl (Msg ''tmux window state did not stabilize for mirroring''), s)"
| "pin_rounds ve f identity (Suc n) s =
     (case pinRound ve f identity s of
        (Again, s1) \<Rightarrow> pin_rounds ve f identity n s1
      | (PinFailed e, s1) \<Rightarrow> (Inl e, s1)
      | (PinTaken windowID geometry key, s1) \<Rightarrow> (Inr (windowID, geometry, key), s1))"

definition pinWindow ::
    "'w viewerEnv \<Rightarrow> PTYViewerFactory \<Rightarrow> Identity \<Rightarrow> pins \<times> 'w
     \<Rightarrow> (gerror + string \<times> ViewerGeometry \<times> viewerWindowKey) \<times> pins \<times> 'w" where
  "pinWindow ve f identity s = pin_rounds ve f identity viewerWindowPinAttempts s"

section \<open>Releasing\<close>

definition releaseWindow ::
    "'w viewerEnv \<Rightarrow> PTYViewerFactory \<Rightarrow> viewerWindowKey \<Rightarrow> bool \<Rightarrow> pins \<times> 'w \<Rightarrow> gerror option \<times> pins \<times> 'w" where
  "releaseWindow ve f key decrement s =
     (let (pins, w) = s in
      case pins key of
        None \<Rightarrow> (None, pins, w)
      | Some pin \<Rightarrow>
          let pin = (if decrement then pin\<lparr>vp_references := vp_references pin - 1\<rparr> else pin);
              pins = pins(key \<mapsto> pin) in
          if vp_references pin > 0 then (None, pins, w)
          else if \<not> vp_restore pin then (None, pins(key := None), w)
          else (case restoreWindowPin ve f key (vp_originalMode pin) (vp_originalInherited pin) (vp_owner pin) (vp_hookIndex pin) w of
                  (Some e, w1) \<Rightarrow> (Some e, pins, w1)
                | (None, w1) \<Rightarrow> (None, pins(key := None), w1)))"

text \<open>The closure of \<open>releaseWindowFunc\<close>: its key and whether it was called before.\<close>

record releaser =
  rl_key :: viewerWindowKey
  rl_released :: bool

definition releaseWindowFunc :: "viewerWindowKey \<Rightarrow> releaser" where
  "releaseWindowFunc key = \<lparr>rl_key = key, rl_released = False\<rparr>"

definition callReleaser ::
    "'w viewerEnv \<Rightarrow> PTYViewerFactory \<Rightarrow> releaser \<Rightarrow> pins \<times> 'w \<Rightarrow> gerror option \<times> releaser \<times> pins \<times> 'w" where
  "callReleaser ve f r s =
     (let decrement = \<not> rl_released r;
          (e, s1) = releaseWindow ve f (rl_key r) decrement s
      in (e, r\<lparr>rl_released := True\<rparr>, s1))"

text \<open>\<open>Cleanup\<close> goes through the pins in the order in which Go's map iteration gives the keys.\<close>

definition cleanupPin ::
    "'w viewerEnv \<Rightarrow> PTYViewerFactory \<Rightarrow> viewerWindowKey \<Rightarrow> pins \<times> 'w \<Rightarrow> gerror option \<times> pins \<times> 'w" where
  "cleanupPin ve f key s =
     (let (pins, w) = s in
      case pins key of
        None \<Rightarrow> (None, pins, w)
      | Some pin \<Rightarrow>
          if vp_references pin > 0 then (None, pins, w)
          else if \<not> vp_restore pin then (None, pins(key := None), w)
          else (case restoreWindowPin ve f key (vp_originalMode pin) (vp_originalInherited pin) (vp_owner pin) (vp_hookIndex pin) w of
                  (Some e, w1) \<Rightarrow> (Some e, pins, w1)
                | (None, w1) \<Rightarrow> (None, pins(key := None), w1)))"

fun cleanup_loop ::
    "'w viewerEnv \<Rightarrow> PTYViewerFactory \<Rightarrow> viewerWindowKey list \<Rightarrow> gerror option list \<Rightarrow> pins \<times> 'w \<Rightarrow> gerror option list \<times> pins \<times> 'w" where
  "cleanup_loop ve f [] errs s = (errs, s)"
| "cleanup_loop ve f (key # keys) errs s =
     (case cleanupPin ve f key s of 
        (Some e, s1) \<Rightarrow> cleanup_loop ve f keys (errs @ [Some e]) s1
      | (None, s1) \<Rightarrow> cleanup_loop ve f keys errs s1)"

definition Cleanup ::
    "'w viewerEnv \<Rightarrow> PTYViewerFactory \<Rightarrow> viewerWindowKey list \<Rightarrow> pins \<times> 'w \<Rightarrow> gerror option \<times> pins \<times> 'w" where
  "Cleanup ve f order s =
     (case cleanup_loop ve f order [] s of (errs, s1) \<Rightarrow> (errors_join errs, s1))"


section \<open>Every pin can be restored\<close>

definition rand16_ok :: "'w viewerEnv \<Rightarrow> bool" where
  "rand16_ok ve \<longleftrightarrow> (\<forall>w v w'. ve_rand16 ve w = (Inr v, w') \<longrightarrow> length v = 16)"

lemma newViewerWindowPinOwner_valid:
  assumes "rand16_ok ve" and "newViewerWindowPinOwner ve w = (Inr (owner, hookIndex), w')"
  shows "isGeneration owner" and "hookIndex \<noteq> 0"
  using assms hex_encode_generation
  by (auto simp: newViewerWindowPinOwner_def rand16_ok_def Let_def split: prod.splits sum.splits if_splits)

definition pin_ok :: "viewerWindowKey \<Rightarrow> viewerWindowPin \<Rightarrow> bool" where
  "pin_ok key p \<longleftrightarrow> isGeneration (vk_generation key) \<and> isWindowID (vk_windowID key)
     \<and> vp_originalMode p \<in> set window_size_modes \<and> vp_restore p = vp_originalInherited p
     \<and> pin_owner_error (vp_originalInherited p) (vp_owner p) (vp_hookIndex p) = None"

lemma pin_ok_references [simp]: "pin_ok key (p\<lparr>vp_references := n\<rparr>) = pin_ok key p"
  by (simp add: pin_ok_def)

lemma pin_ok_restorable:
  "pin_ok key p \<Longrightarrow> \<exists>args. RestoreWindowSizeIfGenerationArgs (vk_generation key) (vk_windowID key)
     (vp_originalMode p) (vp_originalInherited p) (vp_owner p) (vp_hookIndex p) = Inr args"
  by (simp add: pin_ok_def RestoreWindowSizeIfGenerationArgs_def serverCommandIfGenerationArgs_def Let_def)

definition refs :: "pins \<Rightarrow> viewerWindowKey \<Rightarrow> int" where
  "refs pins k = (case pins k of None \<Rightarrow> 0 | Some p \<Rightarrow> vp_references p)"

lemma refs_upd: "refs (pins(key \<mapsto> p)) k = (if k = key then vp_references p else refs pins k)"
  by (simp add: refs_def)

lemma takePin_effect:
  assumes "takePin ve f identity key geometry mode inherited (pins, w) = (out, pins', w')"
    and "rand16_ok ve" and "isGeneration (vk_generation key)" and "isWindowID (vk_windowID key)"
    and "mode \<in> set window_size_modes"
  shows "case out of
      PinTaken wid g k \<Rightarrow> k = key \<and> wid = vk_windowID key \<and> (\<exists>p. pins' = pins(key \<mapsto> p) \<and> vp_references p = 1 \<and> pin_ok key p)
    | _ \<Rightarrow> pins' = pins"
proof -
  obtain r1 w1 where 1: "(if inherited then newViewerWindowPinOwner ve w else (Inr ([], 0), w)) = (r1, w1)"
    by (rule prod.exhaust)
  show ?thesis
  proof (cases r1)
    case (Inl e)
    then show ?thesis using assms(1) 1 by (auto simp: takePin_def)
  next
    case (Inr oh)
    obtain owner hookIndex where oh: "oh = (owner, hookIndex)" by (rule prod.exhaust)
    have ow: "pin_owner_error inherited owner hookIndex = None"
      using 1 Inr oh newViewerWindowPinOwner_valid [OF assms(2), of w owner hookIndex w1]
      by (auto simp: pin_owner_error_def split: if_splits)
    define P where "P = \<lparr>vp_references = 1, vp_originalMode = mode, vp_originalInherited = inherited,
      vp_restore = inherited, vp_owner = owner, vp_hookIndex = hookIndex\<rparr>"
    have P: "pin_ok key P" "vp_references P = 1" using assms(3-5) ow by (simp_all add: pin_ok_def P_def)
    have "out = PinTaken (vk_windowID key) geometry key \<and> pins' = pins(key \<mapsto> P)
      \<or> (out = Again \<or> (\<exists>e. out = PinFailed e)) \<and> pins' = pins"
      using assms(1) 1 Inr oh
      by (auto simp: takePin_def P_def Let_def split: sum.splits prod.splits option.splits if_splits)
    then show ?thesis using P by auto
  qed
qed

lemma capture_args_generation:
  "CaptureWindowSizeIfGenerationArgs sid generation = Inr args \<Longrightarrow> isGeneration generation"
  by (auto simp: CaptureWindowSizeIfGenerationArgs_def sessionCommandIfGenerationArgs_def
      serverCommandIfGenerationArgs_def Let_def split: if_splits)

definition pins_ok :: "pins \<Rightarrow> bool" where
  "pins_ok pins \<longleftrightarrow> (\<forall>k p. pins k = Some p \<longrightarrow> pin_ok k p)"

lemma pins_ok_upd: "pins_ok pins \<Longrightarrow> pin_ok k p \<Longrightarrow> pins_ok (pins(k \<mapsto> p))"
  by (simp add: pins_ok_def)

lemma pins_ok_del: "pins_ok pins \<Longrightarrow> pins_ok (pins(k := None))"
  by (simp add: pins_ok_def)

text \<open>A round adds one viewer to one pin, or changes no pin.\<close>

definition one_more :: "pins \<Rightarrow> viewerWindowKey \<Rightarrow> pins \<Rightarrow> bool" where
  "one_more pins key pins' \<longleftrightarrow>
     (\<exists>p. pins' = pins(key \<mapsto> p) \<and> vp_references p = refs pins key + 1 \<and> pin_ok key p)"

lemma pinRound_effect:
  assumes "pinRound ve f identity (pins, w) = (out, pins', w')" and "rand16_ok ve" and "pins_ok pins"
  shows "case out of PinTaken wid g key \<Rightarrow> one_more pins key pins' | _ \<Rightarrow> pins' = pins"
proof -
  consider "pins' = pins" "\<And>wid g key. out \<noteq> PinTaken wid g key"
    | args result w1 windowID g mode inherited where
      "CaptureWindowSizeIfGenerationArgs (id_ID identity) (id_Generation identity) = Inr args"
      "runTmux ve f args w = (Inr result, w1)" "parseWindowPin result = Inr (windowID, g, mode, inherited)"
      "\<not> (id_WindowID identity \<noteq> [] \<and> windowID \<noteq> id_WindowID identity)"
    using assms(1) by (auto simp: pinRound_def split: sum.splits prod.splits if_splits)
  then show ?thesis
  proof cases
    case 1
    then show ?thesis by (cases out) auto
  next
    case 2
    define key where "key = \<lparr>vk_generation = id_Generation identity, vk_windowID = windowID\<rparr>"
    note u = parseWindowPinUnchecked_result [OF parseWindowPin_result(1) [OF 2(3)]]
    show ?thesis
    proof (cases "pins key")
      case (Some pin)
      then have "out = PinTaken windowID g key" "pins' = pins(key \<mapsto> pin\<lparr>vp_references := vp_references pin + 1\<rparr>)"
        using assms(1) 2 by (auto simp: pinRound_def key_def Let_def)
      moreover have "pin_ok key pin" using Some assms(3) by (simp add: pins_ok_def)
      ultimately show ?thesis using Some by (auto simp: one_more_def refs_def)
    next
      case None
      then have t: "takePin ve f identity key g mode inherited (pins, w1) = (out, pins', w')"
        using assms(1) 2 by (auto simp: pinRound_def key_def Let_def)
      have "isGeneration (vk_generation key)" "isWindowID (vk_windowID key)"
        using capture_args_generation [OF 2(1)] u(1) by (simp_all add: key_def)
      from takePin_effect [OF t assms(2) this u(2)] show ?thesis
        using None by (auto simp: one_more_def refs_def split: pinOutcome.splits)
    qed
  qed
qed

lemma pin_rounds_effect:
  "pin_rounds ve f identity n (pins, w) = (out, pins', w') \<Longrightarrow> rand16_ok ve \<Longrightarrow> pins_ok pins \<Longrightarrow>
   case out of Inr (wid, g, key) \<Rightarrow> one_more pins key pins' | Inl _ \<Rightarrow> pins' = pins"
proof (induction n arbitrary: w)
  case (Suc n)
  obtain o1 p1 w1 where 1: "pinRound ve f identity (pins, w) = (o1, p1, w1)" by (rule prod_cases3)
  note e = pinRound_effect [OF 1 Suc.prems(2,3)]
  show ?case
  proof (cases o1)
    case Again
    then show ?thesis using Suc.IH [of w1] Suc.prems 1 e by simp
  qed (use Suc.prems 1 e in auto)
qed auto


section \<open>Viewers of a pin\<close>

text \<open>A factory together with the release functions that it has handed out.\<close>

record 'w pinSystem =
  ps_pins :: pins
  ps_releasers :: "releaser list"
  ps_world :: 'w

inductive pin_step :: "'w viewerEnv \<Rightarrow> PTYViewerFactory \<Rightarrow> 'w pinSystem \<Rightarrow> 'w pinSystem \<Rightarrow> bool"
  for ve :: "'w viewerEnv" and f :: PTYViewerFactory where
  step_pinned: "pinWindow ve f identity (ps_pins s, ps_world s) = (Inr (windowID, geometry, key), pins', w') \<Longrightarrow>
    pin_step ve f s \<lparr>ps_pins = pins', ps_releasers = ps_releasers s @ [releaseWindowFunc key], ps_world = w'\<rparr>"
| step_pin_failed: "pinWindow ve f identity (ps_pins s, ps_world s) = (Inl e, pins', w') \<Longrightarrow>
    pin_step ve f s (s\<lparr>ps_pins := pins', ps_world := w'\<rparr>)"
| step_release: "i < length (ps_releasers s) \<Longrightarrow>
    callReleaser ve f (ps_releasers s ! i) (ps_pins s, ps_world s) = (e, r', pins', w') \<Longrightarrow>
    pin_step ve f s \<lparr>ps_pins = pins', ps_releasers = (ps_releasers s)[i := r'], ps_world = w'\<rparr>"
| step_cleanup: "cleanupPin ve f key (ps_pins s, ps_world s) = (e, pins', w') \<Longrightarrow>
    pin_step ve f s (s\<lparr>ps_pins := pins', ps_world := w'\<rparr>)"

definition no_pins :: "'w pinSystem \<Rightarrow> bool" where
  "no_pins s \<longleftrightarrow> ps_pins s = Map.empty \<and> ps_releasers s = []"

text \<open>The viewers that still hold the pin of a window.\<close>

definition holders :: "releaser list \<Rightarrow> viewerWindowKey \<Rightarrow> nat" where
  "holders rs k = length (filter (\<lambda>r. rl_key r = k \<and> \<not> rl_released r) rs)"

definition pins_inv :: "'w pinSystem \<Rightarrow> bool" where
  "pins_inv s \<longleftrightarrow> (\<forall>k. refs (ps_pins s) k = int (holders (ps_releasers s) k)) \<and> pins_ok (ps_pins s)"

lemma cleanupPin_release: "cleanupPin ve f key s = releaseWindow ve f key False s"
  by (auto simp: cleanupPin_def releaseWindow_def fun_upd_idem Let_def split: prod.splits option.splits)

lemma releaseWindow_effect:
  assumes "releaseWindow ve f key dec (pins, w) = (e, pins', w')" and "pins_ok pins"
    and "refs pins key \<ge> (if dec then 1 else 0)"
  shows "pins_ok pins'" and "refs pins' k = (if dec \<and> k = key then refs pins k - 1 else refs pins k)"
    and "pins k = Some p \<Longrightarrow> pins' k = None \<Longrightarrow> k = key \<and> refs pins' k = 0 \<and> (vp_originalInherited p \<longrightarrow>
      restoreWindowPin ve f k (vp_originalMode p) (vp_originalInherited p) (vp_owner p) (vp_hookIndex p) w = (None, w'))"
proof -
  have "pins_ok pins' \<and> refs pins' k = (if dec \<and> k = key then refs pins k - 1 else refs pins k) \<and>
    (\<forall>p. pins k = Some p \<longrightarrow> pins' k = None \<longrightarrow> k = key \<and> refs pins' k = 0 \<and> (vp_originalInherited p \<longrightarrow>
      restoreWindowPin ve f k (vp_originalMode p) (vp_originalInherited p) (vp_owner p) (vp_hookIndex p) w = (None, w')))"
  proof (cases "pins key")
    case None
    then show ?thesis using assms by (auto simp: releaseWindow_def refs_def)
  next
    case (Some q)
    define q' where "q' = (if dec then q\<lparr>vp_references := vp_references q - 1\<rparr> else q)"
    have q: "vp_originalMode q' = vp_originalMode q" "vp_originalInherited q' = vp_originalInherited q" "vp_owner q' = vp_owner q"
      "vp_hookIndex q' = vp_hookIndex q" "vp_restore q' = vp_restore q" "vp_references q' = refs pins key - (if dec then 1 else 0)"
      "vp_references q' \<ge> 0"
      using assms(3) Some by (auto simp: q'_def refs_def)
    have ok: "pin_ok key q" "pin_ok key q'" using assms(2) Some by (auto simp: pins_ok_def q'_def)
    then have r: "vp_restore q = vp_originalInherited q" by (simp add: pin_ok_def)
    have rel: "(if vp_references q' > 0 then (None, pins(key \<mapsto> q'), w)
      else if \<not> vp_restore q' then (None, pins(key \<mapsto> q', key := None), w)
      else (case restoreWindowPin ve f key (vp_originalMode q') (vp_originalInherited q') (vp_owner q') (vp_hookIndex q') w of
              (Some e, w1) \<Rightarrow> (Some e, pins(key \<mapsto> q'), w1) | (None, w1) \<Rightarrow> (None, pins(key \<mapsto> q', key := None), w1))) = (e, pins', w')"
      using assms(1) Some by (simp add: releaseWindow_def q'_def [symmetric] Let_def)
    show ?thesis
      using rel q ok r Some assms(2) pins_ok_upd [OF assms(2) ok(2)] pins_ok_del [OF assms(2), of key]
      by (auto simp: refs_def split: if_splits prod.splits option.splits)
  qed
  then show "pins_ok pins'" "refs pins' k = (if dec \<and> k = key then refs pins k - 1 else refs pins k)"
    "pins k = Some p \<Longrightarrow> pins' k = None \<Longrightarrow> k = key \<and> refs pins' k = 0 \<and> (vp_originalInherited p \<longrightarrow>
      restoreWindowPin ve f k (vp_originalMode p) (vp_originalInherited p) (vp_owner p) (vp_hookIndex p) w = (None, w'))"
    by blast+
qed

lemma holders_snoc: "holders (rs @ [releaseWindowFunc key]) k = holders rs k + (if k = key then 1 else 0)"
  by (simp add: holders_def releaseWindowFunc_def)

lemma holders_released:
  assumes "i < length rs"
  shows "holders (rs[i := (rs ! i)\<lparr>rl_released := True\<rparr>]) k =
    holders rs k - (if k = rl_key (rs ! i) \<and> \<not> rl_released (rs ! i) then 1 else 0)"
    and "\<not> rl_released (rs ! i) \<Longrightarrow> holders rs (rl_key (rs ! i)) \<ge> 1"
proof -
  let ?P = "\<lambda>k r. rl_key r = k \<and> \<not> rl_released r"
  have rs: "rs = take i rs @ rs ! i # drop (Suc i) rs" using assms by (rule id_take_nth_drop)
  have h: "holders rs k = length (filter (?P k) (take i rs)) + (if ?P k (rs ! i) then 1 else 0)
      + length (filter (?P k) (drop (Suc i) rs))" for k
    unfolding holders_def by (subst rs) simp
  have "holders (rs[i := (rs ! i)\<lparr>rl_released := True\<rparr>]) k =
      length (filter (?P k) (take i rs)) + length (filter (?P k) (drop (Suc i) rs))"
    using assms by (simp add: holders_def upd_conv_take_nth_drop)
  then show "holders (rs[i := (rs ! i)\<lparr>rl_released := True\<rparr>]) k =
    holders rs k - (if k = rl_key (rs ! i) \<and> \<not> rl_released (rs ! i) then 1 else 0)"
    using h [of k] by auto
  show "\<not> rl_released (rs ! i) \<Longrightarrow> holders rs (rl_key (rs ! i)) \<ge> 1" using h by simp
qed

lemma one_more_refs: "one_more pins key pins' \<Longrightarrow> refs pins' k = refs pins k + (if k = key then 1 else 0)"
  by (auto simp: one_more_def refs_upd)

lemma one_more_ok: "one_more pins key pins' \<Longrightarrow> pins_ok pins \<Longrightarrow> pins_ok pins'"
  by (auto simp: one_more_def intro: pins_ok_upd)

lemma release_step_premise:
  assumes "pins_inv s" "i < length (ps_releasers s)"
  shows "refs (ps_pins s) (rl_key (ps_releasers s ! i)) \<ge> (if \<not> rl_released (ps_releasers s ! i) then 1 else 0)"
  using assms holders_released(2) [OF assms(2)] by (auto simp: pins_inv_def)

lemma pins_inv_step:
  assumes "pins_inv s" and "pin_step ve f s t" and "rand16_ok ve"
  shows "pins_inv t"
  using assms(2)
proof cases
  case (step_pinned identity windowID geometry key pins' w')
  have m: "one_more (ps_pins s) key pins'"
    using pin_rounds_effect [OF step_pinned(2) [unfolded pinWindow_def] assms(3)] assms(1) by (simp add: pins_inv_def)
  show ?thesis
    using assms(1) one_more_ok [OF m] by (simp add: pins_inv_def step_pinned(1) one_more_refs [OF m] holders_snoc)
next
  case (step_pin_failed identity e pins' w')
  have "pins' = ps_pins s"
    using pin_rounds_effect [OF step_pin_failed(2) [unfolded pinWindow_def] assms(3)] assms(1) by (simp add: pins_inv_def)
  then show ?thesis using assms(1) by (simp add: pins_inv_def step_pin_failed(1))
next
  case (step_release i e r' pins' w')
  let ?r = "ps_releasers s ! i"
  have r: "releaseWindow ve f (rl_key ?r) (\<not> rl_released ?r) (ps_pins s, ps_world s) = (e, pins', w')"
    "r' = ?r\<lparr>rl_released := True\<rparr>"
    using step_release(3) by (auto simp: callReleaser_def Let_def split: prod.splits)
  have ok: "pins_ok (ps_pins s)" using assms(1) by (simp add: pins_inv_def)
  note eff = releaseWindow_effect [OF r(1) ok release_step_premise [OF assms(1) step_release(2)]]
  show ?thesis
    using assms(1) eff(1) holders_released(2) [OF step_release(2)]
    by (auto simp: pins_inv_def step_release(1) r(2) eff(2) holders_released(1) [OF step_release(2)])
next
  case (step_cleanup key e pins' w')
  have ok: "pins_ok (ps_pins s)" "refs (ps_pins s) key \<ge> (if False then 1 else 0)"
    using assms(1) by (simp_all add: pins_inv_def)
  note eff = releaseWindow_effect [OF step_cleanup(2) [unfolded cleanupPin_release] ok]
  show ?thesis using assms(1) eff(1) by (simp add: pins_inv_def step_cleanup(1) eff(2))
qed

lemma no_pins_inv: "no_pins s \<Longrightarrow> pins_inv s"
  by (simp add: no_pins_def pins_inv_def refs_def holders_def pins_ok_def)

interpretation pins: invariant_system no_pins "pin_step ve f" "\<lambda>s. rand16_ok ve \<longrightarrow> pins_inv s" for ve f
  by unfold_locales (auto intro: no_pins_inv pins_inv_step)

lemma reachable_pins_inv: "reachable no_pins (pin_step ve f) s \<Longrightarrow> rand16_ok ve \<Longrightarrow> pins_inv s"
  using pins.reachable_inv by blast

text \<open>C8: In every reachable state the count of a pin is the number of its viewers that have not released it
  (so it is never negative and a window without a pin has no viewer), and every pin holds values with
  which the restore command can be built.\<close>

theorem pin_references_count_viewers:
  assumes "rand16_ok ve" and "reachable no_pins (pin_step ve f) s"
  shows "(\<forall>k. refs (ps_pins s) k = int (holders (ps_releasers s) k))
    \<and> (\<forall>k p. ps_pins s k = Some p \<longrightarrow>
        (\<exists>args. RestoreWindowSizeIfGenerationArgs (vk_generation k) (vk_windowID k) (vp_originalMode p)
           (vp_originalInherited p) (vp_owner p) (vp_hookIndex p) = Inr args))"
  using reachable_pins_inv [OF assms(2,1)] pin_ok_restorable by (auto simp: pins_inv_def pins_ok_def)

text \<open>A pin leaves the factory only when its last viewer has released it, and a pin that changed the window
  only in a step in which the restore of exactly this pin succeeded.\<close>

theorem pin_dropped_only_when_restored:
  assumes "rand16_ok ve" and "reachable no_pins (pin_step ve f) s" and "pin_step ve f s t"
    and "ps_pins s k = Some p" and "ps_pins t k = None"
  shows "holders (ps_releasers t) k = 0
    \<and> (vp_originalInherited p \<longrightarrow>
        restoreWindowPin ve f k (vp_originalMode p) (vp_originalInherited p) (vp_owner p) (vp_hookIndex p) (ps_world s)
        = (None, ps_world t))"
proof -
  have i: "pins_inv s" "pins_inv t"
    using reachable_pins_inv [OF assms(2,1)] pins_inv_step [OF _ assms(3,1)] by blast+
  then have ok: "pins_ok (ps_pins s)" and "refs (ps_pins t) k = int (holders (ps_releasers t) k)"
    by (simp_all add: pins_inv_def)
  then have h: "holders (ps_releasers t) k = 0" using assms(5) by (simp add: refs_def)
  from assms(3) have "vp_originalInherited p \<longrightarrow>
     restoreWindowPin ve f k (vp_originalMode p) (vp_originalInherited p) (vp_owner p) (vp_hookIndex p) (ps_world s)
        = (None, ps_world t)"
  proof cases
    case (step_pinned identity windowID geometry key pins' w')
    have "one_more (ps_pins s) key pins'"
      using pin_rounds_effect [OF step_pinned(2) [unfolded pinWindow_def] assms(1) ok] by simp
    with assms(4,5) step_pinned(1) show ?thesis by (auto simp: one_more_def split: if_splits)
  next
    case (step_pin_failed identity e pins' w')
    have "pins' = ps_pins s"
      using pin_rounds_effect [OF step_pin_failed(2) [unfolded pinWindow_def] assms(1) ok] by simp
    with assms(4,5) step_pin_failed(1) show ?thesis by simp
  next
    case (step_release i e r' pins' w')
    have "releaseWindow ve f (rl_key (ps_releasers s ! i)) (\<not> rl_released (ps_releasers s ! i)) (ps_pins s, ps_world s) = (e, pins', w')"
      using step_release(3) by (auto simp: callReleaser_def Let_def split: prod.splits)
    from releaseWindow_effect(3) [OF this ok release_step_premise [OF i(1) step_release(2)] assms(4)] show ?thesis
      using assms(5) step_release(1) by auto
  next
    case (step_cleanup key e pins' w')
    have "refs (ps_pins s) key \<ge> (if False then 1 else 0)" using i(1) by (simp add: pins_inv_def)
    from releaseWindow_effect(3) [OF step_cleanup(2) [unfolded cleanupPin_release] ok this assms(4)] show ?thesis
      using assms(5) step_cleanup(1) by auto
  qed
  with h show ?thesis by simp
qed

text \<open>\<open>Cleanup\<close> is a sequence of the steps above.\<close>

lemma cleanup_loop_steps:
  "cleanup_loop ve f order errs (ps_pins s, ps_world s) = (errs', pins', w') \<Longrightarrow>
   (pin_step ve f)\<^sup>*\<^sup>* s (s\<lparr>ps_pins := pins', ps_world := w'\<rparr>)"
proof (induction order arbitrary: errs s)
  case (Cons key order)
  obtain e p1 w1 where 1: "cleanupPin ve f key (ps_pins s, ps_world s) = (e, p1, w1)" by (rule prod_cases3)
  define s1 where "s1 = s\<lparr>ps_pins := p1, ps_world := w1\<rparr>"
  have "pin_step ve f s s1" unfolding s1_def by (rule step_cleanup [OF 1])
  moreover have "(pin_step ve f)\<^sup>*\<^sup>* s1 (s1\<lparr>ps_pins := pins', ps_world := w'\<rparr>)"
    using Cons.prems 1 by (cases e) (auto simp: s1_def intro: Cons.IH [where s = s1, unfolded s1_def, simplified])
  ultimately show ?case by (simp add: s1_def converse_rtranclp_into_rtranclp)
next
  case Nil
  then have "s\<lparr>ps_pins := pins', ps_world := w'\<rparr> = s" by (cases s) simp
  then show ?case by simp
qed

definition tmux_answers :: "'w viewerEnv \<Rightarrow> PTYViewerFactory \<Rightarrow> bool" where
  "tmux_answers ve f \<longleftrightarrow> (\<forall>args w. \<exists>out w'. runTmux ve f args w = (Inr out, w'))"

lemma restoreWindowPin_answered:
  assumes "tmux_answers ve f" and "pin_ok key p"
  shows "\<exists>w'. restoreWindowPin ve f key (vp_originalMode p) (vp_originalInherited p) (vp_owner p) (vp_hookIndex p) w = (None, w')"
proof -
  obtain args where a: "RestoreWindowSizeIfGenerationArgs (vk_generation key) (vk_windowID key) (vp_originalMode p)
      (vp_originalInherited p) (vp_owner p) (vp_hookIndex p) = Inr args"
    using pin_ok_restorable [OF assms(2)] by blast
  obtain out w' where "runTmux ve f args w = (Inr out, w')" using assms(1) unfolding tmux_answers_def by blast
  with a show ?thesis by (simp add: restoreWindowPin_def)
qed

lemma cleanup_loop_empties:
  "tmux_answers ve f \<Longrightarrow> pins_ok pins \<Longrightarrow> (\<forall>k. refs pins k = 0) \<Longrightarrow>
   \<exists>pins' w'. cleanup_loop ve f order errs (pins, w) = (errs, pins', w') \<and> (\<forall>k. pins' k = (if k \<in> set order then None else pins k))"
proof (induction order arbitrary: pins w)
  case (Cons key order)
  have "\<exists>w1. cleanupPin ve f key (pins, w) = (None, pins(key := None), w1)"
  proof (cases "pins key")
    case None
    then show ?thesis by (simp add: cleanupPin_def fun_upd_idem)
  next
    case (Some p)
    then have "pin_ok key p" "vp_references p = 0"
      using Cons.prems(2,3) by (auto simp: pins_ok_def refs_def split: option.splits)
    then show ?thesis
      using restoreWindowPin_answered [OF Cons.prems(1), of key p w] Some by (auto simp: cleanupPin_def)
  qed
  then obtain w1 where 1: "cleanupPin ve f key (pins, w) = (None, pins(key := None), w1)" by blast
  have "pins_ok (pins(key := None))" "\<forall>k. refs (pins(key := None)) k = 0"
    using Cons.prems(2,3) by (auto simp: pins_ok_del) (simp add: refs_def)
  from Cons.IH [OF Cons.prems(1) this, of w1] obtain pins' w' where
    "cleanup_loop ve f order errs (pins(key := None), w1) = (errs, pins', w')"
    "\<forall>k. pins' k = (if k \<in> set order then None else (pins(key := None)) k)"
    by blast
  then show ?case using 1 by simp
qed simp

lemma Cleanup_reachable:
  assumes "reachable no_pins (pin_step ve f) s" and "Cleanup ve f order (ps_pins s, ps_world s) = (e, pins', w')"
  shows "reachable no_pins (pin_step ve f) (s\<lparr>ps_pins := pins', ps_world := w'\<rparr>)"
proof -
  have "reachable no_pins (pin_step ve f) t" if "(pin_step ve f)\<^sup>*\<^sup>* s t" for t
    using that by (induction rule: rtranclp_induct) (auto intro: assms(1) reach_step)
  with assms(2) show ?thesis by (auto simp: Cleanup_def split: prod.splits dest!: cleanup_loop_steps)
qed


section \<open>A viewer, a failed restore and a cleanup\<close>

text \<open>tmux answers the capture and the pin, fails once, and answers from then on.\<close>

definition demo_output :: "nat \<Rightarrow> string \<times> gerror option" where
  "demo_output n =
     (if n = 0 then (capture_output ''@7'' 80 24 True ''latest'' ''on'', None)
      else if n = 2 then ([], Some (Ext ''signal: killed'')) else ([], None))"

definition demo_ve :: "nat viewerEnv" where
  "demo_ve = \<lparr>ve_LookPath = Inr ''/usr/bin/tmux'', ve_Environ = [], ve_CombinedOutput = (\<lambda>p a e n. (demo_output n, Suc n)),
     ve_rand16 = (\<lambda>n. (Inr (replicate 16 CHR ''b''), n))\<rparr>"

definition calm_ve :: "nat viewerEnv" where
  "calm_ve = demo_ve\<lparr>ve_CombinedOutput := (\<lambda>p a e n. (([], None), Suc n))\<rparr>"

definition demo_pf :: PTYViewerFactory where
  "demo_pf = \<lparr>pf_SessionSocket = [], pf_Endpoint = \<lparr>ep_SocketName = [], ep_SocketPath = ''/tmp/tmux''\<rparr>,
     pf_TmuxPath = [], pf_Environment = None\<rparr>"

definition demo_identity :: Identity where
  "demo_identity = \<lparr>id_ID = ''$0'', id_WindowID = ''@7'', id_Generation = replicate 32 CHR ''a''\<rparr>"

definition demo_key :: viewerWindowKey where
  "demo_key = \<lparr>vk_generation = replicate 32 CHR ''a'', vk_windowID = ''@7''\<rparr>"

definition demo_pin :: "int \<Rightarrow> viewerWindowPin" where
  "demo_pin n = \<lparr>vp_references = n, vp_originalMode = ''latest'', vp_originalInherited = True, vp_restore = True,
     vp_owner = hex_encode (replicate 16 CHR ''b''), vp_hookIndex = 0x62626262\<rparr>"

lemma demo_rand: "rand16_ok demo_ve"
  by (auto simp: rand16_ok_def demo_ve_def)

lemma demo_generations: "isGeneration (replicate 32 CHR ''a'')" "isGeneration (hex_encode (replicate 16 CHR ''b''))"
  "isWindowID ''@7''" "isSessionID ''$0''" "valid_status ''on''" "status_rows ''on'' = 1"
  using hex_encode_generation [of "replicate 16 CHR ''b''"]
  by (auto simp: isWindowID_def isSessionID_def numbered_digits is_digit_def valid_status_def status_rows_def
      isGeneration_def [of "replicate _ _"] runes_of_ascii rune_between_def list_all_iff)

lemma TrimSpace_Nil: "TrimSpace [] = []"
  by (rule TrimSpace_id)
     (auto simp: leading_space_def trailing_space_def find_None_iff space_encodings_def HasPrefix_def HasSuffix_def
       dest!: sym [of "[]"])

lemma demo_settings:
  "commandSettings ve demo_pf = (case ve_LookPath ve of Inl e \<Rightarrow> Inl (Wrapf ''tmux not found in PATH: '' e)
     | Inr p \<Rightarrow> Inr (p, \<lparr>ep_SocketName = [], ep_SocketPath = ''/tmp/tmux''\<rparr>))"
  by (simp add: commandSettings_def demo_pf_def Endpoint_Args_def IsAbs_def HasPrefix_def split: sum.splits)

lemma quiet_output: "\<not> IsGenerationMismatchOutput []" "\<not> IsWindowPinMismatchOutput []"
  by (simp_all add: IsGenerationMismatchOutput_def IsWindowPinMismatchOutput_def TrimSpace_Nil
      generationMismatchMessage_def windowPinMismatchMessage_def)

lemma runTmux_calm: "runTmux calm_ve demo_pf args w = (Inr [], Suc w)"
  by (simp add: runTmux_def demo_settings calm_ve_def demo_ve_def Endpoint_Args_def IsAbs_def HasPrefix_def quiet_output)

lemma runTmux_demo:
  "runTmux demo_ve demo_pf args w =
     (if w = 2 then Inl (Wrapf '': '' (Ext ''signal: killed''))
      else if w = 0 then Inr (capture_output ''@7'' 80 24 True ''latest'' ''on'') else Inr [], Suc w)"
proof -
  define c where "c = butlast (capture_output ''@7'' 80 24 True ''latest'' ''on'')"
  have c: "capture_output ''@7'' 80 24 True ''latest'' ''on'' = c @ [newline]" "c \<noteq> []" "hd c = CHR ''@''" "last c = CHR ''n''"
    by (simp_all add: c_def capture_output_def butlast_append)
  then have "TrimSpace (capture_output ''@7'' 80 24 True ''latest'' ''on'') = c"
    using TrimSpace_line(1) [of c] by (simp add: plain_char_def)
  with c(3) have "TrimSpace (capture_output ''@7'' 80 24 True ''latest'' ''on'') \<noteq> generationMismatchMessage"
    by (auto simp: generationMismatchMessage_def)
  then show ?thesis
    by (simp add: runTmux_def demo_settings demo_ve_def Endpoint_Args_def IsAbs_def HasPrefix_def quiet_output
        demo_output_def TrimSpace_Nil IsGenerationMismatchOutput_def [of "capture_output _ _ _ _ _ _"])
qed

lemma demo_captured:
  "parseWindowPin (capture_output ''@7'' 80 24 True ''latest'' ''on'') = Inr (''@7'', demo_geometry, ''latest'', True)"
  using parse_captured [of "''@7''" "''latest''" "''on''" 80 24 True] demo_generations
  by (simp add: window_size_modes_def demo_geometry_def)

lemma demo_capture_args: "\<exists>args. CaptureWindowSizeIfGenerationArgs ''$0'' (replicate 32 CHR ''a'') = Inr args"
  using demo_generations
  by (simp add: CaptureWindowSizeIfGenerationArgs_def sessionCommandIfGenerationArgs_def serverCommandIfGenerationArgs_def Let_def)

lemma demo_owner: "newViewerWindowPinOwner demo_ve w = (Inr (hex_encode (replicate 16 CHR ''b''), 0x62626262), w)"
proof -
  have "take 4 (replicate 16 CHR ''b'') = ''bbbb''" by (simp add: numeral_eq_Suc)
  moreover have "big_endian32 ''bbbb'' = 0x62626262" by (simp add: big_endian32_def)
  ultimately show ?thesis by (simp add: newViewerWindowPinOwner_def demo_ve_def Let_def del: take_replicate)
qed

lemma demo_pin_args:
  "\<exists>args. PinWindowSizeIfGenerationArgs ''$0'' (replicate 32 CHR ''a'') ''@7'' 80 24 ''latest'' True ''on''
     (hex_encode (replicate 16 CHR ''b'')) 0x62626262 = Inr args"
  using demo_generations by (simp add: PinWindowSizeIfGenerationArgs_def window_size_modes_def pin_owner_error_def)

lemma demo_pinned:
  "pinWindow demo_ve demo_pf demo_identity (Map.empty, 0) =
     (Inr (''@7'', demo_geometry, demo_key), [demo_key \<mapsto> demo_pin 1], 2)"
proof -
  obtain ca where ca: "CaptureWindowSizeIfGenerationArgs ''$0'' (replicate 32 CHR ''a'') = Inr ca" using demo_capture_args by blast
  obtain pa where pa: "PinWindowSizeIfGenerationArgs ''$0'' (replicate 32 CHR ''a'') ''@7'' 80 24 ''latest'' True ''on''
     (hex_encode (replicate 16 CHR ''b'')) 0x62626262 = Inr pa" using demo_pin_args by blast
  have t: "takePin demo_ve demo_pf demo_identity demo_key demo_geometry ''latest'' True (Map.empty, 1) =
     (PinTaken ''@7'' demo_geometry demo_key, [demo_key \<mapsto> demo_pin 1], 2)"
    using pa by (simp add: takePin_def demo_owner demo_identity_def demo_key_def demo_geometry_def runTmux_demo quiet_output
        TrimSpace_Nil demo_pin_def Let_def)
  then show ?thesis
    using ca by (simp add: pinWindow_def viewerWindowPinAttempts_def numeral_3_eq_3 pinRound_def demo_identity_def
        runTmux_demo demo_captured demo_key_def [symmetric])
qed

lemma demo_pin_ok: "pin_ok demo_key (demo_pin n)"
  using demo_generations by (simp add: pin_ok_def demo_key_def demo_pin_def window_size_modes_def pin_owner_error_def)

lemma demo_restore:
  "restoreWindowPin demo_ve demo_pf demo_key (vp_originalMode (demo_pin n)) (vp_originalInherited (demo_pin n))
     (vp_owner (demo_pin n)) (vp_hookIndex (demo_pin n)) w =
   (if w = 2 then Some (Wrapf ''restore mirrored tmux window size: '' (Wrapf '': '' (Ext ''signal: killed''))) else None, Suc w)"
proof -
  have "\<not> IsMissingTargetError (Some (Wrapf '': '' (Ext ''signal: killed'')))" by code_simp
  moreover have "\<not> Contains (ToLower '': signal: killed'') ''server exited unexpectedly''" by code_simp
  moreover obtain args where "RestoreWindowSizeIfGenerationArgs (vk_generation demo_key) (vk_windowID demo_key)
     (vp_originalMode (demo_pin n)) (vp_originalInherited (demo_pin n)) (vp_owner (demo_pin n)) (vp_hookIndex (demo_pin n)) = Inr args"
    using pin_ok_restorable [OF demo_pin_ok] by blast
  ultimately show ?thesis by (simp add: restoreWindowPin_def runTmux_demo)
qed

definition demo_held :: "nat pinSystem" where
  "demo_held = \<lparr>ps_pins = [demo_key \<mapsto> demo_pin 1], ps_releasers = [releaseWindowFunc demo_key], ps_world = 2\<rparr>"

definition demo_owed :: "nat pinSystem" where
  "demo_owed = \<lparr>ps_pins = [demo_key \<mapsto> demo_pin 0], ps_releasers = [\<lparr>rl_key = demo_key, rl_released = True\<rparr>], ps_world = 3\<rparr>"

definition demo_restored :: "nat pinSystem" where
  "demo_restored = \<lparr>ps_pins = Map.empty, ps_releasers = [\<lparr>rl_key = demo_key, rl_released = True\<rparr>], ps_world = 4\<rparr>"

lemma demo_pin_fields [simp]: "vp_references (demo_pin n) = n" "vp_restore (demo_pin n)" "vp_originalInherited (demo_pin n)"
  "(demo_pin n)\<lparr>vp_references := m\<rparr> = demo_pin m"
  by (simp_all add: demo_pin_def)

lemma demo_held_reachable: "reachable no_pins (pin_step demo_ve demo_pf) demo_held"
proof -
  define s0 :: "nat pinSystem" where "s0 = \<lparr>ps_pins = Map.empty, ps_releasers = [], ps_world = 0\<rparr>"
  have "reachable no_pins (pin_step demo_ve demo_pf) s0" by (rule reach_init) (simp add: s0_def no_pins_def)
  moreover have "pin_step demo_ve demo_pf s0 demo_held"
    using step_pinned [of demo_ve demo_pf demo_identity s0 "''@7''" demo_geometry demo_key] demo_pinned
    by (simp add: s0_def demo_held_def)
  ultimately show ?thesis by (rule reach_step)
qed

lemma demo_owed_reachable: "reachable no_pins (pin_step demo_ve demo_pf) demo_owed"
proof (rule reach_step [OF demo_held_reachable])
  have "callReleaser demo_ve demo_pf (releaseWindowFunc demo_key) ([demo_key \<mapsto> demo_pin 1], 2) =
    (Some (Wrapf ''restore mirrored tmux window size: '' (Wrapf '': '' (Ext ''signal: killed''))),
     \<lparr>rl_key = demo_key, rl_released = True\<rparr>, [demo_key \<mapsto> demo_pin 0], 3)"
    using demo_restore [of 0 2] by (simp add: callReleaser_def releaseWindowFunc_def releaseWindow_def)
  then show "pin_step demo_ve demo_pf demo_held demo_owed"
    using step_release [of 0 demo_held demo_ve demo_pf] by (simp add: demo_held_def demo_owed_def)
qed

lemma demo_owed_step: "pin_step demo_ve demo_pf demo_owed demo_restored"
proof -
  have "cleanupPin demo_ve demo_pf demo_key ([demo_key \<mapsto> demo_pin 0], 3) = (None, Map.empty, 4)"
    using demo_restore [of 0 3] by (simp add: cleanupPin_def)
  then show ?thesis
    using step_cleanup [of demo_ve demo_pf demo_key demo_owed] by (simp add: demo_owed_def demo_restored_def)
qed

theorem pin_references_count_viewers_witness:
  "refs (ps_pins demo_held) demo_key = 1 \<and> holders (ps_releasers demo_held) demo_key = 1"
  using pin_references_count_viewers [OF demo_rand demo_held_reachable]
  by (auto simp: demo_held_def refs_def dest: spec [of _ demo_key])

theorem pin_dropped_only_when_restored_witness:
  "holders (ps_releasers demo_restored) demo_key = 0
   \<and> restoreWindowPin demo_ve demo_pf demo_key (vp_originalMode (demo_pin 0)) True (vp_owner (demo_pin 0)) (vp_hookIndex (demo_pin 0)) 3
     = (None, 4)"
  using pin_dropped_only_when_restored [OF demo_rand demo_owed_reachable demo_owed_step, of demo_key "demo_pin 0"]
  by (simp add: demo_owed_def demo_restored_def)


end
