(* ===== verification/Viewer_Process.thy ===== *)
theory Viewer_Process
  imports Viewer_Pins
begin

text \<open>
  Preparing, starting and running a viewer, third part of \<open>internal/mirror/viewer.go\<close>: the tmux client
  in a pseudo terminal, the check of its geometry before it is handed out, and the goroutines of a
  started viewer (the one that copies output and reaps the process, and everyone who may terminate it)
  as a step relation. Processes and pseudo terminals are parameters.
\<close>

section \<open>Processes and terminals\<close>

text \<open>
  One tmux client in its terminal: starting it (the process id, \<open>None\<close> when there is no process),
  resizing the terminal, killing, closing and waiting, the pause between two looks (an error when the
  context ended), the diagnostics, and what the errors of these operations are (\<open>errors.Is\<close> of
  \<open>os.ErrProcessDone\<close>, of \<open>os.ErrClosed\<close>, of \<open>io.EOF\<close> and \<open>syscall.EIO\<close>, \<open>errors.As\<close> of \<open>*exec.ExitError\<close>).
\<close>

record command =
  cmd_Path :: string
  cmd_Args :: "string list"
  cmd_Env :: "string list"

record 'w processEnv =
  pe_StartWithSize :: "command \<Rightarrow> 16 word \<Rightarrow> 16 word \<Rightarrow> ('w, int option) io"
  pe_Setsize :: "16 word \<Rightarrow> 16 word \<Rightarrow> ('w, unit) io"
  pe_Kill :: "'w \<Rightarrow> gerror option \<times> 'w"
  pe_ClosePTY :: "'w \<Rightarrow> gerror option \<times> 'w"
  pe_Wait :: "'w \<Rightarrow> gerror option \<times> 'w"
  pe_poll :: "('w, unit) io"
  pe_record :: "DiagnosticRecord \<Rightarrow> 'w \<Rightarrow> 'w"
  pe_isProcessDone :: "gerror \<Rightarrow> bool"
  pe_isClosed :: "gerror \<Rightarrow> bool"
  pe_isEOF :: "gerror \<Rightarrow> bool"
  pe_isEIO :: "gerror \<Rightarrow> bool"
  pe_isExit :: "gerror \<Rightarrow> bool"

section \<open>The operations of the geometry check\<close>

definition client_format :: string where
  "client_format = JoinStr [''#{client_name}'', ''#{client_pid}'', ''#{client_width}'', ''#{client_height}'',
     ''#{client_flags}'', ''#{window_id}'', ''#{window_width}'', ''#{window_height}'', ''#{window_bigger}'', ''#{status}''] [tab]"

definition queryViewerClient :: "'w viewerEnv \<Rightarrow> PTYViewerFactory \<Rightarrow> int \<Rightarrow> ('w, viewerClientGeometry) io" where
  "queryViewerClient ve f pid w =
     (case runTmux ve f [''list-clients'', ''-F'', client_format] w of
        (Inl e, w1) \<Rightarrow> (Inl (Wrapf ''query tmux viewer client geometry: '' e), w1)
      | (Inr result, w1) \<Rightarrow> (parseViewerClientGeometry result pid, w1))"

definition resizeViewerPTY :: "'w processEnv \<Rightarrow> ViewerGeometry \<Rightarrow> ('w, unit) io" where
  "resizeViewerPTY pe geometry =
     wrapErr ''correct viewer PTY geometry: '' (pe_Setsize pe (vg_Columns geometry) (vg_Rows geometry))"

definition refreshViewerClient :: "'w viewerEnv \<Rightarrow> PTYViewerFactory \<Rightarrow> string \<Rightarrow> ('w, unit) io" where
  "refreshViewerClient ve f name w =
     (if name = [] then (Inl (Msg ''tmux viewer client name is empty''), w)
      else case runTmux ve f [''refresh-client'', ''-t'', name] w of
        (Inl e, w1) \<Rightarrow> (Inl (Wrapf ''refresh tmux viewer client: '' e), w1)
      | (Inr _, w1) \<Rightarrow> (Inr (), w1))"

definition geometryEvent :: "string \<Rightarrow> ViewerGeometryDiagnostic \<Rightarrow> DiagnosticRecord" where
  "geometryEvent event report =
     \<lparr>d_Level = if event = ''geometry_failed'' then ''warn'' else ''info'', d_Component = ''viewer'', d_Event = event,
      d_Code = [], d_Path = [], d_ViewerGeometry = Some report\<rparr>"

definition factoryOps ::
    "'w viewerEnv \<Rightarrow> PTYViewerFactory \<Rightarrow> 'w processEnv \<Rightarrow> int \<Rightarrow> ViewerGeometry \<Rightarrow> 'w geometryOps" where
  "factoryOps ve f pe pid captured =
     \<lparr>go_query = queryViewerClient ve f pid, go_resize = resizeViewerPTY pe captured,
      go_refresh = refreshViewerClient ve f, go_wait = pe_poll pe,
      go_emit = (\<lambda>event report. pe_record pe (geometryEvent event report))\<rparr>"

section \<open>Preparing and starting\<close>

record ptyViewerPreparation =
  pp_identity :: Identity
  pp_windowID :: string
  pp_geometry :: ViewerGeometry
  pp_releasePin :: releaser
  pp_started :: bool
  pp_closed :: bool

definition Prepare ::
    "'w viewerEnv \<Rightarrow> PTYViewerFactory \<Rightarrow> Identity \<Rightarrow> bool \<Rightarrow> pins \<times> 'w \<Rightarrow> (gerror + ptyViewerPreparation) \<times> pins \<times> 'w" where
  "Prepare ve f identity hasOutput s =
     (if \<not> hasOutput then (Inl (Msg ''viewer output callback is required''), s)
      else case pinWindow ve f identity s of
        (Inl e, s1) \<Rightarrow> (Inl e, s1)
      | (Inr (windowID, geometry, key), s1) \<Rightarrow>
          (Inr \<lparr>pp_identity = identity, pp_windowID = windowID, pp_geometry = geometry,
                pp_releasePin = releaseWindowFunc key, pp_started = False, pp_closed = False\<rparr>, s1))"

definition buildCommand :: "'w viewerEnv \<Rightarrow> PTYViewerFactory \<Rightarrow> Identity \<Rightarrow> string \<Rightarrow> gerror + command" where
  "buildCommand ve f identity windowID =
     (case validateIdentity (id_ID identity) (id_Generation identity) of
        Some e \<Rightarrow> Inl e
      | None \<Rightarrow>
          (case commandSettings ve f of
             Inl e \<Rightarrow> Inl e
           | Inr (tmuxPath, endpoint) \<Rightarrow>
               (case Endpoint_Args endpoint of
                  Inl e \<Rightarrow> Inl e
                | Inr prefix \<Rightarrow>
                    (case AttachWindowIgnoringSizeIfGenerationArgs (id_ID identity) (id_Generation identity) windowID of
                       Inl e \<Rightarrow> Inl (Wrapf ''build generation-guarded viewer attach: '' e)
                     | Inr attach \<Rightarrow>
                         Inr \<lparr>cmd_Path = tmuxPath, cmd_Args = prefix @ attach, cmd_Env = cleanEnvironment ve f\<rparr>))))"

definition viewerWaitError :: "(gerror \<Rightarrow> bool) \<Rightarrow> gerror option \<Rightarrow> bool \<Rightarrow> gerror option" where
  "viewerWaitError isExit err intentional =
     (if \<not> intentional then err
      else case err of None \<Rightarrow> None | Some e \<Rightarrow> if isExit e then None else err)"

text \<open>An error of closing that is worth reporting.\<close>

definition unless_error :: "(gerror \<Rightarrow> bool) \<Rightarrow> string \<Rightarrow> gerror option \<Rightarrow> gerror option" where
  "unless_error expected context err =
     (case err of None \<Rightarrow> None | Some e \<Rightarrow> if expected e then None else Some (Wrapf context e))"

definition joinErr :: "gerror option \<Rightarrow> gerror option \<Rightarrow> gerror option" where
  "joinErr result err = (if err = None then result else errors_join [result, err])"

definition stopUnverifiedViewer :: "'w processEnv \<Rightarrow> bool \<Rightarrow> 'w \<Rightarrow> gerror option \<times> 'w" where
  "stopUnverifiedViewer pe hasProcess w =
     (let (killErr, w1) = (if hasProcess then pe_Kill pe w else (None, w));
          result = joinErr None (unless_error (pe_isProcessDone pe) ''stop unverified tmux viewer: '' killErr);
          (closeErr, w2) = pe_ClosePTY pe w1;
          result = joinErr result (unless_error (pe_isClosed pe) ''close unverified viewer PTY: '' closeErr);
          (waitErr, w3) = (if hasProcess then pe_Wait pe w2 else (None, w2));
          result = joinErr result
            (wrap_error ''wait for unverified tmux viewer: '' (viewerWaitError (pe_isExit pe) waitErr True))
      in (result, w3))"

text \<open>A failed start closes the preparation and releases its pin.\<close>

definition closePrepared ::
    "'w viewerEnv \<Rightarrow> PTYViewerFactory \<Rightarrow> ptyViewerPreparation \<Rightarrow> pins \<times> 'w
     \<Rightarrow> gerror option \<times> ptyViewerPreparation \<times> pins \<times> 'w" where
  "closePrepared ve f p s =
     (let (e, r, s1) = callReleaser ve f (pp_releasePin p) s
      in (e, p\<lparr>pp_closed := True, pp_releasePin := r\<rparr>, s1))"

definition startFailed ::
    "'w viewerEnv \<Rightarrow> PTYViewerFactory \<Rightarrow> ptyViewerPreparation \<Rightarrow> gerror \<Rightarrow> gerror option list \<Rightarrow> pins \<times> 'w
     \<Rightarrow> (gerror + 'v) \<times> ptyViewerPreparation \<times> pins \<times> 'w" where
  "startFailed ve f p e es s =
     (let (releaseErr, p1, s1) = closePrepared ve f p s in (Inl (joined e (es @ [releaseErr])), p1, s1))"

text \<open>What a started viewer keeps: the process id, the identity that it probes and the release function.\<close>

record viewerHandle =
  vh_pid :: int
  vh_identity :: Identity
  vh_releasePin :: releaser

definition Preparation_Start ::
    "'w viewerEnv \<Rightarrow> PTYViewerFactory \<Rightarrow> 'w processEnv \<Rightarrow> ptyViewerPreparation \<Rightarrow> pins \<times> 'w
     \<Rightarrow> (gerror + viewerHandle) \<times> ptyViewerPreparation \<times> pins \<times> 'w" where
  "Preparation_Start ve f pe p s =
     (let (pins, w) = s in
      if pp_closed p then (Inl (Msg ''prepared viewer is closed''), p, s)
      else if pp_started p then (Inl (Msg ''prepared viewer is already started''), p, s)
      else case buildCommand ve f (pp_identity p) (pp_windowID p) of
        Inl e \<Rightarrow> startFailed ve f p e [] s
      | Inr command \<Rightarrow>
          (case pe_StartWithSize pe command (vg_Columns (pp_geometry p)) (vg_Rows (pp_geometry p)) w of
             (Inl e, w1) \<Rightarrow> startFailed ve f p (Wrapf ''start tmux viewer PTY: '' e) [] (pins, w1)
           | (Inr None, w1) \<Rightarrow>
               let (stopErr, w2) = stopUnverifiedViewer pe False w1 in
               startFailed ve f p (Msg ''start tmux viewer PTY: process is unavailable'') [stopErr] (pins, w2)
           | (Inr (Some pid), w1) \<Rightarrow>
               (case verifyViewerGeometry (factoryOps ve f pe pid (pp_geometry p)) (pp_windowID p) (pp_geometry p) w1 of
                  (Inl e, w2) \<Rightarrow>
                    let (stopErr, w3) = stopUnverifiedViewer pe True w2 in
                    startFailed ve f p (Wrapf ''verify tmux viewer geometry: '' e) [stopErr] (pins, w3)
                | (Inr _, w2) \<Rightarrow>
                    (Inr \<lparr>vh_pid = pid, vh_identity = pp_identity p, vh_releasePin = pp_releasePin p\<rparr>,
                     p\<lparr>pp_started := True\<rparr>, pins, w2))))"

definition Preparation_Close ::
    "'w viewerEnv \<Rightarrow> PTYViewerFactory \<Rightarrow> ptyViewerPreparation \<Rightarrow> pins \<times> 'w
     \<Rightarrow> gerror option \<times> ptyViewerPreparation \<times> pins \<times> 'w" where
  "Preparation_Close ve f p s =
     (if pp_started p \<or> pp_closed p then (None, p, s) else closePrepared ve f p s)"

section \<open>A running viewer\<close>

text \<open>
  \<open>run\<close> in the order of its statements: reading, waiting for the process, the exit status with what
  \<open>closing\<close> was when it was loaded, the result stored, the result sent on \<open>done\<close>, \<open>finished\<close> closed.
\<close>

datatype runPhase =
  Reading | Waiting | Waited "gerror option" | Judged "gerror option" bool | Resulted | Announced | Finished

record ptyViewer =
  pv_phase :: runPhase
  pv_outputErr :: "gerror option"
  pv_closing :: bool
  pv_ptyClosed :: bool
  pv_killed :: bool
  pv_result :: "gerror option"
  pv_done :: "gerror option list"
  pv_releasePin :: releaser
  pv_output :: "string list"
  pv_closeResults :: "gerror option list"

definition newPtyViewer :: "viewerHandle \<Rightarrow> ptyViewer" where
  "newPtyViewer h =
     \<lparr>pv_phase = Reading, pv_outputErr = None, pv_closing = False, pv_ptyClosed = False, pv_killed = False, pv_result = None,
      pv_done = [], pv_releasePin = vh_releasePin h, pv_output = [], pv_closeResults = []\<rparr>"

text \<open>\<open>terminateOnce\<close>: only the first call does something.\<close>

definition terminate :: "ptyViewer \<Rightarrow> ptyViewer" where
  "terminate v = (if pv_closing v then v else v\<lparr>pv_closing := True, pv_ptyClosed := True, pv_killed := True\<rparr>)"

text \<open>One turn of the loop: what \<open>Read\<close> gave and what the output callback answered.\<close>

definition readTurn :: "'w processEnv \<Rightarrow> string \<Rightarrow> gerror option \<Rightarrow> gerror option \<Rightarrow> ptyViewer \<Rightarrow> ptyViewer" where
  "readTurn pe chunk callbackErr readErr v =
     (case (if chunk = [] then None else callbackErr) of
        Some e \<Rightarrow> terminate (v\<lparr>pv_outputErr := Some (Wrapf ''deliver viewer output: '' e), pv_phase := Waiting\<rparr>)
      | None \<Rightarrow>
          let v1 = (if chunk = [] then v else v\<lparr>pv_output := pv_output v @ [chunk]\<rparr>) in
          (case readErr of
             None \<Rightarrow> v1
           | Some e \<Rightarrow>
               v1\<lparr>pv_outputErr := (if \<not> pe_isEOF pe e \<and> \<not> pe_isClosed pe e \<and> \<not> pe_isEIO pe e
                                  then Some (Wrapf ''read viewer PTY: '' e) else pv_outputErr v1),
                  pv_phase := Waiting\<rparr>))"

definition judgeExit :: "gerror option \<Rightarrow> ptyViewer \<Rightarrow> ptyViewer" where
  "judgeExit waitErr v = terminate (v\<lparr>pv_phase := Judged waitErr (pv_closing v)\<rparr>)"

definition viewerExitResult ::
    "(gerror \<Rightarrow> bool) \<Rightarrow> gerror option \<Rightarrow> bool \<Rightarrow> ('w, bool) io option \<Rightarrow> 'w \<Rightarrow> gerror option \<times> 'w" where
  "viewerExitResult isExit waitErr intentional terminalEnded w =
     (case terminalEnded of
        None \<Rightarrow> (viewerWaitError isExit waitErr intentional, w)
      | Some probe \<Rightarrow>
          if waitErr = None \<or> intentional then (viewerWaitError isExit waitErr intentional, w)
          else (case probe w of
                  (Inl probeErr, w1) \<Rightarrow> (errors_join [viewerWaitError isExit waitErr False, Some probeErr], w1)
                | (Inr ended, w1) \<Rightarrow> (errors_join [viewerWaitError isExit waitErr ended, None], w1)))"

definition settleRun ::
    "'w viewerEnv \<Rightarrow> PTYViewerFactory \<Rightarrow> 'w processEnv \<Rightarrow> Identity \<Rightarrow> gerror option \<Rightarrow> bool \<Rightarrow> ptyViewer \<times> pins \<times> 'w
     \<Rightarrow> ptyViewer \<times> pins \<times> 'w" where
  "settleRun ve f pe identity waitErr intentional s =
     (let (v, pins, w) = s;
          (exitErr, w1) = viewerExitResult (pe_isExit pe) waitErr intentional (Some (viewerTerminalEnded ve f identity)) w;
          (releaseErr, r, s1) = callReleaser ve f (pv_releasePin v) (pins, w1)
      in (v\<lparr>pv_result := errors_join [pv_outputErr v, exitErr, releaseErr], pv_releasePin := r, pv_phase := Resulted\<rparr>, s1))"

definition announce :: "ptyViewer \<Rightarrow> ptyViewer" where
  "announce v = v\<lparr>pv_done := pv_done v @ [pv_result v], pv_phase := Announced\<rparr>"

text \<open>\<open>Write\<close> on the terminal, whose answer comes from outside.\<close>

definition ptyViewer_Write :: "(string \<Rightarrow> ('w, nat) io) \<Rightarrow> string \<Rightarrow> 'w \<Rightarrow> gerror option \<times> 'w" where
  "ptyViewer_Write ptmx_Write data w =
     (case ptmx_Write data w of
        (Inl e, w1) \<Rightarrow> (Some (Wrapf ''write viewer PTY: '' e), w1)
      | (Inr _, w1) \<Rightarrow> (None, w1))"

text \<open>
  The steps of \<open>run\<close>, of those who terminate the viewer (\<open>Close\<close>, and the goroutine that watches the
  context), the return of a \<open>Close\<close> and everything else that happens to the pins and to tmux.
\<close>

inductive ptyViewer_step ::
    "'w viewerEnv \<Rightarrow> PTYViewerFactory \<Rightarrow> 'w processEnv \<Rightarrow> Identity
     \<Rightarrow> ptyViewer \<times> pins \<times> 'w \<Rightarrow> ptyViewer \<times> pins \<times> 'w \<Rightarrow> bool"
  for ve :: "'w viewerEnv" and f :: PTYViewerFactory and pe :: "'w processEnv" and identity :: Identity where
  run_read: "pv_phase v = Reading \<Longrightarrow>
    ptyViewer_step ve f pe identity (v, s) (readTurn pe chunk callbackErr readErr v, s)"
| run_wait: "pv_phase v = Waiting \<Longrightarrow>
    ptyViewer_step ve f pe identity (v, s) (v\<lparr>pv_phase := Waited waitErr\<rparr>, s)"
| run_judge: "pv_phase v = Waited waitErr \<Longrightarrow>
    ptyViewer_step ve f pe identity (v, s) (judgeExit waitErr v, s)"
| run_settle: "pv_phase v = Judged waitErr intentional \<Longrightarrow>
    ptyViewer_step ve f pe identity (v, s) (settleRun ve f pe identity waitErr intentional (v, s))"
| run_announce: "pv_phase v = Resulted \<Longrightarrow> ptyViewer_step ve f pe identity (v, s) (announce v, s)"
| run_finish: "pv_phase v = Announced \<Longrightarrow> ptyViewer_step ve f pe identity (v, s) (v\<lparr>pv_phase := Finished\<rparr>, s)"
| do_terminate: "ptyViewer_step ve f pe identity (v, s) (terminate v, s)"
| close_return: "pv_phase v = Finished \<Longrightarrow> pv_closing v \<Longrightarrow>
    ptyViewer_step ve f pe identity (v, s) (v\<lparr>pv_closeResults := pv_closeResults v @ [pv_result v]\<rparr>, s)"
| others: "ptyViewer_step ve f pe identity (v, s) (v, s')"


section \<open>Starting hands the pin over or releases it\<close>

lemma callReleaser_fields:
  "callReleaser ve f r s = (e, r', s') \<Longrightarrow> rl_released r' \<and> rl_key r' = rl_key r"
  by (auto simp: callReleaser_def Let_def split: prod.splits)

lemma closePrepared_fields:
  assumes "closePrepared ve f p s = (e, p', s')"
  shows "pp_closed p'" "rl_released (pp_releasePin p')" "rl_key (pp_releasePin p') = rl_key (pp_releasePin p)"
    "pp_started p' = pp_started p" "releaseWindow ve f (rl_key (pp_releasePin p)) (\<not> rl_released (pp_releasePin p)) s = (e, s')"
  using assms by (auto simp: closePrepared_def callReleaser_def Let_def split: prod.splits)

lemma startFailed_fields:
  assumes "startFailed ve f p e es s = (r, p', s')"
  shows "(\<exists>e'. r = Inl e') \<and> pp_closed p' \<and> rl_released (pp_releasePin p') \<and> pp_started p' = pp_started p
    \<and> (\<exists>re. releaseWindow ve f (rl_key (pp_releasePin p)) (\<not> rl_released (pp_releasePin p)) s = (re, s'))"
proof -
  obtain re p1 s1 where c: "closePrepared ve f p s = (re, p1, s1)" by (rule prod_cases3)
  then show ?thesis using assms closePrepared_fields [OF c] by (auto simp: startFailed_def)
qed

lemma verify_success:
  "verifyViewerGeometry ops windowID captured w = (Inr d, w') \<Longrightarrow> agreed ops windowID captured d"
  unfolding verifyViewerGeometry_def Let_def by (rule verify_loop_success)

text \<open>C18: Starting a prepared viewer is all or nothing: either the viewer that is returned carries the pin
  that the preparation held, the pins are as before and tmux was seen to show the pinned window in the
  captured geometry; or the preparation is closed, its pin was released once and a later \<open>Close\<close> does nothing.\<close>

theorem Start_hands_over_or_releases:
  assumes "Preparation_Start ve f pe p (pins, w) = (r, p', pins', w')"
    and "\<not> pp_started p" and "\<not> pp_closed p" and "\<not> rl_released (pp_releasePin p)"
  shows "case r of
      Inr h \<Rightarrow> pp_started p' \<and> \<not> pp_closed p' \<and> pins' = pins \<and> vh_releasePin h = pp_releasePin p
        \<and> (\<exists>d. agreed (factoryOps ve f pe (vh_pid h) (pp_geometry p)) (pp_windowID p) (pp_geometry p) d)
    | Inl e \<Rightarrow> pp_closed p' \<and> rl_released (pp_releasePin p')
        \<and> (\<exists>w1 re. releaseWindow ve f (rl_key (pp_releasePin p)) True (pins, w1) = (re, pins', w'))
        \<and> (\<forall>s. Preparation_Close ve f p' s = (None, p', s))"
proof -
  have failed: "pp_closed p' \<and> rl_released (pp_releasePin p')
        \<and> (\<exists>w1 re. releaseWindow ve f (rl_key (pp_releasePin p)) True (pins, w1) = (re, pins', w'))
        \<and> (\<forall>s. Preparation_Close ve f p' s = (None, p', s)) \<and> (\<exists>e. r = Inl e)"
    if "startFailed ve f p e es (pins, w1) = (r, p', pins', w')" for e es w1
    using startFailed_fields [OF that] assms(4) by (auto simp: Preparation_Close_def)
  consider (fail) e es w1 where "startFailed ve f p e es (pins, w1) = (r, p', pins', w')"
    | (ok) pid w1 d where "verifyViewerGeometry (factoryOps ve f pe pid (pp_geometry p)) (pp_windowID p) (pp_geometry p) w1 = (Inr d, w')"
        "r = Inr \<lparr>vh_pid = pid, vh_identity = pp_identity p, vh_releasePin = pp_releasePin p\<rparr>" "p' = p\<lparr>pp_started := True\<rparr>" "pins' = pins"
    using assms(1-3) by (auto simp: Preparation_Start_def Let_def split: sum.splits prod.splits option.splits)
  then show ?thesis
  proof cases
    case fail
    then show ?thesis using failed by fastforce
  next
    case ok
    then show ?thesis using verify_success [OF ok(1)] assms(3) by auto
  qed
qed

section \<open>One result, after the pin was released\<close>

definition ptyViewer_inv :: "ptyViewer \<Rightarrow> bool" where
  "ptyViewer_inv v \<longleftrightarrow>
     pv_ptyClosed v = pv_closing v \<and> pv_killed v = pv_closing v
     \<and> (case pv_phase v of
          Reading \<Rightarrow> \<not> rl_released (pv_releasePin v) \<and> pv_done v = [] \<and> pv_closeResults v = []
        | Waiting \<Rightarrow> \<not> rl_released (pv_releasePin v) \<and> pv_done v = [] \<and> pv_closeResults v = []
        | Waited _ \<Rightarrow> \<not> rl_released (pv_releasePin v) \<and> pv_done v = [] \<and> pv_closeResults v = []
        | Judged _ _ \<Rightarrow> pv_closing v \<and> \<not> rl_released (pv_releasePin v) \<and> pv_done v = [] \<and> pv_closeResults v = []
        | Resulted \<Rightarrow> pv_closing v \<and> rl_released (pv_releasePin v) \<and> pv_done v = [] \<and> pv_closeResults v = []
        | Announced \<Rightarrow> pv_closing v \<and> rl_released (pv_releasePin v) \<and> pv_done v = [pv_result v] \<and> pv_closeResults v = []
        | Finished \<Rightarrow> pv_closing v \<and> rl_released (pv_releasePin v) \<and> pv_done v = [pv_result v]
            \<and> set (pv_closeResults v) \<subseteq> {pv_result v})"

lemma terminate_inv: "ptyViewer_inv v \<Longrightarrow> ptyViewer_inv (terminate v)"
  by (auto simp: ptyViewer_inv_def terminate_def split: runPhase.splits)

lemma readTurn_inv:
  assumes "ptyViewer_inv v" and "pv_phase v = Reading"
  shows "ptyViewer_inv (readTurn pe chunk callbackErr readErr v)"
proof -
  have "ptyViewer_inv (v\<lparr>pv_outputErr := e, pv_phase := Waiting\<rparr>)" for e
    using assms by (simp add: ptyViewer_inv_def)
  then show ?thesis
    using assms terminate_inv
    by (auto simp: readTurn_def Let_def split: option.splits) (auto simp: ptyViewer_inv_def)
qed

lemma settleRun_inv:
  assumes "ptyViewer_inv v" and "pv_phase v = Judged waitErr intentional"
  shows "ptyViewer_inv (fst (settleRun ve f pe identity waitErr intentional (v, s)))"
proof -
  obtain pins w where s: "s = (pins, w)" by (rule prod.exhaust)
  obtain xe w1 where 1: "viewerExitResult (pe_isExit pe) waitErr intentional (Some (viewerTerminalEnded ve f identity)) w = (xe, w1)"
    by (rule prod.exhaust)
  obtain re r s1 where 2: "callReleaser ve f (pv_releasePin v) (pins, w1) = (re, r, s1)" by (rule prod_cases3)
  show ?thesis using assms callReleaser_fields [OF 2] by (simp add: settleRun_def s 1 2 ptyViewer_inv_def)
qed

lemma ptyViewer_step_inv:
  assumes "ptyViewer_step ve f pe identity s t" and "ptyViewer_inv (fst s)"
  shows "ptyViewer_inv (fst t)"
  using assms(1)
proof cases
  case (run_read v s chunk callbackErr readErr)
  then show ?thesis using assms(2) readTurn_inv by simp
next
  case (run_judge v waitErr s)
  have "ptyViewer_inv (terminate (v\<lparr>pv_phase := Waited waitErr\<rparr>))"
    using run_judge assms(2) by (intro terminate_inv) (simp add: ptyViewer_inv_def)
  then show ?thesis using run_judge by (auto simp: judgeExit_def terminate_def ptyViewer_inv_def)
next
  case (run_settle v waitErr intentional s)
  then show ?thesis using assms(2) settleRun_inv by simp
next
  case (do_terminate v s)
  then show ?thesis using assms(2) terminate_inv by simp
qed (use assms(2) in \<open>auto simp: ptyViewer_inv_def announce_def\<close>)

definition fresh_viewer :: "ptyViewer \<times> pins \<times> 'w \<Rightarrow> bool" where
  "fresh_viewer s \<longleftrightarrow> (\<exists>h. fst s = newPtyViewer h \<and> \<not> rl_released (vh_releasePin h))"

interpretation ptyviewer: invariant_system fresh_viewer "ptyViewer_step ve f pe identity" "\<lambda>s. ptyViewer_inv (fst s)"
  for ve f pe identity
proof unfold_locales
  show "ptyViewer_inv (fst s)" if "fresh_viewer s" for s :: "ptyViewer \<times> pins \<times> 'a"
    using that by (auto simp: fresh_viewer_def ptyViewer_inv_def newPtyViewer_def)
qed (rule ptyViewer_step_inv)

text \<open>In every interleaving of the viewer's goroutines: at most one result is sent on \<open>done\<close>, after the
  terminal was closed, the process killed and the pin released; every \<open>Close\<close> returns this result;
  the pin is held until the process was reaped and its exit judged, and released from then on.\<close>

theorem viewer_result_once:
  assumes "reachable fresh_viewer (ptyViewer_step ve f pe identity) (v, pins, w)"
  shows "(pv_done v = [] \<or> pv_done v = [pv_result v] \<and> rl_released (pv_releasePin v) \<and> pv_ptyClosed v \<and> pv_killed v)
    \<and> (pv_phase v = Finished \<longrightarrow> pv_done v = [pv_result v])
    \<and> set (pv_closeResults v) \<subseteq> set (pv_done v)
    \<and> (rl_released (pv_releasePin v) \<longleftrightarrow> pv_phase v \<in> {Resulted, Announced, Finished})"
  using ptyviewer.reachable_inv [OF assms] by (auto simp: ptyViewer_inv_def split: runPhase.splits)

section \<open>Which exits are errors\<close>

lemma viewer_exit_judged:
  assumes "viewerExitResult isExit (Some e) intentional (Some probe) w = (r, w')"
  shows "r = None \<longleftrightarrow> isExit e \<and> (intentional \<or> (\<exists>w1. probe w = (Inr True, w1)))"
    and "\<not> intentional \<Longrightarrow> \<not> (\<exists>w1. probe w = (Inr True, w1)) \<Longrightarrow> \<exists>es. r = Some (Join (e # es))"
    and "intentional \<Longrightarrow> w' = w"
  using assms
  by (auto simp: viewerExitResult_def viewerWaitError_def errors_join_def map_filter_def
      split: prod.splits sum.splits if_splits)

section \<open>A viewer that ends and a viewer that cannot start\<close>

definition demo_pe :: "nat processEnv" where
  "demo_pe = \<lparr>pe_StartWithSize = (\<lambda>c x y w. (Inl (Ext ''no pty''), w)), pe_Setsize = (\<lambda>x y w. (Inr (), w)),
     pe_Kill = (\<lambda>w. (None, w)), pe_ClosePTY = (\<lambda>w. (None, w)), pe_Wait = (\<lambda>w. (None, w)), pe_poll = (\<lambda>w. (Inr (), w)),
     pe_record = (\<lambda>d w. w), pe_isProcessDone = (\<lambda>e. False), pe_isClosed = (\<lambda>e. False),
     pe_isEOF = (\<lambda>e. e = Ext ''EOF''), pe_isEIO = (\<lambda>e. False), pe_isExit = (\<lambda>e. False)\<rparr>"

definition demo_prepared :: ptyViewerPreparation where
  "demo_prepared = \<lparr>pp_identity = demo_identity, pp_windowID = ''@7'', pp_geometry = demo_geometry,
     pp_releasePin = releaseWindowFunc demo_key, pp_started = False, pp_closed = False\<rparr>"

lemma demo_release:
  "w \<noteq> 2 \<Longrightarrow> callReleaser demo_ve demo_pf (releaseWindowFunc demo_key) ([demo_key \<mapsto> demo_pin 1], w) =
    (None, \<lparr>rl_key = demo_key, rl_released = True\<rparr>, Map.empty, Suc w)"
  using demo_restore [of 0 w] by (simp add: callReleaser_def releaseWindowFunc_def releaseWindow_def)

theorem Start_hands_over_or_releases_witness:
  "\<exists>r p' w'. Preparation_Start demo_ve demo_pf demo_pe demo_prepared ([demo_key \<mapsto> demo_pin 1], 5) = (r, p', Map.empty, w')
     \<and> pp_closed p' \<and> rl_released (pp_releasePin p')"
proof -
  let ?s = "([demo_key \<mapsto> demo_pin 1], 5 :: nat)"
  obtain c where c: "buildCommand demo_ve demo_pf demo_identity ''@7'' = Inr c"
    using demo_generations
    by (auto simp: buildCommand_def demo_identity_def validateIdentity_def demo_settings demo_ve_def Endpoint_Args_def
        IsAbs_def HasPrefix_def AttachWindowIgnoringSizeIfGenerationArgs_def sessionWindowCommandIfGenerationArgs_def Let_def)
  have r: "releaseWindow demo_ve demo_pf demo_key True ?s = (None, Map.empty, 6)"
    using demo_restore [of 0 5] by (simp add: releaseWindow_def)
  obtain e p' where s: "Preparation_Start demo_ve demo_pf demo_pe demo_prepared ?s = (Inl e, p', Map.empty, 6)"
    using c by (auto simp: Preparation_Start_def demo_prepared_def demo_pe_def startFailed_def closePrepared_def
        callReleaser_def releaseWindowFunc_def r)
  from Start_hands_over_or_releases [OF s] show ?thesis
    using s by (auto simp: demo_prepared_def releaseWindowFunc_def)
qed

theorem viewer_result_once_witness:
  "\<exists>v w'. reachable fresh_viewer (ptyViewer_step demo_ve demo_pf demo_pe demo_identity) (v, Map.empty, w' :: nat)
     \<and> pv_phase v = Finished \<and> pv_done v = [None] \<and> rl_released (pv_releasePin v)"
proof -
  define h where "h = \<lparr>vh_pid = 41, vh_identity = demo_identity, vh_releasePin = releaseWindowFunc demo_key\<rparr>"
  let ?R = "reachable fresh_viewer (ptyViewer_step demo_ve demo_pf demo_pe demo_identity)"
  let ?s = "([demo_key \<mapsto> demo_pin 1], 5 :: nat)"
  define v1 where "v1 = readTurn demo_pe ''$ '' None (Some (Ext ''EOF'')) (newPtyViewer h)"
  define v2 where "v2 = v1\<lparr>pv_phase := Waited None\<rparr>"
  define v3 where "v3 = judgeExit None v2"
  define v4 where "v4 = v3\<lparr>pv_result := None, pv_releasePin := \<lparr>rl_key = demo_key, rl_released = True\<rparr>, pv_phase := Resulted\<rparr>"
  define v5 where "v5 = announce v4"
  have f: "pv_phase (newPtyViewer h) = Reading" by (simp add: newPtyViewer_def)
  have "?R (newPtyViewer h, ?s)"
    by (rule reach_init) (auto simp: fresh_viewer_def h_def releaseWindowFunc_def)
  then have "?R (v1, ?s)" unfolding v1_def by (rule reach_step) (rule run_read [OF f])
  moreover have p1: "pv_phase v1 = Waiting" "pv_outputErr v1 = None" "pv_releasePin v1 = releaseWindowFunc demo_key" "pv_done v1 = []"
    by (simp_all add: v1_def readTurn_def newPtyViewer_def demo_pe_def h_def)
  ultimately have "?R (v2, ?s)" unfolding v2_def by (blast intro: reach_step run_wait)
  moreover have "pv_phase v2 = Waited None" by (simp add: v2_def)
  ultimately have "?R (v3, ?s)" unfolding v3_def by (blast intro: reach_step run_judge)
  moreover have p3: "\<exists>i. pv_phase v3 = Judged None i" "pv_outputErr v3 = None" "pv_releasePin v3 = releaseWindowFunc demo_key" "pv_done v3 = []"
    using p1 by (auto simp: v3_def v2_def judgeExit_def terminate_def)
  moreover have "settleRun demo_ve demo_pf demo_pe demo_identity None i (v3, ?s) = (v4, Map.empty, 6)" for i
    using p3 demo_release [of 5] by (simp add: settleRun_def viewerExitResult_def viewerWaitError_def v4_def errors_join_def map_filter_def)
  ultimately have "?R (v4, Map.empty, 6)" by (metis reach_step run_settle)
  then have "?R (v5, Map.empty, 6)" unfolding v5_def by (rule reach_step) (rule run_announce, simp add: v4_def)
  then have R: "?R (v5\<lparr>pv_phase := Finished\<rparr>, Map.empty, 6)" by (rule reach_step) (rule run_finish, simp add: v5_def announce_def)
  from viewer_result_once [OF R] have "pv_done (v5\<lparr>pv_phase := Finished\<rparr>) = [pv_result v5]" "rl_released (pv_releasePin v5)" by auto
  moreover have "pv_result v5 = None" by (simp add: v5_def announce_def v4_def)
  ultimately show ?thesis using R by (intro exI [of _ "v5\<lparr>pv_phase := Finished\<rparr>"] exI [of _ 6]) simp
qed

end
