(* ===== verification/Manager_Viewers.thy ===== *)
theory Manager_Viewers
  imports Mirror_Manager
begin

text \<open>
  The viewers of the manager's clients under concurrency: \<open>open\<close> runs in its own goroutine with four
  locked sections, and between them the client may be closed or disconnected, the secret rotated, the
  mirror stopped or the viewer ended. The step relation has one step per locked section and per call
  outside of them; the invariant says where every started viewer is.
\<close>

section \<open>Steps\<close>

text \<open>Where the \<open>open\<close> call of a client is: which opening attempt and which viewer it holds.\<close>

datatype openPhase = NotOpening | Waiting | Reserved nat | Started nat nat | Attached nat nat

record viewerSystem =
  vs_manager :: Manager
  vs_open :: "nat \<Rightarrow> openPhase"
  vs_started :: "nat set"
  vs_closed :: "nat set"
  vs_ended :: "nat set"
  vs_toClose :: "nat set"
  vs_openings :: "nat set"

definition detach_all :: "Manager \<Rightarrow> viewerSystem \<Rightarrow> viewerSystem" where
  "detach_all m' y = y\<lparr>vs_manager := m', vs_toClose := vs_toClose y \<union> detachedViewers (vs_manager y)\<rparr>"

inductive viewer_step :: "viewerSystem \<Rightarrow> viewerSystem \<Rightarrow> bool" where
  vw_connect: "vs_open y c = NotOpening \<Longrightarrow> admit c (vs_manager y) = (r, m') \<Longrightarrow>
     viewer_step y (y\<lparr>vs_manager := m', vs_open := (vs_open y)(c := if r = None then Waiting else NotOpening)\<rparr>)"
| vw_reserve: "vs_open y c = Waiting \<Longrightarrow> o' \<notin> vs_openings y \<Longrightarrow> reserve c o' sent (vs_manager y) = (r, m') \<Longrightarrow>
     viewer_step y (y\<lparr>vs_manager := m', vs_openings := insert o' (vs_openings y),
       vs_open := (vs_open y)(c := if r = None then Reserved o' else NotOpening)\<rparr>)"
| vw_start: "vs_open y c = Reserved o' \<Longrightarrow> v \<notin> vs_started y \<Longrightarrow>
     viewer_step y (y\<lparr>vs_started := insert v (vs_started y), vs_open := (vs_open y)(c := Started o' v)\<rparr>)"
| vw_start_fails: "vs_open y c = Reserved o' \<Longrightarrow>
     viewer_step y (y\<lparr>vs_manager := removeOpening c o' (vs_manager y), vs_open := (vs_open y)(c := NotOpening)\<rparr>)"
| vw_attach: "vs_open y c = Started o' v \<Longrightarrow> attach c o' v (vs_manager y) = (r, m') \<Longrightarrow>
     viewer_step y (y\<lparr>vs_manager := m', vs_toClose := (if r = None then vs_toClose y else insert v (vs_toClose y)),
       vs_open := (vs_open y)(c := if r = None then Attached o' v else NotOpening)\<rparr>)"
| vw_activate: "vs_open y c = Attached o' v \<Longrightarrow> activate c o' v (vs_manager y) = (r, m') \<Longrightarrow>
     viewer_step y (y\<lparr>vs_manager := m', vs_toClose := (if r = None then vs_toClose y else insert v (vs_toClose y)),
       vs_open := (vs_open y)(c := NotOpening)\<rparr>)"
| vw_close: "viewer_step y (y\<lparr>vs_manager := Close_op c (vs_manager y), vs_toClose := vs_toClose y \<union> closedByClose c (vs_manager y)\<rparr>)"
| vw_disconnect: "viewer_step y (y\<lparr>vs_manager := Disconnected_op c (vs_manager y),
     vs_toClose := vs_toClose y \<union> takenViewers c (vs_manager y)\<rparr>)"
| vw_rotate: "viewer_step y (detach_all (commitRotate secret pairingURL qr (vs_manager y)) y)"
| vw_tunnel: "m_tunnel (vs_manager y) = Some t \<Longrightarrow> \<not> m_shutdown (vs_manager y) \<Longrightarrow>
     viewer_step y (detach_all (fst (watchTunnel ord closes sink t err (vs_manager y))) y)"
| vw_shutdown: "\<not> m_shutdown (vs_manager y) \<Longrightarrow> viewer_step y (detach_all (fst (snd (Shutdown_op ord closes (vs_manager y)))) y)"
| vw_ends: "v \<in> vs_started y \<Longrightarrow> viewer_step y (y\<lparr>vs_ended := insert v (vs_ended y)\<rparr>)"
| vw_watch: "v \<in> vs_ended y \<Longrightarrow> viewer_step y (y\<lparr>vs_manager := watchViewer c v (vs_manager y)\<rparr>)"
| vw_closed: "v \<in> vs_toClose y \<Longrightarrow>
     viewer_step y (y\<lparr>vs_toClose := vs_toClose y - {v}, vs_closed := insert v (vs_closed y)\<rparr>)"
| vw_other: "m_active m' = m_active (vs_manager y) \<Longrightarrow> m_opening m' = m_opening (vs_manager y) \<Longrightarrow>
     m_viewerOf m' = m_viewerOf (vs_manager y) \<Longrightarrow> m_clients m' = m_clients (vs_manager y) \<Longrightarrow>
     m_shutdown m' = m_shutdown (vs_manager y) \<Longrightarrow> viewer_step y (y\<lparr>vs_manager := m'\<rparr>)"

definition viewer_init :: "viewerSystem \<Rightarrow> bool" where
  "viewer_init y \<longleftrightarrow> (\<exists>w t d. NewManager w t d = Inr (vs_manager y)) \<and> (\<forall>c. vs_open y c = NotOpening)
     \<and> vs_started y = {} \<and> vs_closed y = {} \<and> vs_ended y = {} \<and> vs_toClose y = {} \<and> vs_openings y = {}"

section \<open>The invariant\<close>

text \<open>The opening attempt and the viewer an \<open>open\<close> call holds.\<close>

fun opening_of :: "openPhase \<Rightarrow> nat option" where
  "opening_of (Reserved o') = Some o'"
| "opening_of (Started o' v) = Some o'"
| "opening_of (Attached o' v) = Some o'"
| "opening_of _ = None"

fun viewer_of :: "openPhase \<Rightarrow> nat option" where
  "viewer_of (Started o' v) = Some v"
| "viewer_of (Attached o' v) = Some v"
| "viewer_of _ = None"

definition held :: "(nat \<Rightarrow> openPhase) \<Rightarrow> nat set" where
  "held f = {v. \<exists>c. viewer_of (f c) = Some v}"

definition actives :: "(nat \<Rightarrow> (nat \<times> nat) option) \<Rightarrow> nat set" where
  "actives a = {v. \<exists>c o'. a c = Some (o', v)}"

text \<open>A viewer is accounted for when it is over, about to be closed, active, or held by an \<open>open\<close> call.\<close>

definition accounted :: "viewerSystem \<Rightarrow> nat \<Rightarrow> bool" where
  "accounted y v \<longleftrightarrow>
     v \<in> vs_closed y \<union> vs_ended y \<union> vs_toClose y \<union> actives (m_active (vs_manager y)) \<union> held (vs_open y)"

lemma held_upd: "held f \<subseteq> set_option (viewer_of (f c)) \<union> held (f(c := p))"
proof
  fix v assume "v \<in> held f"
  then obtain d where "viewer_of (f d) = Some v" by (auto simp: held_def)
  then show "v \<in> set_option (viewer_of (f c)) \<union> held (f(c := p))"
    by (cases "d = c") (auto simp: held_def intro!: exI [of _ d])
qed

lemma held_new: "set_option (viewer_of p) \<subseteq> held (f(c := p))"
  by (auto simp: held_def intro!: exI [of _ c])

lemma actives_upd: "actives a \<subseteq> snd ` set_option (a c) \<union> actives (a(c := x))"
proof
  fix v assume "v \<in> actives a"
  then obtain d o' where d: "a d = Some (o', v)" by (auto simp: actives_def)
  show "v \<in> snd ` set_option (a c) \<union> actives (a(c := x))"
  proof (cases "d = c")
    case True
    then show ?thesis using d by force
  next
    case False
    then have "(a(c := x)) d = Some (o', v)" using d by simp
    then have "v \<in> actives (a(c := x))" unfolding actives_def by blast
    then show ?thesis ..
  qed
qed

lemma actives_new: "snd ` set_option x \<subseteq> actives (a(c := x))"
  by (force simp: actives_def intro!: exI [of _ c])

lemmas sets_upd = held_upd [THEN subsetD] held_new [THEN subsetD] actives_upd [THEN subsetD] actives_new [THEN subsetD]

definition viewer_inv :: "viewerSystem \<Rightarrow> bool" where
  "viewer_inv y \<longleftrightarrow>
     (\<forall>v \<in> vs_started y. accounted y v)
     \<and> (\<forall>c o'. m_opening (vs_manager y) c = Some o' \<longrightarrow> opening_of (vs_open y c) = Some o')
     \<and> (\<forall>c o'. opening_of (vs_open y c) = Some o' \<longrightarrow> o' \<in> vs_openings y)
     \<and> (\<forall>c o'. m_opening (vs_manager y) c = Some o' \<longrightarrow> m_active (vs_manager y) c = None)
     \<and> (\<forall>c c' o'. opening_of (vs_open y c) = Some o' \<and> opening_of (vs_open y c') = Some o' \<longrightarrow> c = c')
     \<and> (m_shutdown (vs_manager y) \<longrightarrow> (\<forall>c. m_active (vs_manager y) c = None))"

lemma viewer_invD:
  assumes "viewer_inv y"
  shows "v \<in> vs_started y \<Longrightarrow> accounted y v"
    and "m_opening (vs_manager y) c = Some o' \<Longrightarrow> opening_of (vs_open y c) = Some o'"
    and "opening_of (vs_open y c) = Some o' \<Longrightarrow> o' \<in> vs_openings y"
    and "m_opening (vs_manager y) c = Some o' \<Longrightarrow> m_active (vs_manager y) c = None"
    and "opening_of (vs_open y c) = Some o' \<Longrightarrow> opening_of (vs_open y c') = Some o' \<Longrightarrow> c = c'"
    and "m_shutdown (vs_manager y) \<Longrightarrow> m_active (vs_manager y) c = None"
  using assms unfolding viewer_inv_def by blast+

lemma viewer_invI:
  assumes "\<And>v. v \<in> vs_started y \<Longrightarrow> accounted y v"
    and "\<And>c o'. m_opening (vs_manager y) c = Some o' \<Longrightarrow> opening_of (vs_open y c) = Some o'"
    and "\<And>c o'. opening_of (vs_open y c) = Some o' \<Longrightarrow> o' \<in> vs_openings y"
    and "\<And>c o'. m_opening (vs_manager y) c = Some o' \<Longrightarrow> m_active (vs_manager y) c = None"
    and "\<And>c c' o'. opening_of (vs_open y c) = Some o' \<Longrightarrow> opening_of (vs_open y c') = Some o' \<Longrightarrow> c = c'"
    and "\<And>c. m_shutdown (vs_manager y) \<Longrightarrow> m_active (vs_manager y) c = None"
  shows "viewer_inv y"
  using assms unfolding viewer_inv_def by blast

lemma detach_inv:
  assumes "viewer_inv y" and "m_active m' = (\<lambda>_. None)" and "m_opening m' = (\<lambda>_. None)"
  shows "viewer_inv (detach_all m' y)"
proof (rule viewer_invI)
  show "accounted (detach_all m' y) v" if "v \<in> vs_started (detach_all m' y)" for v
    using viewer_invD(1) [OF assms(1), of v] that
    by (auto simp: detach_all_def accounted_def detachedViewers_def actives_def)
qed (use viewer_invD(3,5) [OF assms(1)] assms(2,3) in \<open>auto simp: detach_all_def\<close>)

text \<open>The part of the invariant about opening attempts, for a step of one \<open>open\<close> call.\<close>

lemma open_inv:
  assumes i: "viewer_inv y"
    and acc: "\<And>v. v \<in> vs_started y' \<Longrightarrow> accounted y' v"
    and f: "vs_open y' = (vs_open y)(c := p)" and os: "vs_openings y \<subseteq> vs_openings y'"
    and p: "opening_of p = None \<or> opening_of p = opening_of (vs_open y c)
        \<or> (\<exists>o'. opening_of p = Some o' \<and> o' \<notin> vs_openings y \<and> o' \<in> vs_openings y')"
    and o: "\<And>d o'. m_opening (vs_manager y') d = Some o' \<Longrightarrow>
        d = c \<and> opening_of p = Some o' \<or> d \<noteq> c \<and> m_opening (vs_manager y) d = Some o'"
    and a: "\<And>d o'. m_opening (vs_manager y') d = Some o' \<Longrightarrow> m_active (vs_manager y') d = None"
    and s: "\<And>d. m_shutdown (vs_manager y') \<Longrightarrow> m_active (vs_manager y') d = None"
  shows "viewer_inv y'"
proof (rule viewer_invI)
  note D = viewer_invD [OF i]
  show "opening_of (vs_open y' d) = Some o'" if "m_opening (vs_manager y') d = Some o'" for d o'
    using o [OF that] D(2) f by auto
  show "o' \<in> vs_openings y'" if "opening_of (vs_open y' d) = Some o'" for d o'
    using that f p os D(3) by (cases "d = c") auto
  have new: "d = c" if "opening_of (vs_open y d) = Some o'" "opening_of p = Some o'" for d o'
    using p
  proof (elim disjE)
    assume "opening_of p = opening_of (vs_open y c)"
    then show "d = c" using that D(5) by metis
  qed (use that D(3) in auto)
  show "d = d'" if "opening_of (vs_open y' d) = Some o'" "opening_of (vs_open y' d') = Some o'" for d d' o'
    using that unfolding f fun_upd_apply
    by (cases "d = c"; cases "d' = c"; simp) (metis new, metis new, metis D(5))
qed (use acc a s in blast)+

lemma vw_connect_inv:
  assumes i: "viewer_inv y" and vw_connect: "y' = y\<lparr>vs_manager := m', vs_open := (vs_open y)(c := if r = None then Waiting else NotOpening)\<rparr>"
      "vs_open y c = NotOpening"
      "admit c (vs_manager y) = (r, m')"
  shows "viewer_inv y'"
proof -
  from vw_connect have m': "m_active m' = m_active (vs_manager y)" "m_opening m' = m_opening (vs_manager y)"
      "m_shutdown m' = m_shutdown (vs_manager y)" by (auto simp: admit_def Let_def split: if_splits)
  let ?p = "if r = None then Waiting else NotOpening"
  have acc: "accounted y' v" if "v \<in> vs_started y'" for v
    using viewer_invD(1) [OF i, of v] that vw_connect(1,2) m' sets_upd(1) [of v "vs_open y" c ?p]
    by (auto simp: accounted_def)
  have "m_opening (vs_manager y) c = None" using viewer_invD(2) [OF i, of c] vw_connect(2) by (cases "m_opening (vs_manager y) c") auto
  with viewer_invD [OF i] m' show ?thesis
    by (intro open_inv [OF i acc, where p = ?p and c = c]) (auto simp: vw_connect(1))
qed

lemma vw_reserve_inv:
  assumes i: "viewer_inv y" and vw_reserve: "y' = y\<lparr>vs_manager := m', vs_openings := insert o' (vs_openings y), vs_open := (vs_open y)(c := if r = None then Reserved o' else NotOpening)\<rparr>"
      "vs_open y c = Waiting"
      "o' \<notin> vs_openings y"
      "reserve c o' sent (vs_manager y) = (r, m')"
  shows "viewer_inv y'"
proof -
  have m': "m_active m' = m_active (vs_manager y)" "m_shutdown m' = m_shutdown (vs_manager y)"
      "m_opening m' = (if r = None then (m_opening (vs_manager y))(c := Some o') else m_opening (vs_manager y))"
    using vw_reserve(4) by (auto simp: reserve_def split: if_splits option.splits)
  have free: "m_active (vs_manager y) c = None" if "r = None"
    using vw_reserve(4) that by (cases "m_active (vs_manager y) c") (auto simp: reserve_def split: if_splits)
  let ?p = "if r = None then Reserved o' else NotOpening"
  have acc: "accounted y' v" if "v \<in> vs_started y'" for v
    using viewer_invD(1) [OF i, of v] that vw_reserve(1,2) m' sets_upd(1) [of v "vs_open y" c ?p]
    by (auto simp: accounted_def)
  have "m_opening (vs_manager y) c = None" using viewer_invD(2) [OF i, of c] vw_reserve(2) by (cases "m_opening (vs_manager y) c") auto
  with viewer_invD [OF i] m' free vw_reserve(3) show ?thesis
    by (intro open_inv [OF i acc, where p = ?p and c = c]) (auto simp: vw_reserve(1) split: if_splits)
qed

lemma vw_start_inv:
  assumes i: "viewer_inv y" and vw_start: "y' = y\<lparr>vs_started := insert v (vs_started y), vs_open := (vs_open y)(c := Started o' v)\<rparr>"
      "vs_open y c = Reserved o'"
      "v \<notin> vs_started y"
  shows "viewer_inv y'"
proof -
  have acc: "accounted y' u" if "u \<in> vs_started y'" for u
    using viewer_invD(1) [OF i, of u] that vw_start(1,2) sets_upd(1) [of u "vs_open y" c "Started o' v"]
      sets_upd(2) [of v "Started o' v" "vs_open y" c]
    by (auto simp: accounted_def)
  have "m_opening (vs_manager y) c = Some o2 \<Longrightarrow> o2 = o'" for o2 using viewer_invD(2) [OF i, of c o2] vw_start(2) by simp
  with viewer_invD [OF i] vw_start(2) show ?thesis
    by (intro open_inv [OF i acc, where p = "Started o' v" and c = c]) (auto simp: vw_start(1))
qed

lemma vw_start_fails_inv:
  assumes i: "viewer_inv y" and vw_start_fails: "y' = y\<lparr>vs_manager := removeOpening c o' (vs_manager y), vs_open := (vs_open y)(c := NotOpening)\<rparr>"
      "vs_open y c = Reserved o'"
  shows "viewer_inv y'"
proof -
  have acc: "accounted y' u" if "u \<in> vs_started y'" for u
    using viewer_invD(1) [OF i, of u] that vw_start_fails(1,2) sets_upd(1) [of u "vs_open y" c NotOpening]
    by (auto simp: accounted_def removeOpening_def)
  have "m_opening (removeOpening c o' (vs_manager y)) = (m_opening (vs_manager y))(c := None)"
    using viewer_invD(2) [OF i, of c] vw_start_fails(2)
    by (cases "m_opening (vs_manager y) c") (auto simp: removeOpening_def fun_eq_iff)
  with viewer_invD [OF i] vw_start_fails(2) show ?thesis
    by (intro open_inv [OF i acc, where p = NotOpening and c = c])
       (auto simp: vw_start_fails(1) removeOpening_def split: if_splits)
qed

lemma vw_attach_inv:
  assumes i: "viewer_inv y" and vw_attach: "y' = y\<lparr>vs_manager := m', vs_toClose := (if r = None then vs_toClose y else insert v (vs_toClose y)), vs_open := (vs_open y)(c := if r = None then Attached o' v else NotOpening)\<rparr>"
      "vs_open y c = Started o' v"
      "attach c o' v (vs_manager y) = (r, m')"
  shows "viewer_inv y'"
proof -
  have m': "m_active m' = m_active (vs_manager y)" "m_opening m' = m_opening (vs_manager y)"
      "m_shutdown m' = m_shutdown (vs_manager y)" "r = None \<longleftrightarrow> m_opening (vs_manager y) c = Some o'"
    using vw_attach(3) by (auto simp: attach_def split: if_splits)
  let ?p = "if r = None then Attached o' v else NotOpening"
  have acc: "accounted y' u" if "u \<in> vs_started y'" for u
    using viewer_invD(1) [OF i, of u] that vw_attach(1,2) m'(1) sets_upd(1) [of u "vs_open y" c ?p]
      sets_upd(2) [of v ?p "vs_open y" c]
    by (auto simp: accounted_def split: if_splits)
  have "r \<noteq> None \<Longrightarrow> m_opening (vs_manager y) c = None"
    using viewer_invD(2) [OF i, of c] vw_attach(2) m'(4) by (cases "m_opening (vs_manager y) c") auto
  with viewer_invD [OF i] m' vw_attach(2) show ?thesis
    by (intro open_inv [OF i acc, where p = ?p and c = c]) (auto simp: vw_attach(1) split: if_splits)
qed

lemma vw_activate_inv:
  assumes i: "viewer_inv y" and vw_activate: "y' = y\<lparr>vs_manager := m', vs_toClose := (if r = None then vs_toClose y else insert v (vs_toClose y)), vs_open := (vs_open y)(c := NotOpening)\<rparr>"
      "vs_open y c = Attached o' v"
      "activate c o' v (vs_manager y) = (r, m')"
  shows "viewer_inv y'"
proof -
  have o: "m_opening m' = (m_opening (vs_manager y))(c := None)"
    using vw_activate(3) viewer_invD(2) [OF i, of c] vw_activate(2)
    by (cases "m_opening (vs_manager y) c") (auto simp: activate_def Let_def fun_eq_iff split: if_splits)
  have m': "m_shutdown m' = m_shutdown (vs_manager y)"
      "m_active m' = (if r = None then (m_active (vs_manager y))(c := Some (o', v)) else m_active (vs_manager y))"
      "r = None \<Longrightarrow> \<not> m_shutdown (vs_manager y) \<and> m_active (vs_manager y) c = None"
    using vw_activate(3) by (cases "m_active (vs_manager y) c"; auto simp: activate_def Let_def split: if_splits)+
  have acc: "accounted y' u" if "u \<in> vs_started y'" for u
    using viewer_invD(1) [OF i, of u] that vw_activate(1,2) m'(2,3) sets_upd(1) [of u "vs_open y" c NotOpening]
      sets_upd(3) [of u "m_active (vs_manager y)" c "Some (o', v)"]
      sets_upd(4) [of v "Some (o', v)" "m_active (vs_manager y)" c]
    by (auto simp: accounted_def split: if_splits)
  from viewer_invD [OF i] m' o show ?thesis
    by (intro open_inv [OF i acc, where p = NotOpening and c = c]) (auto simp: vw_activate(1) split: if_splits)
qed

lemma vw_close_inv:
  assumes i: "viewer_inv y" and vw_close: "y' = y\<lparr>vs_manager := Close_op c (vs_manager y), vs_toClose := vs_toClose y \<union> closedByClose c (vs_manager y)\<rparr>"
  shows "viewer_inv y'"
proof -
  have acc: "accounted y' u" if "u \<in> vs_started y'" for u
    using viewer_invD(1) [OF i, of u] that sets_upd(3) [of u "m_active (vs_manager y)" c None]
    by (auto simp: vw_close accounted_def Close_op_def closedByClose_def split: option.splits)
  from viewer_invD [OF i] show ?thesis
    by (intro viewer_invI acc) (auto simp: vw_close Close_op_def split: if_splits)
qed

lemma vw_disconnect_inv:
  assumes i: "viewer_inv y" and vw_disconnect: "y' = y\<lparr>vs_manager := Disconnected_op c (vs_manager y), vs_toClose := vs_toClose y \<union> takenViewers c (vs_manager y)\<rparr>"
  shows "viewer_inv y'"
proof -
  have acc: "accounted y' u" if "u \<in> vs_started y'" for u
    using viewer_invD(1) [OF i, of u] that sets_upd(3) [of u "m_active (vs_manager y)" c None]
    by (auto simp: vw_disconnect accounted_def Disconnected_op_def Close_op_def takenViewers_def split: option.splits)
  from viewer_invD [OF i] show ?thesis
    by (intro viewer_invI acc) (auto simp: vw_disconnect Disconnected_op_def Close_op_def split: if_splits)
qed

lemma vw_watch_inv:
  assumes i: "viewer_inv y" and vw_watch: "y' = y\<lparr>vs_manager := watchViewer c v (vs_manager y)\<rparr>"
      "v \<in> vs_ended y"
  shows "viewer_inv y'"
proof -
  have acc: "accounted y' u" if "u \<in> vs_started y'" for u
    using viewer_invD(1) [OF i, of u] that vw_watch(2) sets_upd(3) [of u "m_active (vs_manager y)" c None]
    by (auto simp: vw_watch(1) accounted_def watchViewer_def split: option.splits)
  from viewer_invD [OF i] show ?thesis
    by (intro viewer_invI acc) (auto simp: vw_watch(1) watchViewer_def split: if_splits option.splits)
qed

lemma vw_closed_inv:
  assumes i: "viewer_inv y" and vw_closed: "y' = y\<lparr>vs_toClose := vs_toClose y - {v}, vs_closed := insert v (vs_closed y)\<rparr>"
      "v \<in> vs_toClose y"
  shows "viewer_inv y'"
proof -
  have acc: "accounted y' u" if "u \<in> vs_started y'" for u
    using viewer_invD(1) [OF i, of u] that by (auto simp: vw_closed(1) accounted_def)
  from viewer_invD [OF i] show ?thesis by (intro viewer_invI acc) (auto simp: vw_closed(1))
qed

lemma viewer_step_inv:
  assumes i: "viewer_inv y" and st: "viewer_step y y'"
  shows "viewer_inv y'"
  using st
proof cases
  case (vw_connect c r m')
  then show ?thesis by (rule vw_connect_inv [OF i])
next
  case (vw_reserve c o' sent r m')
  then show ?thesis by (rule vw_reserve_inv [OF i])
next
  case (vw_start c o' v)
  then show ?thesis by (rule vw_start_inv [OF i])
next
  case (vw_start_fails c o')
  then show ?thesis by (rule vw_start_fails_inv [OF i])
next
  case (vw_attach c o' v r m')
  then show ?thesis by (rule vw_attach_inv [OF i])
next
  case (vw_activate c o' v r m')
  then show ?thesis by (rule vw_activate_inv [OF i])
next
  case (vw_close c)
  then show ?thesis by (rule vw_close_inv [OF i])
next
  case (vw_disconnect c)
  then show ?thesis by (rule vw_disconnect_inv [OF i])
next
  case (vw_rotate secret pairingURL qr)
  show ?thesis unfolding vw_rotate(1)
    by (rule detach_inv [OF i]) (simp_all add: commitRotate_def detachClientsLocked_def)
next
  case (vw_tunnel t ord closes sink err)
  show ?thesis unfolding vw_tunnel(1)
    by (rule detach_inv [OF i])
       (use vw_tunnel in \<open>simp_all add: watchTunnel_def clearLocked_def detachClientsLocked_def Let_def split: prod.splits\<close>)
next
  case (vw_shutdown ord closes)
  show ?thesis unfolding vw_shutdown(1)
    by (rule detach_inv [OF i])
       (use vw_shutdown in \<open>simp_all add: Shutdown_op_def finishShutdown_def clearLocked_def detachClientsLocked_def Let_def split: prod.splits\<close>)
next
  case (vw_watch v c)
  then show ?thesis by (rule vw_watch_inv [OF i])
next
  case (vw_closed v)
  then show ?thesis by (rule vw_closed_inv [OF i])
qed (use viewer_invD [OF i] in \<open>auto simp: accounted_def intro!: viewer_invI\<close>)

interpretation viewers: invariant_system viewer_init viewer_step viewer_inv
proof unfold_locales
  show "viewer_inv y" if "viewer_init y" for y
    using that by (auto simp: viewer_init_def NewManager_fields intro!: viewer_invI)
qed (rule viewer_step_inv)

text \<open>C9: No viewer process is forgotten: whatever interleaving of opening, closing, disconnecting,
  rotating, tunnel failures and shutdown there was, every viewer that was started has been closed, has
  ended, is about to be closed by somebody, is the active viewer of a client or is in the hands of an
  \<open>open\<close> call that is still running; a client never has both an active and an opening viewer.\<close>

theorem no_viewer_leaked:
  assumes "reachable viewer_init viewer_step y" and "v \<in> vs_started y"
  shows "accounted y v \<and> (\<forall>c. m_active (vs_manager y) c = None \<or> m_opening (vs_manager y) c = None)"
  using viewers.reachable_inv [OF assms(1)] assms(2) unfolding viewer_inv_def by (metis not_None_eq)

text \<open>C29: After \<open>Shutdown\<close>, when the \<open>open\<close> calls that were running have returned and the viewers that
  were taken over have been closed, every viewer ever started has been closed or has ended, and
  there is no opening attempt left.\<close>

theorem shutdown_closes_viewers:
  assumes "reachable viewer_init viewer_step y" and "m_shutdown (vs_manager y)"
    and "\<forall>c. vs_open y c = NotOpening \<or> vs_open y c = Waiting" and "vs_toClose y = {}"
  shows "vs_started y \<subseteq> vs_closed y \<union> vs_ended y \<and> (\<forall>c. m_active (vs_manager y) c = None \<and> m_opening (vs_manager y) c = None)"
proof -
  have i: "viewer_inv y" using assms(1) by (rule viewers.reachable_inv)
  have n: "viewer_of (vs_open y c) = None" "opening_of (vs_open y c) = None" for c
    using assms(3) by (metis viewer_of.simps(3,4), metis opening_of.simps(4,5))
  show ?thesis
    using viewer_invD(1) [OF i] viewer_invD(2) [OF i] viewer_invD(6) [OF i assms(2)] n assms(4)
    by (auto simp: accounted_def actives_def held_def) (metis not_None_eq)
qed


section \<open>An example\<close>

text \<open>A client connects and a viewer is started for it; the mirror is stopped before it is attached.\<close>

definition demo_idle :: viewerSystem where
  "demo_idle = \<lparr>vs_manager = demo_manager, vs_open = (\<lambda>_. NotOpening), vs_started = {}, vs_closed = {}, vs_ended = {},
     vs_toClose = {}, vs_openings = {}\<rparr>"

definition demo_reserved :: Manager where
  "demo_reserved = demo_manager\<lparr>m_state := StateReady, m_clients := {7}, m_viewerOpen := {7}, m_opening := (\<lambda>_. None)(7 := Some 5),
     m_viewerOf := (m_viewerOf demo_manager)(5 := None)\<rparr>"

definition demo_opening :: viewerSystem where
  "demo_opening = demo_idle\<lparr>vs_manager := demo_reserved, vs_openings := {5}, vs_started := {9}, vs_open := (\<lambda>_. NotOpening)(7 := Started 5 9)\<rparr>"

lemma demo_opening_reachable: "reachable viewer_init viewer_step demo_opening"
proof -
  let ?m = "demo_manager\<lparr>m_state := StateReady\<rparr>"
  let ?m2 = "?m\<lparr>m_clients := {7}, m_viewerOpen := {7}\<rparr>"
  have "viewer_init demo_idle" using demo_manager_new by (auto simp: viewer_init_def demo_idle_def)
  then have "reachable viewer_init viewer_step demo_idle" by (rule reach_init)
  then have "reachable viewer_init viewer_step (demo_idle\<lparr>vs_manager := ?m\<rparr>)"
    by (rule reach_step) (rule vw_other; simp add: demo_idle_def)
  then have "reachable viewer_init viewer_step (demo_idle\<lparr>vs_manager := ?m2, vs_open := (\<lambda>_. NotOpening)(7 := Waiting)\<rparr>)"
    by (rule reach_step) (use vw_connect [of "demo_idle\<lparr>vs_manager := ?m\<rparr>" 7 None ?m2] in
         \<open>simp add: demo_idle_def admit_def demo_manager_fields\<close>)
  then have "reachable viewer_init viewer_step (demo_idle\<lparr>vs_manager := demo_reserved, vs_openings := {5},
      vs_open := (\<lambda>_. NotOpening)(7 := Reserved 5)\<rparr>)"
    by (rule reach_step)
       (use vw_reserve [of "demo_idle\<lparr>vs_manager := ?m2, vs_open := (\<lambda>_. NotOpening)(7 := Waiting)\<rparr>" 7 5 None None demo_reserved] in
         \<open>simp add: demo_idle_def reserve_def demo_reserved_def demo_manager_fields\<close>)
  then show ?thesis
    by (rule reach_step)
       (use vw_start [of "demo_idle\<lparr>vs_manager := demo_reserved, vs_openings := {5}, vs_open := (\<lambda>_. NotOpening)(7 := Reserved 5)\<rparr>" 7 5 9] in
         \<open>simp add: demo_idle_def demo_opening_def\<close>)
qed

theorem no_viewer_leaked_witness:
  "9 \<in> vs_started demo_opening \<and> accounted demo_opening 9"
  using no_viewer_leaked [OF demo_opening_reachable, of 9] by (simp add: demo_opening_def)

definition demo_stopped :: Manager where
  "demo_stopped = fst (snd (Shutdown_op sorted_list_of_set (\<lambda>_. None) demo_reserved))"

lemma demo_stopped_fields:
  "m_opening demo_stopped = (\<lambda>_. None)" "m_active demo_stopped = (\<lambda>_. None)" "m_shutdown demo_stopped"
  by (simp_all add: demo_stopped_def Shutdown_op_def finishShutdown_def clearLocked_def detachClientsLocked_def Let_def
      demo_reserved_def demo_manager_fields split: prod.splits)

definition demo_closed :: viewerSystem where
  "demo_closed = demo_opening\<lparr>vs_manager := demo_stopped, vs_open := (\<lambda>_. NotOpening), vs_closed := {9}\<rparr>"

lemma demo_closed_reachable: "reachable viewer_init viewer_step demo_closed"
proof -
  have n: "detachedViewers demo_reserved = {}"
    by (auto simp: detachedViewers_def demo_reserved_def demo_manager_fields split: if_splits)
  have d: "\<not> m_shutdown demo_reserved" by (simp add: demo_reserved_def demo_manager_fields)
  have e: "(\<lambda>_. NotOpening)(7 := NotOpening) = (\<lambda>_. NotOpening)" by (simp add: fun_eq_iff)
  let ?a = "demo_opening\<lparr>vs_manager := demo_stopped\<rparr>"
  let ?b = "?a\<lparr>vs_open := (\<lambda>_. NotOpening), vs_toClose := {9}\<rparr>"
  have "reachable viewer_init viewer_step ?a"
    by (rule reach_step [OF demo_opening_reachable])
       (use vw_shutdown [of demo_opening sorted_list_of_set "\<lambda>_. None"] in
         \<open>simp add: detach_all_def demo_opening_def demo_idle_def n d demo_stopped_def\<close>)
  then have "reachable viewer_init viewer_step ?b"
    by (rule reach_step)
       (use vw_attach [of ?a 7 5 9 "Some (Msg ''viewer opening was canceled'')" demo_stopped] in
         \<open>simp add: attach_def demo_stopped_fields demo_opening_def demo_idle_def e\<close>)
  then show ?thesis
    by (rule reach_step) (use vw_closed [of 9 ?b] in \<open>simp add: demo_closed_def demo_opening_def demo_idle_def\<close>)
qed

theorem shutdown_closes_viewers_witness:
  "vs_started demo_closed = {9} \<and> vs_started demo_closed \<subseteq> vs_closed demo_closed \<union> vs_ended demo_closed"
  using shutdown_closes_viewers [OF demo_closed_reachable]
  by (simp add: demo_closed_def demo_opening_def demo_idle_def demo_stopped_fields)

end
