(* ===== verification/Manager_Lifecycle.thy ===== *)
theory Manager_Lifecycle
  imports Mirror_Manager
begin

text \<open>
  The life of a manager: any sequence of starts, rotations, tunnel failures and shutdowns. These
  operations hold the operation lock \<open>opMu\<close> and so come one after the other; only the first part of
  \<open>Shutdown\<close> and the handling of clients come in between. The log holds every call on servers and
  tunnels, in order.
\<close>

section \<open>What a log of calls leaves open\<close>

definition started_servers :: "action list \<Rightarrow> nat set" where
  "started_servers as = {i. \<exists>s. StartServer i s \<in> set as}"

definition started_tunnels :: "action list \<Rightarrow> nat set" where
  "started_tunnels as = {t. \<exists>i. StartTunnelFor t i \<in> set as}"

definition open_servers :: "action list \<Rightarrow> nat set" where
  "open_servers as = {i \<in> started_servers as. CloseServer i \<notin> set as}"

definition open_tunnels :: "action list \<Rightarrow> nat set" where
  "open_tunnels as = {t \<in> started_tunnels as. CloseTunnel t \<notin> set as}"

text \<open>The secret a server checks: the last one it was given.\<close>

fun given_secret :: "nat \<Rightarrow> action \<Rightarrow> Secret option \<Rightarrow> Secret option" where
  "given_secret i (StartServer j s) x = (if j = i then Some s else x)"
| "given_secret i (SetSecretOf j s) x = (if j = i then Some s else x)"
| "given_secret i _ x = x"

definition server_secret :: "nat \<Rightarrow> action list \<Rightarrow> Secret option" where
  "server_secret i as = fold (given_secret i) as None"

lemmas log_defs = open_servers_def open_tunnels_def started_servers_def started_tunnels_def

lemma fold_given_other:
  assumes "\<forall>a \<in> set as. \<forall>s. a \<noteq> StartServer i s \<and> a \<noteq> SetSecretOf i s"
  shows "fold (given_secret i) as x = x"
  using assms
proof (induction as arbitrary: x)
  case (Cons a as)
  then show ?case by (cases a) auto
qed simp

section \<open>Steps\<close>

record lifecycle =
  lc_manager :: Manager
  lc_log :: "action list"

text \<open>What the handling of clients leaves as it is.\<close>

definition same_resources :: "Manager \<Rightarrow> Manager \<Rightarrow> bool" where
  "same_resources m m' \<longleftrightarrow> m_server m' = m_server m \<and> m_tunnel m' = m_tunnel m \<and> m_secret m' = m_secret m
     \<and> m_state m' = m_state m \<and> m_publicURL m' = m_publicURL m \<and> m_pairingURL m' = m_pairingURL m
     \<and> m_shutdown m' = m_shutdown m"

text \<open>Servers and tunnels are new objects.\<close>

definition fresh_resources :: "startEnv \<Rightarrow> action list \<Rightarrow> bool" where
  "fresh_resources env log \<longleftrightarrow>
     (\<forall>i. se_server env = Inr i \<longrightarrow> i \<notin> started_servers log \<and> CloseServer i \<notin> set log)
     \<and> (\<forall>t url. se_tunnel env = Inr (t, url) \<longrightarrow> t \<notin> started_tunnels log \<and> CloseTunnel t \<notin> set log)"

inductive lifecycle_step :: "linkLib \<Rightarrow> lifecycle \<Rightarrow> lifecycle \<Rightarrow> bool" for lib where
  lc_start: "fresh_resources env (lc_log y) \<Longrightarrow> start lib env (lc_manager y) = (r, m', as) \<Longrightarrow>
     lifecycle_step lib y \<lparr>lc_manager = m', lc_log = lc_log y @ as\<rparr>"
| lc_rotate: "\<forall>m. same_resources m (re_others env m) \<Longrightarrow> Rotate ord lib env (lc_manager y) = (r, m', as) \<Longrightarrow>
     lifecycle_step lib y \<lparr>lc_manager = m', lc_log = lc_log y @ as\<rparr>"
| lc_ask: "lifecycle_step lib y (y\<lparr>lc_manager := askShutdown (lc_manager y)\<rparr>)"
| lc_finish: "m_shutdownAsked (lc_manager y) \<Longrightarrow> finishShutdown ord closes (lc_manager y) = (r, m', as) \<Longrightarrow>
     lifecycle_step lib y \<lparr>lc_manager = m', lc_log = lc_log y @ as\<rparr>"
| lc_tunnel: "watchTunnel ord closes sink t err (lc_manager y) = (m', as) \<Longrightarrow>
     lifecycle_step lib y \<lparr>lc_manager = m', lc_log = lc_log y @ as\<rparr>"
| lc_clients: "same_resources (lc_manager y) m' \<Longrightarrow> lifecycle_step lib y (y\<lparr>lc_manager := m'\<rparr>)"

definition lifecycle_init :: "lifecycle \<Rightarrow> bool" where
  "lifecycle_init y \<longleftrightarrow> lc_log y = [] \<and> (\<exists>w t d. NewManager w t d = Inr (lc_manager y))"

section \<open>The invariant\<close>

definition lifecycle_inv :: "linkLib \<Rightarrow> lifecycle \<Rightarrow> bool" where
  "lifecycle_inv lib y \<longleftrightarrow>
     (let m = lc_manager y; log = lc_log y in
      open_servers log = set_option (m_server m) \<and> open_tunnels log = set_option (m_tunnel m)
      \<and> (case m_server m of
           None \<Rightarrow> m_tunnel m = None \<and> m_secret m = None \<and> m_state m \<noteq> StateReady
         | Some i \<Rightarrow> m_tunnel m \<noteq> None \<and> m_state m = StateReady \<and> \<not> m_shutdown m
             \<and> (\<exists>s. m_secret m = Some s \<and> server_secret i log = Some s \<and> linkOf lib (m_publicURL m) s = Inr (m_pairingURL m)))
      \<and> m_state m \<noteq> StateStarting)"

text \<open>What one start leaves: nothing after a failure, one server and one tunnel after a success.\<close>

lemma start_outcome:
  assumes "start lib env m = (r, m', as)" and "m_state m \<noteq> StateReady"
  shows "case r of
      Some e \<Rightarrow> m_server m' = m_server m \<and> m_tunnel m' = m_tunnel m \<and> m_secret m' = m_secret m
        \<and> m_state m' \<noteq> StateReady \<and> (m_state m \<noteq> StateStarting \<longrightarrow> m_state m' \<noteq> StateStarting)
        \<and> open_servers as = {} \<and> open_tunnels as = {}
        \<and> (\<forall>i s. StartServer i s \<in> set as \<or> CloseServer i \<in> set as \<longrightarrow> se_server env = Inr i)
        \<and> (\<forall>t i. StartTunnelFor t i \<in> set as \<or> CloseTunnel t \<in> set as \<longrightarrow> (\<exists>url. se_tunnel env = Inr (t, url)))
    | None \<Rightarrow> \<exists>i t s host. se_server env = Inr i \<and> se_tunnel env = Inr (t, m_publicURL m')
        \<and> as = [StartServer i s, StartTunnelFor t i, SetPublicHostOf i host]
        \<and> m_server m' = Some i \<and> m_tunnel m' = Some t \<and> m_secret m' = Some s \<and> m_state m' = StateReady \<and> \<not> m_shutdown m'
        \<and> linkOf lib (m_publicURL m') s = Inr (m_pairingURL m')"
proof (cases "beginStart m")
  case (Inl rm)
  then show ?thesis
    using assms by (auto simp: start_def beginStart_def log_defs split: option.splits if_splits)
next
  case (Inr m1)
  have m1: "m_server m1 = m_server m" "m_tunnel m1 = m_tunnel m" "m_secret m1 = m_secret m" "\<not> m_shutdown m1"
    using Inr by (auto simp: beginStart_def split: option.splits if_splits)
  show ?thesis
    using assms(1) Inr m1
    by (auto simp: start_def Let_def commitStart_def log_defs
        dest!: fails_result split: sum.splits prod.splits if_splits)
qed

lemma open_append:
  "open_servers (log @ as) = {i \<in> open_servers log. CloseServer i \<notin> set as} \<union> {i \<in> open_servers as. CloseServer i \<notin> set log}"
  "open_tunnels (log @ as) = {t \<in> open_tunnels log. CloseTunnel t \<notin> set as} \<union> {t \<in> open_tunnels as. CloseTunnel t \<notin> set log}"
  by (auto simp: log_defs)

lemma no_starts:
  "open_servers (map CloseViewer vs @ CleanupFactory # map CloseClient cs @ map CloseTunnel ts @ map CloseServer ss) = {}"
  "open_tunnels (map CloseViewer vs @ CleanupFactory # map CloseClient cs @ map CloseTunnel ts @ map CloseServer ss) = {}"
  by (auto simp: log_defs)

text \<open>Clearing the manager closes the server and the tunnel.\<close>

lemma clear_inv:
  assumes i: "lifecycle_inv lib y" and c: "managerCleanup_close closes c = (err, as)"
    and "mc_server c = m_server (lc_manager y)" and "mc_tunnel c = m_tunnel (lc_manager y)"
    and "m_server m' = None" and "m_tunnel m' = None" and "m_secret m' = None" and "m_state m' \<in> {StateStopped, StateFailed}"
  shows "lifecycle_inv lib \<lparr>lc_manager = m', lc_log = lc_log y @ as\<rparr>"
proof -
  have as: "as = map CloseViewer (mc_viewers c) @ CleanupFactory # map CloseClient (mc_clients c)
      @ map CloseTunnel (case mc_tunnel c of None \<Rightarrow> [] | Some t \<Rightarrow> [t])
      @ map CloseServer (case mc_server c of None \<Rightarrow> [] | Some s \<Rightarrow> [s])"
    using managerCleanup_close_all [OF c] by simp
  have "open_servers as = {}" "open_tunnels as = {}" unfolding as by (rule no_starts)+
  moreover have "open_servers (lc_log y) \<subseteq> {i. CloseServer i \<in> set as}" "open_tunnels (lc_log y) \<subseteq> {t. CloseTunnel t \<in> set as}"
    using i assms(3,4) unfolding as by (auto simp: lifecycle_inv_def Let_def split: option.splits)
  ultimately have "open_servers (lc_log y @ as) = {}" "open_tunnels (lc_log y @ as) = {}"
    unfolding open_append by auto
  then show ?thesis using assms(5-8) by (auto simp: lifecycle_inv_def)
qed

lemma lifecycle_invD:
  assumes "lifecycle_inv lib y"
  shows "m_server (lc_manager y) = None \<longleftrightarrow> m_state (lc_manager y) \<noteq> StateReady"
    and "open_servers (lc_log y) = set_option (m_server (lc_manager y))"
    and "open_tunnels (lc_log y) = set_option (m_tunnel (lc_manager y))"
  using assms by (auto simp: lifecycle_inv_def Let_def split: option.splits)

lemma same_inv:
  assumes "lifecycle_inv lib y" and "same_resources (lc_manager y) m'"
  shows "lifecycle_inv lib \<lparr>lc_manager = m', lc_log = lc_log y\<rparr>"
  using assms by (simp add: lifecycle_inv_def same_resources_def Let_def cong: option.case_cong)

lemma same_resources_publish [simp]: "same_resources m m" "same_resources m (publish m)"
  by (simp_all add: same_resources_def)

lemma start_inv:
  assumes i: "lifecycle_inv lib y" and f: "fresh_resources env (lc_log y)" and st: "start lib env (lc_manager y) = (r, m', as)"
  shows "lifecycle_inv lib \<lparr>lc_manager = m', lc_log = lc_log y @ as\<rparr>"
proof (cases "m_state (lc_manager y) = StateReady")
  case True
  then have "as = []" "m' = lc_manager y \<or> m' = publish (lc_manager y)"
    using st by (auto simp: start_def beginStart_def split: option.splits if_splits)
  then show ?thesis using same_inv [OF i] by auto
next
  case False
  then have n: "m_server (lc_manager y) = None" "m_tunnel (lc_manager y) = None" "m_secret (lc_manager y) = None"
      "m_state (lc_manager y) \<noteq> StateStarting" "open_servers (lc_log y) = {}" "open_tunnels (lc_log y) = {}"
    using i by (auto simp: lifecycle_inv_def Let_def split: option.splits)
  note o = start_outcome [OF st False]
  show ?thesis
  proof (cases r)
    case (Some e)
    then show ?thesis using o n by (simp add: lifecycle_inv_def open_append)
  next
    case None
    then obtain j t s host where o: "se_server env = Inr j" "se_tunnel env = Inr (t, m_publicURL m')"
        "as = [StartServer j s, StartTunnelFor t j, SetPublicHostOf j host]"
        "m_server m' = Some j" "m_tunnel m' = Some t" "m_secret m' = Some s" "m_state m' = StateReady" "\<not> m_shutdown m'"
        "linkOf lib (m_publicURL m') s = Inr (m_pairingURL m')"
      using o by auto
    have "open_servers as = {j}" "open_tunnels as = {t}" unfolding o(3) by (auto simp: log_defs)
    then have "open_servers (lc_log y @ as) = {j}" "open_tunnels (lc_log y @ as) = {t}"
      using f o(1,2) n(5,6) unfolding open_append by (auto simp: fresh_resources_def)
    then show ?thesis using o by (simp add: lifecycle_inv_def server_secret_def)
  qed
qed

lemma Rotate_keeps_inv:
  assumes i: "lifecycle_inv lib y" and ot: "\<forall>m. same_resources m (re_others env m)"
    and ro: "Rotate ord lib env (lc_manager y) = (r, m', as)"
  shows "lifecycle_inv lib \<lparr>lc_manager = m', lc_log = lc_log y @ as\<rparr>"
proof (cases r)
  case (Some e)
  then have "as = []" "m' = lc_manager y \<or> m' = re_others env (lc_manager y)"
    using ro by (auto simp: Rotate_def Let_def split: if_splits sum.splits option.splits prod.splits)
  then show ?thesis using same_inv [OF i] ot by auto
next
  case None
  let ?m = "re_others env (lc_manager y)"
  have same: "same_resources (lc_manager y) ?m" using ot ..
  then obtain j s where j: "m_server ?m = Some j" "m_state ?m = StateReady"
      "as = [SetSecretOf j s] @ map CloseViewer (ord (detachedViewers ?m)) @ [CleanupFactory]"
      "m_server m' = Some j" "m_tunnel m' = m_tunnel ?m" "m_secret m' = Some s" "m_state m' = StateReady"
      "m_shutdown m' = m_shutdown ?m" "linkOf lib (m_publicURL m') s = Inr (m_pairingURL m')"
    using ro None
    by (auto simp: Rotate_def Let_def commitRotate_def detachClientsLocked_def closeViewers_def same_resources_def
        split: if_splits sum.splits option.splits)
  have "open_servers (lc_log y @ as) = open_servers (lc_log y)" "open_tunnels (lc_log y @ as) = open_tunnels (lc_log y)"
    unfolding j(3) by (auto simp: log_defs)
  moreover have "server_secret j (lc_log y @ as) = Some s"
    unfolding server_secret_def fold_append o_apply j(3) by (simp add: fold_given_other)
  moreover have "m_server (lc_manager y) = Some j" "m_tunnel m' = m_tunnel (lc_manager y)" "m_shutdown m' = m_shutdown (lc_manager y)"
    using j(1,5,8) same by (simp_all add: same_resources_def)
  ultimately show ?thesis using i j(4,6,7,9) by (simp add: lifecycle_inv_def Let_def)
qed

lemma lifecycle_step_inv:
  assumes i: "lifecycle_inv lib y" and st: "lifecycle_step lib y y'"
  shows "lifecycle_inv lib y'"
  using st
proof cases
  case (lc_start env r m' as)
  then show ?thesis using start_inv [OF i] by simp
next
  case (lc_rotate env ord r m' as)
  then show ?thesis using Rotate_keeps_inv [OF i] by simp
next
  case (lc_finish ord closes r m' as)
  show ?thesis
  proof (cases "m_shutdown (lc_manager y)")
    case True
    then show ?thesis using lc_finish same_inv [OF i] by (auto simp: finishShutdown_def)
  next
    case False
    let ?c = "fst (clearLocked ord StateStopped [] ((lc_manager y)\<lparr>m_shutdown := True\<rparr>))"
    have "managerCleanup_close closes ?c = (r, as)" "m_server m' = None" "m_tunnel m' = None" "m_secret m' = None"
        "m_state m' \<in> {StateStopped, StateFailed}"
      using False lc_finish(3) by (auto simp: finishShutdown_def clearLocked_def Let_def split: prod.splits)
    then show ?thesis unfolding lc_finish(1) by (intro clear_inv [OF i]) (auto simp: clearLocked_def)
  qed
next
  case (lc_tunnel ord closes sink t err m' as)
  show ?thesis
  proof (cases "m_tunnel (lc_manager y) \<noteq> Some t \<or> m_shutdown (lc_manager y)")
    case True
    then show ?thesis using lc_tunnel same_inv [OF i] by (auto simp: watchTunnel_def)
  next
    case False
    let ?c = "fst (clearLocked ord StateFailed x (lc_manager y))"
    obtain e where "managerCleanup_close closes ?c = (e, as)" "m_server m' = None" "m_tunnel m' = None" "m_secret m' = None"
        "m_state m' \<in> {StateStopped, StateFailed}"
      using False lc_tunnel(2) by (auto simp: watchTunnel_def clearLocked_def Let_def split: prod.splits)
    then show ?thesis unfolding lc_tunnel(1) by (intro clear_inv [OF i]) (auto simp: clearLocked_def)
  qed
next
  case lc_ask
  have "same_resources (lc_manager y) (askShutdown (lc_manager y))" by (simp add: same_resources_def askShutdown_def)
  then show ?thesis using same_inv [OF i] lc_ask by (cases y) simp
next
  case (lc_clients m')
  then show ?thesis using same_inv [OF i] by (cases y) simp
qed

lemma new_inv: "NewManager w t d = Inr m \<Longrightarrow> lifecycle_inv lib \<lparr>lc_manager = m, lc_log = []\<rparr>"
  by (simp add: lifecycle_inv_def NewManager_fields log_defs)

interpretation lifecycle: invariant_system lifecycle_init "lifecycle_step lib" "lifecycle_inv lib" for lib
proof unfold_locales
  show "lifecycle_inv lib y" if "lifecycle_init y" for y
    using that new_inv by (cases y) (auto simp: lifecycle_init_def)
qed (rule lifecycle_step_inv)

text \<open>C7: Whatever starts, rotations, tunnel failures and shutdowns there were and whichever of them
  failed, the servers and tunnels that are running are exactly the ones the manager holds; it
  holds both or none, both exactly in the ready state; the secret its server checks is the one the
  manager has and the one in the pairing link it shows; and after a shutdown nothing runs.\<close>

theorem manager_owns_resources:
  assumes "reachable lifecycle_init (lifecycle_step lib) y"
  shows "open_servers (lc_log y) = set_option (m_server (lc_manager y))
    \<and> open_tunnels (lc_log y) = set_option (m_tunnel (lc_manager y))
    \<and> (m_state (lc_manager y) = StateReady \<longleftrightarrow> m_server (lc_manager y) \<noteq> None)
    \<and> (m_state (lc_manager y) = StateReady \<longleftrightarrow> m_tunnel (lc_manager y) \<noteq> None)
    \<and> (\<forall>i. m_server (lc_manager y) = Some i \<longrightarrow>
         (\<exists>s. m_secret (lc_manager y) = Some s \<and> server_secret i (lc_log y) = Some s
            \<and> linkOf lib (m_publicURL (lc_manager y)) s = Inr (m_pairingURL (lc_manager y))))
    \<and> (m_shutdown (lc_manager y) \<longrightarrow> open_servers (lc_log y) = {} \<and> open_tunnels (lc_log y) = {})"
  using lifecycle.reachable_inv [OF assms]
  by (cases "m_server (lc_manager y)") (auto simp: lifecycle_inv_def Let_def)

theorem manager_owns_resources_witness:
  "\<exists>y. reachable lifecycle_init (lifecycle_step demo_lib) y \<and> open_servers (lc_log y) = {1} \<and> open_tunnels (lc_log y) = {2}
     \<and> server_secret 1 (lc_log y) = m_secret (lc_manager y)"
proof -
  define y where "y = \<lparr>lc_manager = demo_manager, lc_log = []\<rparr>"
  define as where "as = [StartServer 1 ready_secret, StartTunnelFor 2 1, SetPublicHostOf 1 ''a-b.trycloudflare.com'']"
  define y' where "y' = \<lparr>lc_manager = demo_ready, lc_log = lc_log y @ as\<rparr>"
  have 0: "reachable lifecycle_init (lifecycle_step demo_lib) y"
    by (rule reach_init) (use demo_manager_new in \<open>auto simp: lifecycle_init_def y_def\<close>)
  have "fresh_resources ready_start (lc_log y)" by (simp add: fresh_resources_def log_defs y_def)
  moreover have "start demo_lib ready_start (lc_manager y) = (None, demo_ready, as)"
    unfolding y_def as_def lifecycle.simps by (rule demo_start_result)
  ultimately have "lifecycle_step demo_lib y y'" unfolding y'_def by (rule lc_start)
  with 0 have r: "reachable lifecycle_init (lifecycle_step demo_lib) y'" by (rule reach_step)
  have "m_server (lc_manager y') = Some 1" "m_tunnel (lc_manager y') = Some 2" by (simp_all add: y'_def demo_ready_fields)
  with manager_owns_resources [OF r] r show ?thesis by (intro exI [of _ y']) auto
qed

end
