(* ===== verification/Spec2Isabelle.thy ===== *)
theory Spec2Isabelle
  imports Share_Service Server_Lifecycle Control_Client Diagnostics_Portable Cli_Commands Viewer_Process
    Manager_Viewers Manager_Lifecycle Mirror_Pairing Instance_Artifacts Control_Protocol Tmux_Server
begin

text \<open>
  \<^bold>\<open>Wrap\<close> shows one tmux window in a browser. This is a verification library for its Go sources under
  \<open>src/\<close>. It imports every other theory; each of them opens with a text that says what it models.

  \<^bold>\<open>The program.\<close> The command \<open>wrap\<close> (\<open>cmd/wrap\<close>) finds or creates a tmux window (\<open>internal/target\<close>,
  \<open>internal/tmux\<close>), chooses a name and starts a detached worker process (\<open>internal/share/process.go\<close>). The
  worker (\<open>internal/share/service.go\<close>) takes the lease of the instance and publishes a record in the store
  (\<open>internal/instance\<close>), creates a helper session that links the window, starts the mirror
  (\<open>internal/mirror/manager.go\<close>) and serves control requests on a Unix socket (\<open>internal/control\<close>). The mirror is
  a local HTTP and WebSocket server (\<open>server.go\<close>), a quick tunnel to it (\<open>tunnel.go\<close>), a pairing link with a
  secret in its fragment (\<open>pairing.go\<close>), and for every browser an authenticated encrypted connection
  (\<open>client.go\<close>, \<open>cipher.go\<close>, \<open>protocol.go\<close>) to a viewer, a tmux client in a pseudo terminal (\<open>viewer.go\<close>).
  A log (\<open>diagnostics.go\<close>) records what happens. Later commands list, show, regenerate and kill
  instances over the store and the control sockets, and the doctor inspects the state.

  \<^bold>\<open>Base theories.\<close> \<open>Wrap_Prelude\<close>: errors, byte strings, the effect type \<open>('w, 'a) io\<close> with its
  combinators and the collection \<open>io_simps\<close>, reachability and the locale \<open>invariant_system\<close>, which every
  state machine below interprets. \<open>Go_Unicode\<close>, \<open>Go_Paths\<close>, \<open>Go_Base64\<close>: the functions of Go's library that
  the sources call. \<open>Quoting\<close>: the contract of command quoting (locale \<open>word_quoting\<close>, interpreted by tmux's
  and the shell's quoting). \<open>Bounded_Tail\<close>: the contract of a writer that keeps the last bytes (locale
  \<open>tail_writer\<close>, interpreted by both writers of the program).

  \<^bold>\<open>tmux.\<close> \<open>Tmux_Syntax\<close> and \<open>Tmux_Server\<close> (\<open>tmux.go\<close>): argument lists, quoting, guarded commands,
  versions, every operation of \<open>Server\<close>. Command words and format literals are read back by
  reference lexers as what was meant. \<open>Target_Model\<close> (\<open>target.go\<close>, \<open>helper.go\<close>, \<open>create.go\<close>): what tmux prints
  is parsed back exactly, and a helper session that cannot be completed is killed.

  \<^bold>\<open>Instances.\<close> \<open>Instance_Names\<close> (\<open>model.go\<close>, \<open>name.go\<close>), \<open>Instance_Files\<close> (a file system with locks and a
  schedule of faults), \<open>Instance_Store\<close> and \<open>Instance_Artifacts\<close> (\<open>store.go\<close>): every operation on every
  branch. \<open>Instance_Invariant\<close>: whatever processes run and whatever fails, records have different IDs, names
  and windows; pruning spares what is alive.

  \<^bold>\<open>Mirror.\<close> \<open>Mirror_Protocol\<close>, \<open>Mirror_Cipher\<close>: frames, nonces at their width of 64 bits, no nonce twice, and only
  a prefix of what was sealed is ever accepted. \<open>Mirror_Client\<close> (the bounded queue, locale \<open>closing_queue\<close>),
  \<open>Mirror_Handshake\<close>, \<open>Mirror_Session\<close>: authentication, the interleaving of a client's goroutines, exactly one
  result for every close frame, input only from the paired browser. \<open>Mirror_HTTP\<close>, \<open>Mirror_Server\<close>,
  \<open>Server_Lifecycle\<close>: routing and headers, concurrent handlers with their slots, rotation of the secret, start
  and close of the server; after a close without error nothing runs, and a close call can always end.
  \<open>Mirror_Diagnostics\<close>, \<open>Diagnostics_Portable\<close>: the bounded log and its two openers, which agree.
  \<open>Mirror_Pairing\<close>, \<open>Mirror_Tunnel\<close>: secrets, links, the tunnel process. \<open>Mirror_Manager\<close>,
  \<open>Manager_Lifecycle\<close>, \<open>Manager_Viewers\<close>: the manager's operations, which resources it owns over its life, and
  that no viewer is lost under any interleaving. \<open>Viewer_Geometry\<close>, \<open>Viewer_Pins\<close>, \<open>Viewer_Process\<close>: what tmux
  says about sizes, the counted pins of window sizes with their restore, and a viewer from its
  preparation to its one result.

  \<^bold>\<open>Control and worker.\<close> \<open>Control_Protocol\<close>, \<open>Control_Client\<close>, \<open>Control_Server\<close>: a call over the socket is a call
  of the handler, and the server owns its socket file. \<open>Share_Process\<close>, \<open>Share_Service\<close>: the start of a
  worker with everything that can go wrong, and \<open>Run\<close>, which takes down what it set up; requests for a
  new name or secret reach store and manager.

  \<^bold>\<open>Commands.\<close> \<open>Cli_Args\<close> (\<open>main.go\<close>), \<open>Doctor\<close> (\<open>doctor.go\<close>), \<open>Cli_Commands\<close> (\<open>commands.go\<close>): dispatch, flags and
  printable text, the checks, and every command; a worker that runs is spared, a kill that reports
  success has seen the worker stop, and a window that has a Wrap gets no second one.

  \<^bold>\<open>How code became definitions.\<close> Structs are records and interfaces are records of functions; an error
  result is a \<open>gerror option\<close> or the left of a sum. Code between \<open>Lock\<close> and \<open>Unlock\<close>, a channel operation and a
  system call are one step each; goroutines are step relations over these, so that a theorem about
  reachable states holds for every interleaving. Maps that Go iterates without an order are given an
  arbitrary one or are sets. Machine integers that can wrap are words (counters of frames and secrets).
  Texts of errors are kept without the quotes that \<open>%q\<close> puts around an argument.

  \<^bold>\<open>Parameters.\<close> Code that is not in the repository is an argument, and what is relied on is a hypothesis of
  the theorems: JSON, \<open>url.Parse\<close>, AES-GCM and HKDF (\<open>gcm_correct\<close>, \<open>gcm_authentic\<close>), SHA-256, Go's table of
  printable runes, the random source, WebSocket connections, processes and pseudo terminals, drawing of
  QR codes, clocks. Hooks that only tests set are nil. Failures of a file system are a schedule with
  one entry for each call that changes something; reading takes none. Permission bits are not tracked.

  \<^bold>\<open>Bounds.\<close> Loops with a limit in the code have it in the model (8 rounds of the portable opener, 400 looks at a
  viewer's geometry, 3 attempts to pin, the fixed numbers of polls of a stopping worker). The
  search for a derived name has fuel for one more name than are used; the theorem about it shows that it returns.
  Nothing is claimed only for runs that end: operations are total functions, and liveness is stated as
  the existence of a continuation or as a fact about every state in which nothing is left to do.

  \<^bold>\<open>Not modelled.\<close> The browser client (JavaScript, HTML and CSS, embedded by \<open>assets.go\<close>), release scripts,
  \<open>main\<close> and \<open>execRunner\<close> (calls of the operating system), accessors of a single field, timers and
  deadlines as time (they appear as the errors they cause), and the fairness of the scheduler.
\<close>

end
